theory Spec2Isabelle
  imports Complex_Main "HOL-Library.Multiset"
begin

section \<open>Data model of timetable-generator.js\<close>

text \<open>
  The generator works on plain JavaScript objects. Catalogue entries are records whose
  string-valued tags (\<open>type\<close>) stay strings, as the source compares them with
  \<open>===\<close> against literals and ignores every other value. A property that may be
  missing (\<open>undefined\<close>) is an \<open>option\<close>.
\<close>

datatype error = TypeError

datatype day = Monday | Tuesday | Wednesday | Thursday | Friday | Saturday

text \<open>\<open>Object.keys\<close> of the grid built by \<open>initializeTimetable\<close>, in insertion order.\<close>

definition allDays :: "day list" where
  "allDays = [Monday, Tuesday, Wednesday, Thursday, Friday, Saturday]"

fun dayName :: "day \<Rightarrow> string" where
  "dayName Monday = ''Monday''"
| "dayName Tuesday = ''Tuesday''"
| "dayName Wednesday = ''Wednesday''"
| "dayName Thursday = ''Thursday''"
| "dayName Friday = ''Friday''"
| "dayName Saturday = ''Saturday''"

record course =
  cname :: string
  ccode :: string
  ctype :: string
  ccredits :: "int option"
  labCredits :: "int option"
  teacherId :: string
  expectedStudents :: "int option"

record room =
  rname :: string
  rtype :: string
  capacity :: int

record timeslot =
  start :: string
  finish :: string
  sltype :: string

datatype kind = Theory | Lab | Break | Lunch

text \<open>
  An entry of a day's array (\<open>scheduledClass\<close>, \<open>cls\<close>). The source compares entries
  with \<open>!==\<close>, that is by object identity; \<open>oid\<close> is that identity, a number taken
  from a counter when the object literal is evaluated. It is not a property of the
  JavaScript object.
\<close>

record session =
  oid :: nat
  time :: string
  course :: string
  code :: "string option"
  teacher :: "string option"
  room :: "string option"
  stype :: kind
  duration :: "int option"
  credits :: "int option"
  isBreak :: bool
  isLunch :: bool

type_synonym timetable = "day \<Rightarrow> session list"

record constraints =
  MAX_CLASSES_PER_DAY :: int
  MAX_HOURS_PER_DAY :: int
  LAB_DURATION :: int
  MIN_BREAK_BETWEEN_CLASSES :: int
  LUNCH_BREAK :: int
  THEORY_DURATION :: int

text \<open>The second argument of \<open>generateTimetable\<close>: each key may be absent.\<close>

record overrides =
  oMAX_CLASSES_PER_DAY :: "int option"
  oMAX_HOURS_PER_DAY :: "int option"
  oLAB_DURATION :: "int option"
  oMIN_BREAK_BETWEEN_CLASSES :: "int option"
  oLUNCH_BREAK :: "int option"
  oTHEORY_DURATION :: "int option"

text \<open>\<open>this.constraints\<close>, set by the constructor.\<close>

definition defaultConstraints :: constraints where
  "defaultConstraints =
     \<lparr>MAX_CLASSES_PER_DAY = 6, MAX_HOURS_PER_DAY = 8, LAB_DURATION = 2,
      MIN_BREAK_BETWEEN_CLASSES = 10, LUNCH_BREAK = 60, THEORY_DURATION = 1\<rparr>"

definition noOverrides :: overrides where
  "noOverrides =
     \<lparr>oMAX_CLASSES_PER_DAY = None, oMAX_HOURS_PER_DAY = None, oLAB_DURATION = None,
      oMIN_BREAK_BETWEEN_CLASSES = None, oLUNCH_BREAK = None, oTHEORY_DURATION = None\<rparr>"

text \<open>\<open>{ ...this.constraints, ...constraints }\<close>\<close>

definition mergeConstraints :: "constraints \<Rightarrow> overrides \<Rightarrow> constraints" where
  "mergeConstraints d ov =
     \<lparr>MAX_CLASSES_PER_DAY = (case oMAX_CLASSES_PER_DAY ov of Some v \<Rightarrow> v | None \<Rightarrow> MAX_CLASSES_PER_DAY d),
      MAX_HOURS_PER_DAY = (case oMAX_HOURS_PER_DAY ov of Some v \<Rightarrow> v | None \<Rightarrow> MAX_HOURS_PER_DAY d),
      LAB_DURATION = (case oLAB_DURATION ov of Some v \<Rightarrow> v | None \<Rightarrow> LAB_DURATION d),
      MIN_BREAK_BETWEEN_CLASSES =
        (case oMIN_BREAK_BETWEEN_CLASSES ov of Some v \<Rightarrow> v | None \<Rightarrow> MIN_BREAK_BETWEEN_CLASSES d),
      LUNCH_BREAK = (case oLUNCH_BREAK ov of Some v \<Rightarrow> v | None \<Rightarrow> LUNCH_BREAK d),
      THEORY_DURATION = (case oTHEORY_DURATION ov of Some v \<Rightarrow> v | None \<Rightarrow> THEORY_DURATION d)\<rparr>"

section \<open>The host environment\<close>

text \<open>
  Three built-ins of the JavaScript host decide what the generator does and are not part
  of the repository: \<open>Math.random\<close>, \<open>String.prototype.localeCompare\<close> and
  \<open>Number\<close>. They are fields of an environment. \<open>random k\<close> stands for the outcome
  of the \<open>k\<close>-th call of \<open>Math.random()\<close>: the source only ever uses
  \<open>Math.floor(Math.random() * n)\<close>, which is an index below \<open>n\<close> for \<open>n > 0\<close> and
  \<open>0\<close> for \<open>n = 0\<close>, so a draw is a natural number reduced modulo \<open>n\<close>.
  \<open>localeCompare\<close> returns a negative, zero or positive number; \<open>toNumber\<close> is
  \<open>Number\<close> on the pieces of a time string, \<open>None\<close> standing for \<open>NaN\<close>.
  \<open>now\<close> is \<open>new Date().toISOString()\<close>.
\<close>

record env =
  random :: "nat \<Rightarrow> nat"
  localeCompare :: "string \<Rightarrow> string \<Rightarrow> int"
  toNumber :: "string \<Rightarrow> int option"
  now :: string

text \<open>\<open>Math.floor(Math.random() * n)\<close> at the \<open>pos\<close>-th call of \<open>Math.random\<close>.\<close>

definition randomIndex :: "env \<Rightarrow> nat \<Rightarrow> nat \<Rightarrow> nat" where
  "randomIndex e pos n = (if n = 0 then 0 else random e pos mod n)"

text \<open>\<open>xs[i]\<close>: \<open>undefined\<close> out of range.\<close>

definition nthOpt :: "'a list \<Rightarrow> nat \<Rightarrow> 'a option" where
  "nthOpt xs i = (if i < length xs then Some (xs ! i) else None)"

section \<open>Room selection\<close>

text \<open>\<open>course.expectedStudents || 60\<close>\<close>

definition neededCapacity :: "course \<Rightarrow> int" where
  "neededCapacity c = (case expectedStudents c of None \<Rightarrow> 60 | Some n \<Rightarrow> if n = 0 then 60 else n)"

definition suitableRooms :: "room list \<Rightarrow> course \<Rightarrow> room list" where
  "suitableRooms rooms c =
     filter (\<lambda>r. rtype r = ''classroom'' \<and> capacity r \<ge> neededCapacity c) rooms"

text \<open>
  \<open>findSuitableRoom\<close> returns the room name and the number of the next call of
  \<open>Math.random\<close>: a draw is consumed only when a room of sufficient capacity exists.
  \<open>rooms.find(...)?.name || 'Room 201'\<close> also gives the default when the first
  classroom's name is the empty string.
\<close>

definition findSuitableRoom :: "env \<Rightarrow> room list \<Rightarrow> course \<Rightarrow> nat \<Rightarrow> string \<times> nat" where
  "findSuitableRoom e rooms c pos =
     (let suitable = suitableRooms rooms c in
      if length suitable = 0 then
        (case find (\<lambda>r. rtype r = ''classroom'') rooms of
           None \<Rightarrow> (''Room 201'', pos)
         | Some r \<Rightarrow> (if rname r = [] then ''Room 201'' else rname r, pos))
      else (rname (suitable ! randomIndex e pos (length suitable)), Suc pos))"

definition labRooms :: "room list \<Rightarrow> room list" where
  "labRooms rooms = filter (\<lambda>r. rtype r = ''lab'') rooms"

definition findLabRoom :: "env \<Rightarrow> room list \<Rightarrow> course \<Rightarrow> nat \<Rightarrow> string \<times> nat" where
  "findLabRoom e rooms c pos =
     (if length (labRooms rooms) = 0 then (''Lab 101'', pos)
      else (rname (labRooms rooms ! randomIndex e pos (length (labRooms rooms))), Suc pos))"

section \<open>Conflict checks\<close>

text \<open>
  \<open>`${slot.start}-${slot.end}`\<close>: reading a property of \<open>undefined\<close> throws a
  \<open>TypeError\<close>. The slot is \<open>undefined\<close> when it was drawn from an empty array.
\<close>

definition slotTime :: "timeslot option \<Rightarrow> error + string" where
  "slotTime slot = (case slot of None \<Rightarrow> Inl TypeError
                                | Some s \<Rightarrow> Inr (start s @ ''-'' @ finish s))"

text \<open>\<open>Array.prototype.some\<close> with a callback that may throw.\<close>

fun someE :: "('a \<Rightarrow> error + bool) \<Rightarrow> 'a list \<Rightarrow> error + bool" where
  "someE p [] = Inr False"
| "someE p (x # xs) =
     (case p x of Inl er \<Rightarrow> Inl er
               | Inr b \<Rightarrow> if b then Inr True else someE p xs)"

text \<open>
  The callback \<open>c => c.f === v && c.time === `${slot.start}-${slot.end}`\<close>: the
  template is evaluated only when the first conjunct holds.
\<close>

definition sameAndAtSlot :: "bool \<Rightarrow> timeslot option \<Rightarrow> session \<Rightarrow> error + bool" where
  "sameAndAtSlot same slot sc =
     (if same then (case slotTime slot of Inl er \<Rightarrow> Inl er | Inr t \<Rightarrow> Inr (time sc = t))
      else Inr False)"

definition canScheduleCourse ::
  "env \<Rightarrow> timetable \<Rightarrow> day \<Rightarrow> timeslot option \<Rightarrow> course \<Rightarrow> room list \<Rightarrow> constraints \<Rightarrow> nat
     \<Rightarrow> error + (bool \<times> nat)" where
  "canScheduleCourse e tt d slot c rooms cons pos =
     (let daySchedule = tt d in
      case someE (\<lambda>sc. sameAndAtSlot (teacher sc = Some (teacherId c)) slot sc) daySchedule of
        Inl er \<Rightarrow> Inl er
      | Inr teacherConflict \<Rightarrow>
          if teacherConflict then Inr (False, pos)
          else
            (case findSuitableRoom e rooms c pos of
               (rm, pos') \<Rightarrow>
                 (case someE (\<lambda>sc. sameAndAtSlot (room sc = Some rm) slot sc) daySchedule of
                    Inl er \<Rightarrow> Inl er
                  | Inr roomConflict \<Rightarrow>
                      if roomConflict then Inr (False, pos')
                      else if int (length daySchedule) \<ge> MAX_CLASSES_PER_DAY cons
                           then Inr (False, pos')
                           else Inr (True, pos'))))"

definition canScheduleLab ::
  "env \<Rightarrow> timetable \<Rightarrow> day \<Rightarrow> timeslot option \<Rightarrow> course \<Rightarrow> room list \<Rightarrow> constraints \<Rightarrow> nat
     \<Rightarrow> bool \<times> nat" where
  "canScheduleLab e tt d slot c rooms cons pos =
     (let daySchedule = tt d in
      if list_ex (\<lambda>sc. teacher sc = Some (teacherId c)) daySchedule then (False, pos)
      else
        (case findLabRoom e rooms c pos of
           (labRoom, pos') \<Rightarrow>
             if list_ex (\<lambda>sc. room sc = Some labRoom) daySchedule then (False, pos')
             else if list_ex (\<lambda>dy. list_ex (\<lambda>sc. code sc = Some (ccode c @ ''L'')) (tt dy)) allDays
                  then (False, pos')
                  else (True, pos')))"

section \<open>Constructive scheduling\<close>

text \<open>
  The mutable state of one run: the grid, the number of calls of \<open>Math.random\<close> made
  so far, the counter that numbers the objects created, and what was written with
  \<open>console.warn\<close>.
\<close>

record gstate =
  grid :: timetable
  drawn :: nat
  nextId :: nat
  warnings :: "string list"

definition initializeTimetable :: timetable where
  "initializeTimetable = (\<lambda>d. [])"

definition initialState :: gstate where
  "initialState = \<lparr>grid = initializeTimetable, drawn = 0, nextId = 0, warnings = []\<rparr>"

definition weekDays :: "day list" where
  "weekDays = [Monday, Tuesday, Wednesday, Thursday, Friday]"

text \<open>\<open>getRandomDay\<close> and the same expression in \<open>scheduleLabCourses\<close>.\<close>

definition getRandomDay :: "env \<Rightarrow> nat \<Rightarrow> day" where
  "getRandomDay e pos = weekDays ! randomIndex e pos (length weekDays)"

definition theorySession :: "nat \<Rightarrow> string \<Rightarrow> course \<Rightarrow> string \<Rightarrow> session" where
  "theorySession i t c rm =
     \<lparr>oid = i, time = t, course = cname c, code = Some (ccode c), teacher = Some (teacherId c),
      room = Some rm, stype = Theory, duration = None, credits = ccredits c,
      isBreak = False, isLunch = False\<rparr>"

text \<open>\<open>course.labCredits || 1\<close>\<close>

definition labSession :: "nat \<Rightarrow> string \<Rightarrow> course \<Rightarrow> string \<Rightarrow> session" where
  "labSession i t c rm =
     \<lparr>oid = i, time = t, course = cname c @ '' Lab'', code = Some (ccode c @ ''L''),
      teacher = Some (teacherId c), room = Some rm, stype = Lab, duration = Some 2,
      credits = Some (case labCredits c of None \<Rightarrow> 1 | Some n \<Rightarrow> if n = 0 then 1 else n),
      isBreak = False, isLunch = False\<rparr>"

definition pushSession :: "timetable \<Rightarrow> day \<Rightarrow> session \<Rightarrow> timetable" where
  "pushSession tt d s = tt(d := tt d @ [s])"

text \<open>
  One pass of the body of \<open>while (!scheduled && attempts < maxAttempts)\<close> in
  \<open>scheduleTheoryCourses\<close>; it returns \<open>scheduled\<close> and the state. The pass draws the
  day, then the slot, calls \<open>canScheduleCourse\<close> and, when that holds, evaluates the
  object literal: the time first (a \<open>TypeError\<close> when the slot is \<open>undefined\<close>), then
  \<open>findSuitableRoom\<close> a second time.
\<close>

definition theoryAttempt ::
  "env \<Rightarrow> timeslot list \<Rightarrow> room list \<Rightarrow> constraints \<Rightarrow> course \<Rightarrow> gstate
     \<Rightarrow> error + (bool \<times> gstate)" where
  "theoryAttempt e theorySlots rooms cons c st =
     (let randomDay = getRandomDay e (drawn st);
          randomSlot = nthOpt theorySlots (randomIndex e (Suc (drawn st)) (length theorySlots))
      in case canScheduleCourse e (grid st) randomDay randomSlot c rooms cons (Suc (Suc (drawn st))) of
           Inl er \<Rightarrow> Inl er
         | Inr (ok, pos) \<Rightarrow>
             if ok then
               (case slotTime randomSlot of
                  Inl er \<Rightarrow> Inl er
                | Inr t \<Rightarrow>
                    (case findSuitableRoom e rooms c pos of
                       (rm, pos') \<Rightarrow>
                         Inr (True,
                              st\<lparr>grid := pushSession (grid st) randomDay (theorySession (nextId st) t c rm),
                                 drawn := pos', nextId := Suc (nextId st)\<rparr>)))
             else Inr (False, st\<lparr>drawn := pos\<rparr>))"

text \<open>The loop for one course, from a given value of \<open>attempts\<close>; \<open>maxAttempts\<close> is 100.\<close>

function theoryAttempts ::
  "env \<Rightarrow> timeslot list \<Rightarrow> room list \<Rightarrow> constraints \<Rightarrow> course \<Rightarrow> nat \<Rightarrow> gstate
     \<Rightarrow> error + (bool \<times> gstate)" where
  "theoryAttempts e theorySlots rooms cons c attempts st =
     (if attempts < 100 then
        (case theoryAttempt e theorySlots rooms cons c st of
           Inl er \<Rightarrow> Inl er
         | Inr (scheduled, st') \<Rightarrow>
             if scheduled then Inr (True, st')
             else theoryAttempts e theorySlots rooms cons c (Suc attempts) st')
      else Inr (False, st))"
  by pat_completeness auto
termination
  by (relation "measure (\<lambda>(e, theorySlots, rooms, cons, c, attempts, st). 100 - attempts)") auto

declare theoryAttempts.simps [simp del]

definition theoryWarning :: "course \<Rightarrow> string" where
  "theoryWarning c = ''Could not schedule theory course: '' @ cname c"

text \<open>The \<open>for (const course of courses)\<close> loop of \<open>scheduleTheoryCourses\<close>.\<close>

fun theoryLoop ::
  "env \<Rightarrow> timeslot list \<Rightarrow> room list \<Rightarrow> constraints \<Rightarrow> course list \<Rightarrow> gstate \<Rightarrow> error + gstate" where
  "theoryLoop e theorySlots rooms cons [] st = Inr st"
| "theoryLoop e theorySlots rooms cons (c # cs) st =
     (case theoryAttempts e theorySlots rooms cons c 0 st of
        Inl er \<Rightarrow> Inl er
      | Inr (scheduled, st') \<Rightarrow>
          theoryLoop e theorySlots rooms cons cs
            (if scheduled then st' else st'\<lparr>warnings := warnings st' @ [theoryWarning c]\<rparr>))"

definition scheduleTheoryCourses ::
  "env \<Rightarrow> course list \<Rightarrow> room list \<Rightarrow> timeslot list \<Rightarrow> constraints \<Rightarrow> gstate \<Rightarrow> error + gstate" where
  "scheduleTheoryCourses e courses rooms timeslots cons st =
     theoryLoop e (filter (\<lambda>slot. sltype slot = ''theory'') timeslots) rooms cons courses st"

text \<open>
  The same for \<open>scheduleLabCourses\<close>: the day is drawn from the same five days, the
  check is \<open>canScheduleLab\<close>, the room comes from \<open>findLabRoom\<close>, and \<open>maxAttempts\<close>
  is 50.
\<close>

definition labAttempt ::
  "env \<Rightarrow> timeslot list \<Rightarrow> room list \<Rightarrow> constraints \<Rightarrow> course \<Rightarrow> gstate
     \<Rightarrow> error + (bool \<times> gstate)" where
  "labAttempt e labSlots rooms cons c st =
     (let randomDay = getRandomDay e (drawn st);
          randomSlot = nthOpt labSlots (randomIndex e (Suc (drawn st)) (length labSlots))
      in case canScheduleLab e (grid st) randomDay randomSlot c rooms cons (Suc (Suc (drawn st))) of
           (ok, pos) \<Rightarrow>
             if ok then
               (case slotTime randomSlot of
                  Inl er \<Rightarrow> Inl er
                | Inr t \<Rightarrow>
                    (case findLabRoom e rooms c pos of
                       (rm, pos') \<Rightarrow>
                         Inr (True,
                              st\<lparr>grid := pushSession (grid st) randomDay (labSession (nextId st) t c rm),
                                 drawn := pos', nextId := Suc (nextId st)\<rparr>)))
             else Inr (False, st\<lparr>drawn := pos\<rparr>))"

function labAttempts ::
  "env \<Rightarrow> timeslot list \<Rightarrow> room list \<Rightarrow> constraints \<Rightarrow> course \<Rightarrow> nat \<Rightarrow> gstate
     \<Rightarrow> error + (bool \<times> gstate)" where
  "labAttempts e labSlots rooms cons c attempts st =
     (if attempts < 50 then
        (case labAttempt e labSlots rooms cons c st of
           Inl er \<Rightarrow> Inl er
         | Inr (scheduled, st') \<Rightarrow>
             if scheduled then Inr (True, st')
             else labAttempts e labSlots rooms cons c (Suc attempts) st')
      else Inr (False, st))"
  by pat_completeness auto
termination
  by (relation "measure (\<lambda>(e, labSlots, rooms, cons, c, attempts, st). 50 - attempts)") auto

declare labAttempts.simps [simp del]

definition labWarning :: "course \<Rightarrow> string" where
  "labWarning c = ''Could not schedule lab course: '' @ cname c"

fun labLoop ::
  "env \<Rightarrow> timeslot list \<Rightarrow> room list \<Rightarrow> constraints \<Rightarrow> course list \<Rightarrow> gstate \<Rightarrow> error + gstate" where
  "labLoop e labSlots rooms cons [] st = Inr st"
| "labLoop e labSlots rooms cons (c # cs) st =
     (case labAttempts e labSlots rooms cons c 0 st of
        Inl er \<Rightarrow> Inl er
      | Inr (scheduled, st') \<Rightarrow>
          labLoop e labSlots rooms cons cs
            (if scheduled then st' else st'\<lparr>warnings := warnings st' @ [labWarning c]\<rparr>))"

definition scheduleLabCourses ::
  "env \<Rightarrow> course list \<Rightarrow> room list \<Rightarrow> timeslot list \<Rightarrow> constraints \<Rightarrow> gstate \<Rightarrow> error + gstate" where
  "scheduleLabCourses e courses rooms timeslots cons st =
     labLoop e (filter (\<lambda>slot. sltype slot = ''lab'') timeslots) rooms cons courses st"

section \<open>Break and lunch injection\<close>

text \<open>\<open>s.split(sep)\<close> for a one-character separator: never the empty array.\<close>

fun splitOn :: "char \<Rightarrow> string \<Rightarrow> string list" where
  "splitOn sep [] = [[]]"
| "splitOn sep (x # xs) =
     (if x = sep then [] # splitOn sep xs
      else (case splitOn sep xs of [] \<Rightarrow> [[x]] | p # ps \<Rightarrow> (x # p) # ps))"

text \<open>\<open>t.split('-')[0]\<close> and \<open>t.split('-')[1]\<close>; the second may be \<open>undefined\<close>.\<close>

definition startOf :: "string \<Rightarrow> string" where
  "startOf t = (case splitOn CHR ''-'' t of [] \<Rightarrow> [] | p # ps \<Rightarrow> p)"

definition endOf :: "string \<Rightarrow> string option" where
  "endOf t = nthOpt (splitOn CHR ''-'' t) 1"

text \<open>\<open>a <= b\<close> on two strings: lexicographic on the code units.\<close>

fun strLe :: "string \<Rightarrow> string \<Rightarrow> bool" where
  "strLe [] b = True"
| "strLe (x # xs) [] = False"
| "strLe (x # xs) (y # ys) = (if x = y then strLe xs ys else (of_char x :: nat) < of_char y)"

text \<open>\<open>a >= b\<close> where \<open>a\<close> may be \<open>undefined\<close>: then the comparison is false.\<close>

definition optGe :: "string option \<Rightarrow> string \<Rightarrow> bool" where
  "optGe a b = (case a of None \<Rightarrow> False | Some s \<Rightarrow> strLe b s)"

text \<open>
  \<open>getTimeDifference\<close>: \<open>None\<close> is \<open>NaN\<close>, which is also what a missing minutes part
  gives.
\<close>

definition getTimeDifference :: "env \<Rightarrow> string \<Rightarrow> string \<Rightarrow> int option" where
  "getTimeDifference e time1 time2 =
     (let p1 = map (toNumber e) (splitOn CHR '':'' time1);
          p2 = map (toNumber e) (splitOn CHR '':'' time2)
      in case (nthOpt p1 0, nthOpt p1 1, nthOpt p2 0, nthOpt p2 1) of
           (Some (Some h1), Some (Some m1), Some (Some h2), Some (Some m2)) \<Rightarrow>
              Some ((h2 - h1) * 60 + (m2 - m1))
         | _ \<Rightarrow> None)"

text \<open>
  \<open>Array.prototype.sort\<close> is stable; for the comparator of the source (a
  \<open>localeCompare\<close> of the start times) that fixes the result, which insertion from
  the right computes.
\<close>

fun insertBy :: "('a \<Rightarrow> 'a \<Rightarrow> int) \<Rightarrow> 'a \<Rightarrow> 'a list \<Rightarrow> 'a list" where
  "insertBy cmp x [] = [x]"
| "insertBy cmp x (y # ys) = (if cmp x y \<le> 0 then x # y # ys else y # insertBy cmp x ys)"

definition sortBy :: "('a \<Rightarrow> 'a \<Rightarrow> int) \<Rightarrow> 'a list \<Rightarrow> 'a list" where
  "sortBy cmp xs = foldr (insertBy cmp) xs []"

definition byStart :: "env \<Rightarrow> session \<Rightarrow> session \<Rightarrow> int" where
  "byStart e a b = localeCompare e (startOf (time a)) (startOf (time b))"

definition breakMarker :: "nat \<Rightarrow> string \<Rightarrow> string \<Rightarrow> session" where
  "breakMarker i currentEnd nextStart =
     \<lparr>oid = i, time = currentEnd @ ''-'' @ nextStart, course = ''Break'', code = None,
      teacher = None, room = None, stype = Break, duration = None, credits = None,
      isBreak = True, isLunch = False\<rparr>"

definition lunchTime :: string where
  "lunchTime = ''12:00-1:00''"

definition lunchMarker :: "nat \<Rightarrow> session" where
  "lunchMarker i =
     \<lparr>oid = i, time = lunchTime, course = ''Lunch'', code = None,
      teacher = None, room = None, stype = Lunch, duration = None, credits = None,
      isBreak = False, isLunch = True\<rparr>"

text \<open>
  The threshold is read from \<open>this.constraints\<close>, the constructor's defaults;
  \<open>addBreaksAndLunch\<close> is not given the merged constraints.
\<close>

definition needsBreak :: "env \<Rightarrow> string \<Rightarrow> string \<Rightarrow> bool" where
  "needsBreak e currentEnd nextStart =
     (case getTimeDifference e currentEnd nextStart of
        None \<Rightarrow> False
      | Some diff \<Rightarrow> diff > MIN_BREAK_BETWEEN_CLASSES defaultConstraints)"

text \<open>
  The \<open>for\<close> loop that builds \<open>updatedSchedule\<close>, with the counter for the markers it
  creates. \<open>getTimeDifference\<close> of an \<open>undefined\<close> end throws.
\<close>

fun addBreaks :: "env \<Rightarrow> nat \<Rightarrow> session list \<Rightarrow> error + (session list \<times> nat)" where
  "addBreaks e i [] = Inr ([], i)"
| "addBreaks e i [x] = Inr ([x], i)"
| "addBreaks e i (x # y # rest) =
     (case endOf (time x) of
        None \<Rightarrow> Inl TypeError
      | Some currentEnd \<Rightarrow>
          (let nextStart = startOf (time y) in
           if needsBreak e currentEnd nextStart then
             (case addBreaks e (Suc i) (y # rest) of
                Inl er \<Rightarrow> Inl er
              | Inr (r, i') \<Rightarrow> Inr (x # breakMarker i currentEnd nextStart # r, i'))
           else
             (case addBreaks e i (y # rest) of
                Inl er \<Rightarrow> Inl er
              | Inr (r, i') \<Rightarrow> Inr (x # r, i'))))"

fun findIndex :: "('a \<Rightarrow> bool) \<Rightarrow> 'a list \<Rightarrow> nat option" where
  "findIndex p [] = None"
| "findIndex p (x # xs) =
     (if p x then Some 0 else (case findIndex p xs of None \<Rightarrow> None | Some k \<Rightarrow> Some (Suc k)))"

definition hasClassDuringLunch :: "session list \<Rightarrow> bool" where
  "hasClassDuringLunch updatedSchedule =
     list_ex (\<lambda>cls. time cls = lunchTime \<or>
                    (strLe (startOf (time cls)) ''12:00'' \<and> optGe (endOf (time cls)) ''1:00''))
             updatedSchedule"

definition addLunch :: "nat \<Rightarrow> session list \<Rightarrow> session list \<times> nat" where
  "addLunch i updatedSchedule =
     (if \<not> hasClassDuringLunch updatedSchedule then
        (case findIndex (\<lambda>cls. optGe (endOf (time cls)) ''12:00'') updatedSchedule of
           None \<Rightarrow> (updatedSchedule, i)
         | Some lunchIndex \<Rightarrow>
             (take (Suc lunchIndex) updatedSchedule @ [lunchMarker i]
                @ drop (Suc lunchIndex) updatedSchedule, Suc i))
      else (updatedSchedule, i))"

text \<open>The body of \<open>days.forEach\<close> in \<open>addBreaksAndLunch\<close>.\<close>

definition addBreaksAndLunchDay :: "env \<Rightarrow> day \<Rightarrow> gstate \<Rightarrow> error + gstate" where
  "addBreaksAndLunchDay e d st =
     (case addBreaks e (nextId st) (sortBy (byStart e) (grid st d)) of
        Inl er \<Rightarrow> Inl er
      | Inr (withBreaks, i) \<Rightarrow>
          (case addLunch i withBreaks of
             (updatedSchedule, i') \<Rightarrow>
               Inr (st\<lparr>grid := (grid st)(d := updatedSchedule), nextId := i'\<rparr>)))"

fun forEachDay :: "(day \<Rightarrow> gstate \<Rightarrow> error + gstate) \<Rightarrow> day list \<Rightarrow> gstate \<Rightarrow> error + gstate" where
  "forEachDay f [] st = Inr st"
| "forEachDay f (d # ds) st =
     (case f d st of Inl er \<Rightarrow> Inl er | Inr st' \<Rightarrow> forEachDay f ds st')"

definition addBreaksAndLunch :: "env \<Rightarrow> gstate \<Rightarrow> error + gstate" where
  "addBreaksAndLunch e st = forEachDay (addBreaksAndLunchDay e) allDays st"

section \<open>Repair passes\<close>

text \<open>A string property is truthy when it is present and not empty.\<close>

definition truthy :: "string option \<Rightarrow> bool" where
  "truthy v = (case v of None \<Rightarrow> False | Some s \<Rightarrow> s \<noteq> [])"

text \<open>\<open>`${day}_${cls.time}_${v}`\<close>, where \<open>v\<close> is the teacher or the room.\<close>

definition slotKey :: "day \<Rightarrow> session \<Rightarrow> string option \<Rightarrow> string" where
  "slotKey d cls v = dayName d @ ''_'' @ time cls @ ''_'' @ (case v of None \<Rightarrow> ''undefined'' | Some s \<Rightarrow> s)"

definition otherDaysOf :: "day \<Rightarrow> day list" where
  "otherDaysOf d = filter (\<lambda>d'. d' \<noteq> d) allDays"

definition moveClassToResolveConflict :: "timetable \<Rightarrow> day \<Rightarrow> session \<Rightarrow> timetable" where
  "moveClassToResolveConflict tt d classToMove =
     (case find (\<lambda>otherDay. \<not> list_ex (\<lambda>cls. time cls = time classToMove \<and>
                                                teacher cls = teacher classToMove) (tt otherDay))
                (otherDaysOf d) of
        None \<Rightarrow> tt
      | Some otherDay \<Rightarrow>
          (tt(otherDay := tt otherDay @ [classToMove]))
            (d := filter (\<lambda>cls. oid cls \<noteq> oid classToMove) (tt d)))"

text \<open>
  The inner \<open>classes.forEach\<close> of \<open>resolveTeacherConflicts\<close>. It walks the array the
  day had when its turn came, while \<open>moveClassToResolveConflict\<close> replaces
  \<open>timetable[day]\<close> by filtered copies; \<open>teacherSchedule\<close> is the list of keys seen.
\<close>

fun teacherScan :: "day \<Rightarrow> session list \<Rightarrow> timetable \<times> string list \<Rightarrow> timetable \<times> string list" where
  "teacherScan d [] acc = acc"
| "teacherScan d (cls # rest) (tt, teacherSchedule) =
     (if truthy (teacher cls) \<and> \<not> isBreak cls \<and> \<not> isLunch cls then
        (let key = slotKey d cls (teacher cls) in
         if key \<in> set teacherSchedule
         then teacherScan d rest (moveClassToResolveConflict tt d cls, teacherSchedule)
         else teacherScan d rest (tt, key # teacherSchedule))
      else teacherScan d rest (tt, teacherSchedule))"

text \<open>
  \<open>Object.entries(timetable)\<close> holds the six arrays as they are when the pass starts.
  A move made for an earlier day pushes onto the very array a later day will walk, so
  the walk of a day starts from that day's current content.
\<close>

definition resolveTeacherConflicts :: "timetable \<Rightarrow> timetable" where
  "resolveTeacherConflicts tt =
     fst (foldl (\<lambda>acc d. teacherScan d (fst acc d) acc) (tt, []) allDays)"

definition findAlternativeRoom :: "string \<Rightarrow> string" where
  "findAlternativeRoom currentRoom =
     (case find (\<lambda>r. r \<noteq> currentRoom) [''Room 202'', ''Room 203'', ''Room 204'', ''Room 205''] of
        None \<Rightarrow> ''Room 201''
      | Some r \<Rightarrow> r)"

text \<open>The inner loop of \<open>resolveRoomConflicts\<close>: it assigns to \<open>cls.room\<close> in place.\<close>

fun roomScan :: "day \<Rightarrow> session list \<Rightarrow> string list \<Rightarrow> session list \<times> string list" where
  "roomScan d [] roomSchedule = ([], roomSchedule)"
| "roomScan d (cls # rest) roomSchedule =
     (if truthy (room cls) \<and> \<not> isBreak cls \<and> \<not> isLunch cls then
        (let key = slotKey d cls (room cls) in
         if key \<in> set roomSchedule
         then (case roomScan d rest roomSchedule of
                 (rest', seen) \<Rightarrow>
                   (cls\<lparr>room := Some (findAlternativeRoom (case room cls of None \<Rightarrow> [] | Some r \<Rightarrow> r))\<rparr> # rest',
                    seen))
         else (case roomScan d rest (key # roomSchedule) of
                 (rest', seen) \<Rightarrow> (cls # rest', seen)))
      else (case roomScan d rest roomSchedule of (rest', seen) \<Rightarrow> (cls # rest', seen)))"

definition resolveRoomConflicts :: "timetable \<Rightarrow> timetable" where
  "resolveRoomConflicts tt =
     fst (foldl (\<lambda>acc d. case roomScan d (fst acc d) (snd acc) of
                           (classes, seen) \<Rightarrow> ((fst acc)(d := classes), seen))
                (tt, []) allDays)"

definition isClass :: "session \<Rightarrow> bool" where
  "isClass cls = (stype cls = Theory \<or> stype cls = Lab)"

definition dayWorkload :: "timetable \<Rightarrow> day \<Rightarrow> nat" where
  "dayWorkload tt d = length (filter isClass (tt d))"

text \<open>
  \<open>avgClasses\<close> is a quotient of small integers by six; the comparison with
  \<open>count\<close> and the floor of the difference are the same in exact arithmetic.
\<close>

definition avgClasses :: "timetable \<Rightarrow> real" where
  "avgClasses tt = real (foldl (+) 0 (map (dayWorkload tt) allDays)) / real (length allDays)"

text \<open>\<open>xs.slice(0, n)\<close>: a negative \<open>n\<close> counts from the end.\<close>

definition slice0 :: "int \<Rightarrow> 'a list \<Rightarrow> 'a list" where
  "slice0 n xs = (if n \<ge> 0 then take (nat n) xs else take (length xs - nat (- n)) xs)"

text \<open>
  \<open>otherDays.find(day => timetable[day].length < timetable[fromDay].length) || otherDays[0]\<close>;
  the target is one of the other days, so the push never touches \<open>timetable[fromDay]\<close>.
\<close>

definition targetDay :: "timetable \<Rightarrow> day \<Rightarrow> day option" where
  "targetDay tt fromDay =
     (case find (\<lambda>d. length (tt d) < length (tt fromDay)) (otherDaysOf fromDay) of
        Some d \<Rightarrow> Some d
      | None \<Rightarrow> nthOpt (otherDaysOf fromDay) 0)"

definition moveOne :: "day \<Rightarrow> timetable \<Rightarrow> session \<Rightarrow> timetable" where
  "moveOne fromDay tt cls =
     (case targetDay tt fromDay of
        None \<Rightarrow> tt
      | Some target \<Rightarrow>
          (tt(target := tt target @ [cls]))
            (fromDay := filter (\<lambda>c. oid c \<noteq> oid cls) (tt fromDay)))"

definition redistributeClasses :: "timetable \<Rightarrow> day \<Rightarrow> int \<Rightarrow> timetable" where
  "redistributeClasses tt fromDay numClassesToMove =
     foldl (moveOne fromDay) tt
       (slice0 numClassesToMove (filter (\<lambda>cls. stype cls = Theory) (tt fromDay)))"

text \<open>
  \<open>dayWorkload\<close> and \<open>avgClasses\<close> are computed once, from the grid the pass is
  given, before any class is moved.
\<close>

definition balanceDailyWorkload :: "timetable \<Rightarrow> constraints \<Rightarrow> timetable" where
  "balanceDailyWorkload tt cons =
     foldl (\<lambda>t d. if real (dayWorkload tt d) > avgClasses tt + 1
                   then redistributeClasses t d (\<lfloor>real (dayWorkload tt d) - avgClasses tt\<rfloor>)
                   else t)
           tt allDays"

text \<open>
  \<open>JSON.parse(JSON.stringify(timetable))\<close> copies every array and object; the copies
  keep the contents, and the identities stay distinct.
\<close>

definition optimizeTimetable :: "timetable \<Rightarrow> constraints \<Rightarrow> timetable" where
  "optimizeTimetable tt cons =
     balanceDailyWorkload (resolveRoomConflicts (resolveTeacherConflicts tt)) cons"

section \<open>Scoring\<close>

text \<open>
  The body of the inner \<open>forEach\<close> of \<open>detectConflicts\<close>; the accumulator is
  \<open>(conflicts, teacherSlots, roomSlots)\<close>.
\<close>

definition teacherMessage :: "day \<Rightarrow> session \<Rightarrow> string \<Rightarrow> string" where
  "teacherMessage d cls t = ''Teacher '' @ t @ '' double booked on '' @ dayName d @ '' at '' @ time cls"

definition roomMessage :: "day \<Rightarrow> session \<Rightarrow> string \<Rightarrow> string" where
  "roomMessage d cls r = ''Room '' @ r @ '' double booked on '' @ dayName d @ '' at '' @ time cls"

definition detectStep ::
  "day \<Rightarrow> string list \<times> string list \<times> string list \<Rightarrow> session
     \<Rightarrow> string list \<times> string list \<times> string list" where
  "detectStep d acc cls =
     (case acc of (conflicts, teacherSlots, roomSlots) \<Rightarrow>
        if truthy (teacher cls) \<and> truthy (room cls) then
          (let teacherKey = slotKey d cls (teacher cls);
               roomKey = slotKey d cls (room cls);
               t = (case teacher cls of None \<Rightarrow> [] | Some v \<Rightarrow> v);
               r = (case room cls of None \<Rightarrow> [] | Some v \<Rightarrow> v);
               c1 = (if teacherKey \<in> set teacherSlots then conflicts @ [teacherMessage d cls t]
                     else conflicts);
               ts = (if teacherKey \<in> set teacherSlots then teacherSlots else teacherKey # teacherSlots);
               c2 = (if roomKey \<in> set roomSlots then c1 @ [roomMessage d cls r] else c1);
               rs = (if roomKey \<in> set roomSlots then roomSlots else roomKey # roomSlots)
           in (c2, ts, rs))
        else acc)"

definition detectConflicts :: "timetable \<Rightarrow> string list" where
  "detectConflicts tt =
     fst (foldl (\<lambda>acc d. foldl (detectStep d) acc (tt d)) ([], [], []) allDays)"

text \<open>\<open>Math.max(...dayCounts)\<close> and \<open>Math.min(...dayCounts)\<close> over the six days.\<close>

definition calculateBalanceScore :: "timetable \<Rightarrow> int" where
  "calculateBalanceScore tt =
     (let dayCounts = map (\<lambda>d. int (dayWorkload tt d)) allDays
      in (foldl max (dayCounts ! 0) dayCounts - foldl min (dayCounts ! 0) dayCounts) * (- 5))"

definition calculateTimetableScore :: "timetable \<Rightarrow> int" where
  "calculateTimetableScore tt =
     max 0 (100 - int (length (detectConflicts tt)) * 10 + calculateBalanceScore tt)"

section \<open>The entry point\<close>

record sectionData =
  department :: string
  semester :: string
  section' :: string
  courses :: "course list"
  rooms :: "room list"
  timeslots :: "timeslot list"

text \<open>
  What \<open>generateTimetable\<close> resolves to: the six days of the optimized grid spread
  into the object, and three more keys.
\<close>

record generated =
  days :: timetable
  sectionId :: string
  generatedAt :: string
  usedConstraints :: constraints

text \<open>
  A run either throws or returns; \<open>console\<close> is what the run wrote with
  \<open>console.warn\<close>, which is not part of the returned object.
\<close>

record outcome =
  returned :: generated
  console :: "string list"

definition generateTimetable :: "env \<Rightarrow> sectionData \<Rightarrow> overrides \<Rightarrow> error + outcome" where
  "generateTimetable e sd ov =
     (let finalConstraints = mergeConstraints defaultConstraints ov;
          theoryCourses = filter (\<lambda>c. ctype c = ''theory'') (courses sd);
          labCourses = filter (\<lambda>c. ctype c = ''lab'') (courses sd)
      in case scheduleTheoryCourses e theoryCourses (rooms sd) (timeslots sd) finalConstraints initialState of
           Inl er \<Rightarrow> Inl er
         | Inr st1 \<Rightarrow>
             (case scheduleLabCourses e labCourses (rooms sd) (timeslots sd) finalConstraints st1 of
                Inl er \<Rightarrow> Inl er
              | Inr st2 \<Rightarrow>
                  (case addBreaksAndLunch e st2 of
                     Inl er \<Rightarrow> Inl er
                   | Inr st3 \<Rightarrow>
                       Inr \<lparr>returned =
                              \<lparr>days = optimizeTimetable (grid st3) finalConstraints,
                               sectionId = department sd @ ''-'' @ semester sd @ ''-'' @ section' sd,
                               generatedAt = now e,
                               usedConstraints = finalConstraints\<rparr>,
                            console = warnings st3\<rparr>)))"

text \<open>The boolean a check returns, without the position of the random source.\<close>

definition verdictOf :: "error + (bool \<times> nat) \<Rightarrow> error + bool" where
  "verdictOf r = (case r of Inl er \<Rightarrow> Inl er | Inr (b, pos) \<Rightarrow> Inr b)"

text \<open>
  The state of \<open>generateTimetable\<close> after its two scheduling calls, before
  \<open>addBreaksAndLunch\<close> and \<open>optimizeTimetable\<close>.
\<close>

definition constructivePhase :: "env \<Rightarrow> sectionData \<Rightarrow> overrides \<Rightarrow> error + gstate" where
  "constructivePhase e sd ov =
     (let finalConstraints = mergeConstraints defaultConstraints ov in
      case scheduleTheoryCourses e (filter (\<lambda>c. ctype c = ''theory'') (courses sd)) (rooms sd)
             (timeslots sd) finalConstraints initialState of
        Inl er \<Rightarrow> Inl er
      | Inr st1 \<Rightarrow>
          scheduleLabCourses e (filter (\<lambda>c. ctype c = ''lab'') (courses sd)) (rooms sd)
            (timeslots sd) finalConstraints st1)"

text \<open>All entries of a grid, day after day (\<open>Object.values(timetable).flat()\<close>).\<close>

definition entriesOf :: "timetable \<Rightarrow> session list" where
  "entriesOf tt = concat (map tt allDays)"

text \<open>
  \<open>placedTheory\<close> and \<open>placedLab\<close> describe the one change a successful pass makes: a
  session is pushed onto a weekday, and the counter of objects moves on.
\<close>

definition placedTheory :: "constraints \<Rightarrow> course \<Rightarrow> gstate \<Rightarrow> gstate \<Rightarrow> bool" where
  "placedTheory cons c st st' =
     (\<exists>d t rm. d \<in> set weekDays
        \<and> grid st' = pushSession (grid st) d (theorySession (nextId st) t c rm)
        \<and> nextId st' = Suc (nextId st)
        \<and> int (length (grid st d)) < MAX_CLASSES_PER_DAY cons)"

definition placedLab :: "timeslot list \<Rightarrow> course \<Rightarrow> gstate \<Rightarrow> gstate \<Rightarrow> bool" where
  "placedLab labSlots c st st' =
     (\<exists>d sl rm. d \<in> set weekDays \<and> sl \<in> set labSlots
        \<and> grid st' = pushSession (grid st) d (labSession (nextId st) (start sl @ ''-'' @ finish sl) c rm)
        \<and> nextId st' = Suc (nextId st)
        \<and> \<not> list_ex (\<lambda>sc. code sc = Some (ccode c @ ''L'')) (entriesOf (grid st)))"

text \<open>
  Object identities are sound in a grid when no two entries share one and all lie below
  the counter.
\<close>

definition idsBelow :: "timetable \<Rightarrow> nat \<Rightarrow> bool" where
  "idsBelow g n = (distinct (map oid (entriesOf g)) \<and> list_all (\<lambda>s. oid s < n) (entriesOf g))"

text \<open>The sessions that are not markers.\<close>

definition classesOf :: "timetable \<Rightarrow> session list" where
  "classesOf tt = filter isClass (entriesOf tt)"

text \<open>An entry with its room forgotten: the repair passes change the room only.\<close>

definition withoutRoom :: "session \<Rightarrow> session" where
  "withoutRoom s = s\<lparr>room := None\<rparr>"

text \<open>The lab sessions of a grid that carry a given code.\<close>

definition labBlocks :: "timetable \<Rightarrow> string \<Rightarrow> session list" where
  "labBlocks tt k = filter (\<lambda>s. stype s = Lab \<and> code s = Some k) (entriesOf tt)"

text \<open>
  What the grid records of a lab block: the duration 2 and, as its one span, the start
  and end of a single lab slot of the catalogue.
\<close>

definition labFrom :: "timeslot list \<Rightarrow> session \<Rightarrow> bool" where
  "labFrom slots s =
     (stype s = Lab \<longrightarrow>
        duration s = Some 2
        \<and> (\<exists>sl \<in> set slots. sltype sl = ''lab'' \<and> time s = start sl @ ''-'' @ finish sl))"

text \<open>
  The entries \<open>detectConflicts\<close> looks at, and the keys it files them under, day after
  day in the order of the scan.
\<close>

definition bookable :: "session \<Rightarrow> bool" where
  "bookable cls = (truthy (teacher cls) \<and> truthy (room cls))"

definition teacherKeys :: "timetable \<Rightarrow> string list" where
  "teacherKeys tt =
     concat (map (\<lambda>d. map (\<lambda>cls. slotKey d cls (teacher cls)) (filter bookable (tt d))) allDays)"

definition roomKeys :: "timetable \<Rightarrow> string list" where
  "roomKeys tt =
     concat (map (\<lambda>d. map (\<lambda>cls. slotKey d cls (room cls)) (filter bookable (tt d))) allDays)"

text \<open>The same entries as (day, time, teacher) and (day, time, room) triples.\<close>

definition teacherTriples :: "timetable \<Rightarrow> (day \<times> string \<times> string option) list" where
  "teacherTriples tt =
     concat (map (\<lambda>d. map (\<lambda>cls. (d, time cls, teacher cls)) (filter bookable (tt d))) allDays)"

definition roomTriples :: "timetable \<Rightarrow> (day \<times> string \<times> string option) list" where
  "roomTriples tt =
     concat (map (\<lambda>d. map (\<lambda>cls. (d, time cls, room cls)) (filter bookable (tt d))) allDays)"

text \<open>How many members of a list repeat an earlier member.\<close>

definition duplicates :: "'a list \<Rightarrow> nat" where
  "duplicates ks = length ks - length (remdups ks)"

text \<open>The same count for a scan that starts with a set of keys already seen.\<close>

fun dupsFrom :: "'a set \<Rightarrow> 'a list \<Rightarrow> nat" where
  "dupsFrom S [] = 0"
| "dupsFrom S (k # ks) = (if k \<in> S then 1 else 0) + dupsFrom (insert k S) ks"

text \<open>
  The number of theory and lab sessions in a day's array, written out from the entry
  types and not through the generator's own counting; break and lunch markers do not
  count.
\<close>

definition lessonCount :: "session list \<Rightarrow> nat" where
  "lessonCount xs = length (filter (\<lambda>s. stype s = Theory \<or> stype s = Lab) xs)"

text \<open>These numbers for the six days.\<close>

definition dailyCounts :: "timetable \<Rightarrow> int set" where
  "dailyCounts tt = (\<lambda>d. int (lessonCount (tt d))) ` set allDays"

text \<open>The keys of one day's entries.\<close>

definition tkeys :: "day \<Rightarrow> session list \<Rightarrow> string list" where
  "tkeys d xs = map (\<lambda>cls. slotKey d cls (teacher cls)) (filter bookable xs)"

definition rkeys :: "day \<Rightarrow> session list \<Rightarrow> string list" where
  "rkeys d xs = map (\<lambda>cls. slotKey d cls (room cls)) (filter bookable xs)"

text \<open>The key of a triple, as \<open>slotKey\<close> builds it.\<close>

definition keyOf :: "day \<times> string \<times> string option \<Rightarrow> string" where
  "keyOf t = (case t of (d, ti, v) \<Rightarrow>
      dayName d @ ''_'' @ ti @ ''_'' @ (case v of None \<Rightarrow> ''undefined'' | Some s \<Rightarrow> s))"

text \<open>
  The balancing pass written from its description, in whole numbers: \<open>lessonTotal\<close> is
  six times the mean, a day is overloaded (\<open>overfull\<close>) when its count exceeds the mean by more than
  1, and its quota is the floor of count minus mean.
\<close>

definition lessonTotal :: "timetable \<Rightarrow> nat" where
  "lessonTotal tt = sum_list (map (\<lambda>d. lessonCount (tt d)) allDays)"

definition overfull :: "timetable \<Rightarrow> day \<Rightarrow> bool" where
  "overfull tt d = (lessonTotal tt + 6 < 6 * lessonCount (tt d))"

definition quota :: "timetable \<Rightarrow> day \<Rightarrow> nat" where
  "quota tt d = (6 * lessonCount (tt d) - lessonTotal tt) div 6"

text \<open>
  The first day other than \<open>d\<close>, from Monday to Saturday, whose array is shorter than
  that of \<open>d\<close>; the first day other than \<open>d\<close> when there is none.
\<close>

definition firstShorter :: "timetable \<Rightarrow> day \<Rightarrow> day" where
  "firstShorter g d =
     (case filter (\<lambda>x. x \<noteq> d \<and> length (g x) < length (g d)) allDays of
        t # ts \<Rightarrow> t
      | [] \<Rightarrow> if d = Monday then Tuesday else Monday)"

definition relocate :: "day \<Rightarrow> timetable \<Rightarrow> session \<Rightarrow> timetable" where
  "relocate d g c =
     g(firstShorter g d := g (firstShorter g d) @ [c],
       d := filter (\<lambda>x. oid x \<noteq> oid c) (g d))"

definition firstLectures :: "nat \<Rightarrow> session list \<Rightarrow> session list" where
  "firstLectures n xs = take n (filter (\<lambda>s. stype s = Theory) xs)"

text \<open>
  The overloaded days are those of the grid as given; they are treated from Monday to
  Saturday, each giving up the first lectures its array has when its turn comes.
\<close>

definition balanceByRule :: "timetable \<Rightarrow> timetable" where
  "balanceByRule tt =
     foldl (\<lambda>g d. foldl (relocate d) g (firstLectures (quota tt d) (g d))) tt
       (filter (overfull tt) allDays)"

text \<open>
  What a session records of the course it was made for, and what the lecture and the lab
  session of a given course record.
\<close>

definition describe :: "session \<Rightarrow> string \<times> string option \<times> string option \<times> kind" where
  "describe s = (course s, code s, teacher s, stype s)"

definition lectureOf :: "course \<Rightarrow> string \<times> string option \<times> string option \<times> kind" where
  "lectureOf c = (cname c, Some (ccode c), Some (teacherId c), Theory)"

definition labOf :: "course \<Rightarrow> string \<times> string option \<times> string option \<times> kind" where
  "labOf c = (cname c @ '' Lab'', Some (ccode c @ ''L''), Some (teacherId c), Lab)"

text \<open>
  The courses of a list that a list of verdicts, one for each course, marks as placed,
  and the others.
\<close>

definition placedOf :: "course list \<Rightarrow> bool list \<Rightarrow> course list" where
  "placedOf cs bs = map fst (filter snd (zip cs bs))"

definition unplacedOf :: "course list \<Rightarrow> bool list \<Rightarrow> course list" where
  "unplacedOf cs bs = map fst (filter (\<lambda>p. \<not> snd p) (zip cs bs))"

text \<open>The lecture and lab sessions of a grid, day after day.\<close>

definition lessonsOf :: "timetable \<Rightarrow> session list" where
  "lessonsOf tt = filter (\<lambda>s. stype s = Theory \<or> stype s = Lab) (entriesOf tt)"

section \<open>Concrete inputs\<close>

text \<open>
  A concrete host for the examples: the draws of \<open>Math.random\<close> come from a list
  (\<open>0\<close> once it is used up), \<open>Number\<close> is decimal notation and \<open>localeCompare\<close>
  orders by code units. On the strings of the examples (times written \<open>HH:MM\<close> with
  equally many digits) JavaScript's built-ins give the same results.
\<close>

definition digitValue :: "char \<Rightarrow> int option" where
  "digitValue c = map_option int (findIndex (\<lambda>d. d = c) ''0123456789'')"

fun decimalFrom :: "int \<Rightarrow> string \<Rightarrow> int option" where
  "decimalFrom acc [] = Some acc"
| "decimalFrom acc (c # cs) =
     (case digitValue c of None \<Rightarrow> None | Some v \<Rightarrow> decimalFrom (acc * 10 + v) cs)"

definition decimalNumber :: "string \<Rightarrow> int option" where
  "decimalNumber s = decimalFrom 0 s"

definition codeUnitCompare :: "string \<Rightarrow> string \<Rightarrow> int" where
  "codeUnitCompare a b = (if a = b then 0 else if strLe a b then - 1 else 1)"

definition drawsEnv :: "nat list \<Rightarrow> env" where
  "drawsEnv ds =
     \<lparr>random = (\<lambda>k. case nthOpt ds k of None \<Rightarrow> 0 | Some v \<Rightarrow> v),
      localeCompare = codeUnitCompare, toNumber = decimalNumber,
      now = ''2024-01-01T00:00:00.000Z''\<rparr>"

definition mkCourse :: "string \<Rightarrow> string \<Rightarrow> string \<Rightarrow> string \<Rightarrow> int \<Rightarrow> course" where
  "mkCourse nm cd ty t n =
     \<lparr>cname = nm, ccode = cd, ctype = ty, ccredits = Some 3, labCredits = None,
      teacherId = t, expectedStudents = Some n\<rparr>"

definition mkRoom :: "string \<Rightarrow> string \<Rightarrow> int \<Rightarrow> room" where
  "mkRoom nm ty cap = \<lparr>rname = nm, rtype = ty, capacity = cap\<rparr>"

definition mkSlot :: "string \<Rightarrow> string \<Rightarrow> string \<Rightarrow> timeslot" where
  "mkSlot s f ty = \<lparr>start = s, finish = f, sltype = ty\<rparr>"

definition mkSection :: "course list \<Rightarrow> room list \<Rightarrow> timeslot list \<Rightarrow> sectionData" where
  "mkSection cs rs ts =
     \<lparr>department = ''CSE'', semester = ''3'', section' = ''A'',
      courses = cs, rooms = rs, timeslots = ts\<rparr>"

text \<open>A Monday with one class at nine in room R1, and a catalogue with two classrooms.\<close>

definition busyMonday :: timetable where
  "busyMonday =
     initializeTimetable
       (Monday := [theorySession 0 ''09:00-10:00'' (mkCourse ''Algebra'' ''MA1'' ''theory'' ''T1'' 50) ''R1''])"

definition twoClassrooms :: "room list" where
  "twoClassrooms = [mkRoom ''R1'' ''classroom'' 60, mkRoom ''R2'' ''classroom'' 60]"

definition nineToTen :: timeslot where
  "nineToTen = mkSlot ''09:00'' ''10:00'' ''theory''"

definition physics :: course where
  "physics = mkCourse ''Physics'' ''PH1'' ''theory'' ''T2'' 50"

definition oneClassroom :: "room list" where
  "oneClassroom = [mkRoom ''R1'' ''classroom'' 60]"

definition threeRooms :: "room list" where
  "threeRooms = [mkRoom ''R0'' ''classroom'' 30, mkRoom ''R1'' ''classroom'' 60, mkRoom ''L1'' ''lab'' 20]"

definition chemistryLab :: course where
  "chemistryLab = mkCourse ''Chemistry'' ''CH1'' ''lab'' ''T3'' 500"

definition sampleSlots :: "timeslot list" where
  "sampleSlots =
     [mkSlot ''09:00'' ''10:00'' ''theory'', mkSlot ''10:15'' ''11:15'' ''theory'',
      mkSlot ''14:00'' ''16:00'' ''lab'']"

definition algebra :: course where
  "algebra = mkCourse ''Algebra'' ''MA1'' ''theory'' ''T1'' 50"

text \<open>
  The running example: two lectures and a lab, three rooms, two lecture slots a quarter of
  an hour apart and one lab slot. The draws put both lectures on Monday and the lab on
  Tuesday.
\<close>

definition sampleSection :: sectionData where
  "sampleSection = mkSection [physics, algebra, chemistryLab] threeRooms sampleSlots"

definition sampleEnv :: env where
  "sampleEnv = drawsEnv [0, 0, 0, 0, 0, 1, 0, 0, 1, 0, 0, 0]"

text \<open>
  Two lectures of the same teacher and a single slot; every draw is \<open>0\<close>, so each pass
  tries Monday at nine.
\<close>

definition mechanics :: course where
  "mechanics = mkCourse ''Mechanics'' ''PH2'' ''theory'' ''T2'' 50"

definition onePhysics :: sectionData where
  "onePhysics = mkSection [physics] [] [nineToTen]"

definition twoPhysics :: sectionData where
  "twoPhysics = mkSection [physics, mechanics] [] [nineToTen]"

text \<open>The state of that run once Physics is placed, and a lab course of the same teacher.\<close>

definition afterPhysics :: gstate where
  "afterPhysics =
     \<lparr>grid = initializeTimetable(Monday := [theorySession 0 ''09:00-10:00'' physics ''Room 201'']),
      drawn = 2, nextId = 1, warnings = []\<rparr>"

definition opticsLab :: course where
  "opticsLab = mkCourse ''Optics'' ''PH3'' ''lab'' ''T2'' 20"

text \<open>
  The running example after construction, after the markers are added, and after the
  repair passes.
\<close>

definition sampleBuilt :: gstate where
  "sampleBuilt =
     \<lparr>grid = initializeTimetable
        (Monday := [theorySession 0 ''09:00-10:00'' physics ''R1'',
                    theorySession 1 ''10:15-11:15'' algebra ''R1''],
         Tuesday := [labSession 2 ''14:00-16:00'' chemistryLab ''L1'']),
      drawn = 12, nextId = 3, warnings = []\<rparr>"

definition sampleMarked :: gstate where
  "sampleMarked =
     \<lparr>grid = initializeTimetable
        (Monday := [theorySession 0 ''09:00-10:00'' physics ''R1'',
                    breakMarker 3 ''10:00'' ''10:15'',
                    theorySession 1 ''10:15-11:15'' algebra ''R1''],
         Tuesday := [labSession 2 ''14:00-16:00'' chemistryLab ''L1'', lunchMarker 4]),
      drawn = 12, nextId = 5, warnings = []\<rparr>"

definition sampleFinal :: timetable where
  "sampleFinal =
     initializeTimetable
       (Monday := [breakMarker 3 ''10:00'' ''10:15'',
                   theorySession 1 ''10:15-11:15'' algebra ''R1''],
        Tuesday := [labSession 2 ''14:00-16:00'' chemistryLab ''L1'', lunchMarker 4,
                    theorySession 0 ''09:00-10:00'' physics ''R1''])"

text \<open>
  A grid with a double booking, for the scorer: two lectures of one teacher in one room
  at nine on Monday, with a break and a lunch marker beside them, and a lecture and a
  lab on Tuesday.
\<close>

definition clashGrid :: timetable where
  "clashGrid =
     initializeTimetable
       (Monday := [theorySession 0 ''09:00-10:00'' physics ''R1'',
                   theorySession 1 ''09:00-10:00'' mechanics ''R1'',
                   breakMarker 4 ''10:00'' ''12:00'',
                   lunchMarker 5],
        Tuesday := [theorySession 2 ''09:00-10:00'' algebra ''R1'',
                    labSession 3 ''14:00-16:00'' chemistryLab ''L1''])"

text \<open>
  Two Monday entries whose times and teachers differ but whose key strings are both
  \<open>Monday_9-10_x_y\<close>: the underscore of one lies in the time, that of the other in
  the teacher.
\<close>

definition underscoreGrid :: timetable where
  "underscoreGrid =
     initializeTimetable
       (Monday := [theorySession 0 ''9-10'' (mkCourse ''Logic'' ''LO1'' ''theory'' ''x_y'' 50) ''R1'',
                   theorySession 1 ''9-10_x'' (mkCourse ''Ethics'' ''ET1'' ''theory'' ''y'' 50) ''R2''])"

text \<open>Two classrooms too small for fifty students, the first one without a name.\<close>

definition namelessRooms :: "room list" where
  "namelessRooms = [mkRoom [] ''classroom'' 30, mkRoom ''R9'' ''classroom'' 40]"

text \<open>The running example with a minimum break of thirty minutes asked for.\<close>

definition longBreaks :: overrides where
  "longBreaks = noOverrides\<lparr>oMIN_BREAK_BETWEEN_CLASSES := Some 30\<rparr>"

text \<open>
  Seven lab courses, each with its own teacher, seven lab rooms and one lab slot. The
  draws put every lab on Monday, the \<open>k\<close>-th in the \<open>k\<close>-th room.
\<close>

definition sevenNames :: "string list" where
  "sevenNames = [''A'', ''B'', ''C'', ''D'', ''E'', ''F'', ''G'']"

definition sevenLabs :: sectionData where
  "sevenLabs =
     mkSection (map (\<lambda>n. mkCourse n n ''lab'' (''T'' @ n) 20) sevenNames)
       (map (\<lambda>n. mkRoom (''L'' @ n) ''lab'' 30) sevenNames)
       [mkSlot ''14:00'' ''16:00'' ''lab'']"

definition sevenEnv :: env where
  "sevenEnv = drawsEnv (concat (map (\<lambda>k. [0, 0, k, k]) [0, 1, 2, 3, 4, 5, 6]))"

text \<open>A grid with three lectures on Monday and one on Tuesday, for the balancing pass.\<close>

definition balanceGrid :: timetable where
  "balanceGrid =
     initializeTimetable
       (Monday := [theorySession 0 ''09:00-10:00'' physics ''R1'',
                   theorySession 1 ''10:00-11:00'' mechanics ''R1'',
                   theorySession 2 ''11:00-12:00'' algebra ''R1''],
        Tuesday := [theorySession 3 ''09:00-10:00'' algebra ''R1''])"

definition balancedGrid :: timetable where
  "balancedGrid =
     initializeTimetable
       (Monday := [theorySession 2 ''11:00-12:00'' algebra ''R1''],
        Tuesday := [theorySession 3 ''09:00-10:00'' algebra ''R1'',
                    theorySession 0 ''09:00-10:00'' physics ''R1''],
        Wednesday := [theorySession 1 ''10:00-11:00'' mechanics ''R1''])"

text \<open>
  Two overloaded days: five lectures on Monday and five on Tuesday, numbered by their
  object identity, and the grid the balancing pass makes of them.
\<close>

definition lectureNo :: "nat \<Rightarrow> session" where
  "lectureNo i = theorySession i ''09:00-10:00'' physics ''R1''"

definition heavyGrid :: timetable where
  "heavyGrid =
     initializeTimetable
       (Monday := map lectureNo [0, 1, 2, 3, 4],
        Tuesday := map lectureNo [5, 6, 7, 8, 9])"

definition heavyBalanced :: timetable where
  "heavyBalanced =
     initializeTimetable
       (Monday := map lectureNo [3, 4, 5, 6],
        Tuesday := map lectureNo [8, 9],
        Wednesday := map lectureNo [0, 1, 2],
        Thursday := [lectureNo 7])"

text \<open>
  A Monday of one lab, three lectures, a break and a lunch marker, beside two days of
  two lectures: Monday counts 4 of its 6 entries, the mean is 8/6 and the quota 2.
\<close>

definition paddedGrid :: timetable where
  "paddedGrid =
     initializeTimetable
       (Monday := [labSession 0 ''14:00-16:00'' chemistryLab ''L1'', lectureNo 1, lectureNo 2,
                   lectureNo 3, breakMarker 4 ''10:00'' ''12:00'', lunchMarker 5],
        Tuesday := map lectureNo [6, 7],
        Wednesday := map lectureNo [8, 9])"

definition paddedBalanced :: timetable where
  "paddedBalanced =
     initializeTimetable
       (Monday := [labSession 0 ''14:00-16:00'' chemistryLab ''L1'', lectureNo 3,
                   breakMarker 4 ''10:00'' ''12:00'', lunchMarker 5],
        Tuesday := map lectureNo [6, 7, 1, 2],
        Wednesday := map lectureNo [8, 9])"

section \<open>Room selection is total\<close>

lemma suitable_pick:
  assumes "suitableRooms rms c \<noteq> []"
  shows "suitableRooms rms c ! randomIndex e pos (length (suitableRooms rms c))
           \<in> set (suitableRooms rms c)"
  using assms by (simp add: randomIndex_def)

lemma lab_pick:
  assumes "labRooms rms \<noteq> []"
  shows "labRooms rms ! randomIndex e pos (length (labRooms rms)) \<in> set (labRooms rms)"
  using assms by (simp add: randomIndex_def)

text \<open>
  C7, as stated, fails in its second step. Neither classroom holds fifty students, so
  the selector falls back to the first classroom; that one has the empty name, which
  \<open>||\<close> treats as absent, and the course gets \<open>Room 201\<close> although two
  classroom-type rooms exist and neither is called so.
\<close>

theorem nameless_classroom_gets_default:
  "suitableRooms namelessRooms physics = []
   \<and> map rname (filter (\<lambda>r. rtype r = ''classroom'') namelessRooms) = [[], ''R9'']
   \<and> fst (findSuitableRoom (drawsEnv []) namelessRooms physics 0) = ''Room 201''"
  by (simp add: suitableRooms_def namelessRooms_def mkRoom_def physics_def mkCourse_def
      neededCapacity_def findSuitableRoom_def)

text \<open>
  C7, amended. \<open>findSuitableRoom\<close> and \<open>findLabRoom\<close> are total functions into room
  names, and the name is chosen by a three-step policy: the name of a classroom of
  sufficient capacity when there is one; otherwise the name of the first classroom of the
  list, or \<open>Room 201\<close> when that name is the empty string; otherwise, with no classroom
  at all, \<open>Room 201\<close>. A lab room's name when there is a lab room, \<open>Lab 101\<close>
  otherwise. With an empty room list both defaults are returned whatever the course's
  expected enrollment is.
\<close>

theorem room_selection_total:
  "(suitableRooms rms c \<noteq> [] \<longrightarrow>
      (\<exists>r. r \<in> set rms \<and> rtype r = ''classroom'' \<and> capacity r \<ge> neededCapacity c \<and>
           fst (findSuitableRoom e rms c pos) = rname r))
   \<and> (suitableRooms rms c = [] \<longrightarrow>
        (case find (\<lambda>r. rtype r = ''classroom'') rms of
           Some r \<Rightarrow> fst (findSuitableRoom e rms c pos)
                      = (if rname r = [] then ''Room 201'' else rname r)
         | None \<Rightarrow> fst (findSuitableRoom e rms c pos) = ''Room 201''))
   \<and> (labRooms rms \<noteq> [] \<longrightarrow>
        (\<exists>r. r \<in> set rms \<and> rtype r = ''lab'' \<and> fst (findLabRoom e rms c pos) = rname r))
   \<and> (labRooms rms = [] \<longrightarrow> fst (findLabRoom e rms c pos) = ''Lab 101'')
   \<and> fst (findSuitableRoom e [] c pos) = ''Room 201''
   \<and> fst (findLabRoom e [] c pos) = ''Lab 101''"
proof (intro conjI impI)
  assume ne: "suitableRooms rms c \<noteq> []"
  let ?r = "suitableRooms rms c ! randomIndex e pos (length (suitableRooms rms c))"
  have "?r \<in> set (suitableRooms rms c)"
    using ne by (rule suitable_pick)
  then have "?r \<in> set rms \<and> rtype ?r = ''classroom'' \<and> capacity ?r \<ge> neededCapacity c"
    unfolding suitableRooms_def by simp
  moreover have "fst (findSuitableRoom e rms c pos) = rname ?r"
    using ne by (simp add: findSuitableRoom_def Let_def)
  ultimately show "\<exists>r. r \<in> set rms \<and> rtype r = ''classroom'' \<and> capacity r \<ge> neededCapacity c \<and>
      fst (findSuitableRoom e rms c pos) = rname r"
    by blast
next
  assume "suitableRooms rms c = []"
  then show "case find (\<lambda>r. rtype r = ''classroom'') rms of
       Some r \<Rightarrow> fst (findSuitableRoom e rms c pos) = (if rname r = [] then ''Room 201'' else rname r)
     | None \<Rightarrow> fst (findSuitableRoom e rms c pos) = ''Room 201''"
    by (simp add: findSuitableRoom_def split: option.split)
next
  assume ne: "labRooms rms \<noteq> []"
  let ?r = "labRooms rms ! randomIndex e pos (length (labRooms rms))"
  have "?r \<in> set (labRooms rms)"
    using ne by (rule lab_pick)
  then have "?r \<in> set rms \<and> rtype ?r = ''lab''"
    unfolding labRooms_def by simp
  moreover have "fst (findLabRoom e rms c pos) = rname ?r"
    using ne by (simp add: findLabRoom_def)
  ultimately show "\<exists>r. r \<in> set rms \<and> rtype r = ''lab'' \<and> fst (findLabRoom e rms c pos) = rname r"
    by blast
next
  assume "labRooms rms = []"
  then show "fst (findLabRoom e rms c pos) = ''Lab 101''"
    by (simp add: findLabRoom_def)
next
  show "fst (findSuitableRoom e [] c pos) = ''Room 201''"
    by (simp add: findSuitableRoom_def suitableRooms_def)
next
  show "fst (findLabRoom e [] c pos) = ''Lab 101''"
    by (simp add: findLabRoom_def labRooms_def)
qed

text \<open>
  The policy at work: a course of 50 among three rooms gets the classroom of 60 and the
  lab room; a course of 500 fits no classroom and falls back to the first one; with no
  rooms at all it gets the two defaults.
\<close>

theorem room_selection_total_witness:
  "suitableRooms threeRooms physics \<noteq> []
   \<and> fst (findSuitableRoom (drawsEnv [7]) threeRooms physics 0) = ''R1''
   \<and> labRooms threeRooms \<noteq> []
   \<and> fst (findLabRoom (drawsEnv [7]) threeRooms physics 0) = ''L1''
   \<and> suitableRooms threeRooms chemistryLab = []
   \<and> fst (findSuitableRoom (drawsEnv [7]) threeRooms chemistryLab 0) = ''R0''
   \<and> labRooms oneClassroom = []
   \<and> fst (findLabRoom (drawsEnv [7]) oneClassroom chemistryLab 0) = ''Lab 101''
   \<and> fst (findSuitableRoom (drawsEnv [7]) [] chemistryLab 0) = ''Room 201''"
  using room_selection_total [of threeRooms physics "drawsEnv [7]" 0]
        room_selection_total [of threeRooms chemistryLab "drawsEnv [7]" 0]
        room_selection_total [of oneClassroom chemistryLab "drawsEnv [7]" 0]
  by (simp add: suitableRooms_def labRooms_def threeRooms_def oneClassroom_def mkRoom_def
      physics_def chemistryLab_def mkCourse_def neededCapacity_def findSuitableRoom_def
      findLabRoom_def randomIndex_def drawsEnv_def nthOpt_def)

section \<open>The conflict checks and the random source\<close>

lemma canScheduleCourse_by_room:
  assumes "fst (findSuitableRoom e1 rms c p1) = fst (findSuitableRoom e2 rms c p2)"
  shows "verdictOf (canScheduleCourse e1 tt d slot c rms cons p1)
       = verdictOf (canScheduleCourse e2 tt d slot c rms cons p2)"
  using assms
  by (cases "findSuitableRoom e1 rms c p1"; cases "findSuitableRoom e2 rms c p2")
     (simp add: canScheduleCourse_def verdictOf_def Let_def split: sum.splits)

lemma canScheduleLab_by_room:
  assumes "fst (findLabRoom e1 rms c p1) = fst (findLabRoom e2 rms c p2)"
  shows "fst (canScheduleLab e1 tt d slot c rms cons p1)
       = fst (canScheduleLab e2 tt d slot c rms cons p2)"
  using assms
  by (cases "findLabRoom e1 rms c p1"; cases "findLabRoom e2 rms c p2")
     (simp add: canScheduleLab_def Let_def)

lemma short_list_nth: "length xs \<le> 1 \<Longrightarrow> xs \<noteq> [] \<Longrightarrow> xs ! (k mod length xs) = xs ! 0"
  by (cases xs) auto

lemma findSuitableRoom_single:
  assumes "length (suitableRooms rms c) \<le> 1"
  shows "fst (findSuitableRoom e1 rms c p1) = fst (findSuitableRoom e2 rms c p2)"
  using assms short_list_nth [of "suitableRooms rms c"]
  by (auto simp: findSuitableRoom_def Let_def randomIndex_def split: option.splits)

lemma findLabRoom_single:
  assumes "length (labRooms rms) \<le> 1"
  shows "fst (findLabRoom e1 rms c p1) = fst (findLabRoom e2 rms c p2)"
  using assms short_list_nth [of "labRooms rms"]
  by (auto simp: findLabRoom_def randomIndex_def)

text \<open>
  C4, as stated, fails: \<open>canScheduleCourse\<close> takes no room; it calls \<open>findSuitableRoom\<close>,
  which draws from \<open>Math.random\<close> when two rooms qualify. Monday has a class at nine in
  R1. Asked twice about the same grid, day, slot, course and room list, the check answers
  \<open>false\<close> when the draw picks R1 and \<open>true\<close> when it picks R2.
\<close>

theorem conflict_check_not_deterministic:
  "canScheduleCourse (drawsEnv [0, 1]) busyMonday Monday (Some nineToTen) physics twoClassrooms
       defaultConstraints 0 = Inr (False, 1)
   \<and> canScheduleCourse (drawsEnv [0, 1]) busyMonday Monday (Some nineToTen) physics twoClassrooms
       defaultConstraints 1 = Inr (True, 2)"
  by (simp add: canScheduleCourse_def busyMonday_def initializeTimetable_def theorySession_def
      mkCourse_def sameAndAtSlot_def slotTime_def nineToTen_def mkSlot_def physics_def
      findSuitableRoom_def suitableRooms_def neededCapacity_def twoClassrooms_def mkRoom_def
      randomIndex_def drawsEnv_def nthOpt_def defaultConstraints_def)

text \<open>
  C4, amended. The checks only read the grid (they return a boolean and the position of
  the random source, nothing else), and their answer is fixed by the grid, day, slot,
  course, constraints and the room that the selector draws: two calls, in whatever state
  the random source is, agree as soon as they draw the same room. They always do when at
  most one classroom qualifies (for \<open>canScheduleCourse\<close>) and when there is at most one
  lab room (for \<open>canScheduleLab\<close>).
\<close>

theorem conflict_checks_fixed_by_drawn_room:
  "(fst (findSuitableRoom e1 rms c p1) = fst (findSuitableRoom e2 rms c p2) \<longrightarrow>
      verdictOf (canScheduleCourse e1 tt d slot c rms cons p1)
        = verdictOf (canScheduleCourse e2 tt d slot c rms cons p2))
   \<and> (fst (findLabRoom e1 rms c p1) = fst (findLabRoom e2 rms c p2) \<longrightarrow>
        fst (canScheduleLab e1 tt d slot c rms cons p1)
          = fst (canScheduleLab e2 tt d slot c rms cons p2))
   \<and> (length (suitableRooms rms c) \<le> 1 \<longrightarrow>
        verdictOf (canScheduleCourse e1 tt d slot c rms cons p1)
          = verdictOf (canScheduleCourse e2 tt d slot c rms cons p2))
   \<and> (length (labRooms rms) \<le> 1 \<longrightarrow>
        fst (canScheduleLab e1 tt d slot c rms cons p1)
          = fst (canScheduleLab e2 tt d slot c rms cons p2))"
proof (intro conjI impI)
  assume "fst (findSuitableRoom e1 rms c p1) = fst (findSuitableRoom e2 rms c p2)"
  then show "verdictOf (canScheduleCourse e1 tt d slot c rms cons p1)
           = verdictOf (canScheduleCourse e2 tt d slot c rms cons p2)"
    by (rule canScheduleCourse_by_room)
next
  assume "fst (findLabRoom e1 rms c p1) = fst (findLabRoom e2 rms c p2)"
  then show "fst (canScheduleLab e1 tt d slot c rms cons p1)
           = fst (canScheduleLab e2 tt d slot c rms cons p2)"
    by (rule canScheduleLab_by_room)
next
  assume "length (suitableRooms rms c) \<le> 1"
  then have "fst (findSuitableRoom e1 rms c p1) = fst (findSuitableRoom e2 rms c p2)"
    by (rule findSuitableRoom_single)
  then show "verdictOf (canScheduleCourse e1 tt d slot c rms cons p1)
           = verdictOf (canScheduleCourse e2 tt d slot c rms cons p2)"
    by (rule canScheduleCourse_by_room)
next
  assume "length (labRooms rms) \<le> 1"
  then have "fst (findLabRoom e1 rms c p1) = fst (findLabRoom e2 rms c p2)"
    by (rule findLabRoom_single)
  then show "fst (canScheduleLab e1 tt d slot c rms cons p1)
           = fst (canScheduleLab e2 tt d slot c rms cons p2)"
    by (rule canScheduleLab_by_room)
qed

theorem conflict_checks_fixed_by_drawn_room_witness:
  "length (suitableRooms oneClassroom physics) \<le> 1
   \<and> length (labRooms oneClassroom) \<le> 1
   \<and> fst (findSuitableRoom (drawsEnv [0, 1]) oneClassroom physics 0)
       = fst (findSuitableRoom (drawsEnv [0, 1]) oneClassroom physics 1)
   \<and> fst (findLabRoom (drawsEnv [0, 1]) oneClassroom physics 0)
       = fst (findLabRoom (drawsEnv [0, 1]) oneClassroom physics 1)
   \<and> verdictOf (canScheduleCourse (drawsEnv [0, 1]) busyMonday Monday (Some nineToTen) physics
        oneClassroom defaultConstraints 0)
       = verdictOf (canScheduleCourse (drawsEnv [0, 1]) busyMonday Monday (Some nineToTen) physics
          oneClassroom defaultConstraints 1)
   \<and> fst (canScheduleLab (drawsEnv [0, 1]) busyMonday Monday (Some nineToTen) physics
        oneClassroom defaultConstraints 0)
       = fst (canScheduleLab (drawsEnv [0, 1]) busyMonday Monday (Some nineToTen) physics
          oneClassroom defaultConstraints 1)"
  using conflict_checks_fixed_by_drawn_room
          [of "drawsEnv [0, 1]" oneClassroom physics 0 "drawsEnv [0, 1]" 1
              busyMonday Monday "Some nineToTen" defaultConstraints]
  by (simp add: suitableRooms_def labRooms_def oneClassroom_def mkRoom_def physics_def
      mkCourse_def neededCapacity_def findSuitableRoom_def findLabRoom_def randomIndex_def)

section \<open>Unfolding the run on concrete inputs\<close>

lemmas run_defs =
  generateTimetable_def constructivePhase_def scheduleTheoryCourses_def scheduleLabCourses_def
  theoryAttempts.simps labAttempts.simps theoryAttempt_def labAttempt_def
  initialState_def initializeTimetable_def getRandomDay_def weekDays_def randomIndex_def nthOpt_def
  canScheduleCourse_def canScheduleLab_def findSuitableRoom_def findLabRoom_def suitableRooms_def
  labRooms_def neededCapacity_def slotTime_def sameAndAtSlot_def pushSession_def theorySession_def
  labSession_def theoryWarning_def labWarning_def mergeConstraints_def defaultConstraints_def
  noOverrides_def allDays_def entriesOf_def

lemmas break_defs =
  addBreaksAndLunch_def addBreaksAndLunchDay_def sortBy_def byStart_def startOf_def endOf_def
  needsBreak_def getTimeDifference_def breakMarker_def addLunch_def hasClassDuringLunch_def
  optGe_def lunchTime_def lunchMarker_def

lemmas repair_defs =
  optimizeTimetable_def resolveTeacherConflicts_def resolveRoomConflicts_def truthy_def slotKey_def
  balanceDailyWorkload_def dayWorkload_def isClass_def avgClasses_def redistributeClasses_def
  slice0_def moveOne_def targetDay_def otherDaysOf_def moveClassToResolveConflict_def
  findAlternativeRoom_def

lemmas input_defs =
  drawsEnv_def decimalNumber_def digitValue_def codeUnitCompare_def mkCourse_def mkRoom_def
  mkSlot_def mkSection_def sampleSection_def sampleEnv_def sampleSlots_def threeRooms_def
  physics_def algebra_def chemistryLab_def mechanics_def onePhysics_def twoPhysics_def
  nineToTen_def afterPhysics_def opticsLab_def sampleBuilt_def sampleMarked_def sampleFinal_def
  longBreaks_def sevenNames_def sevenLabs_def sevenEnv_def
  balanceGrid_def balancedGrid_def clashGrid_def underscoreGrid_def namelessRooms_def
  lectureNo_def heavyGrid_def heavyBalanced_def paddedGrid_def paddedBalanced_def

lemmas rule_defs =
  balanceByRule_def lessonTotal_def lessonCount_def overfull_def quota_def firstShorter_def
  relocate_def firstLectures_def

text \<open>The three stages of the running example, each computed once.\<close>

lemma sample_built: "constructivePhase sampleEnv sampleSection noOverrides = Inr sampleBuilt"
  by (simp add: run_defs input_defs fun_eq_iff)

lemma sample_marked: "addBreaksAndLunch sampleEnv sampleBuilt = Inr sampleMarked"
  by (simp add: run_defs input_defs break_defs fun_eq_iff)

lemma sample_final: "optimizeTimetable (grid sampleMarked) cons = sampleFinal"
  by (simp add: run_defs input_defs break_defs repair_defs fun_eq_iff)

lemma generateTimetable_phases:
  "generateTimetable e sd ov =
     (case constructivePhase e sd ov of
        Inl er \<Rightarrow> Inl er
      | Inr st2 \<Rightarrow>
          (case addBreaksAndLunch e st2 of
             Inl er \<Rightarrow> Inl er
           | Inr st3 \<Rightarrow>
               Inr \<lparr>returned =
                      \<lparr>days = optimizeTimetable (grid st3) (mergeConstraints defaultConstraints ov),
                       sectionId = department sd @ ''-'' @ semester sd @ ''-'' @ section' sd,
                       generatedAt = now e,
                       usedConstraints = mergeConstraints defaultConstraints ov\<rparr>,
                    console = warnings st3\<rparr>))"
  unfolding generateTimetable_def constructivePhase_def Let_def
  by (cases "scheduleTheoryCourses e (filter (\<lambda>c. ctype c = ''theory'') (courses sd)) (rooms sd)
               (timeslots sd) (mergeConstraints defaultConstraints ov) initialState") simp_all

lemma sample_run:
  "generateTimetable sampleEnv sampleSection noOverrides =
     Inr \<lparr>returned = \<lparr>days = sampleFinal, sectionId = ''CSE-3-A'',
                      generatedAt = ''2024-01-01T00:00:00.000Z'',
                      usedConstraints = defaultConstraints\<rparr>,
          console = []\<rparr>"
  by (simp add: generateTimetable_phases sample_built sample_marked sample_final)
     (simp add: sampleSection_def mkSection_def sampleEnv_def drawsEnv_def sampleMarked_def
        mergeConstraints_def noOverrides_def defaultConstraints_def)

section \<open>What one placement loop does to the state\<close>

lemma getRandomDay_weekday: "getRandomDay e pos \<in> set weekDays"
proof -
  have "randomIndex e pos (length weekDays) < length weekDays"
    by (simp add: randomIndex_def weekDays_def)
  then show ?thesis
    unfolding getRandomDay_def by (rule nth_mem)
qed

lemma slotTime_Some:
  "slotTime (nthOpt ts k) = Inr t \<Longrightarrow> \<exists>sl. sl \<in> set ts \<and> t = start sl @ ''-'' @ finish sl"
  by (auto simp: slotTime_def nthOpt_def split: if_splits intro!: exI [of _ "ts ! k"])

lemma theoryAttempt_result:
  assumes "theoryAttempt e ts rms cons c st = Inr (b, st')"
  shows "warnings st' = warnings st
       \<and> (\<not> b \<longrightarrow> grid st' = grid st \<and> nextId st' = nextId st)
       \<and> (b \<longrightarrow> placedTheory cons c st st')"
  using assms getRandomDay_weekday [of e "drawn st"]
  unfolding placedTheory_def
  by (fastforce simp: theoryAttempt_def canScheduleCourse_def Let_def
        split: sum.splits prod.splits if_splits)

lemma labAttempt_result:
  assumes "labAttempt e ts rms cons c st = Inr (b, st')"
  shows "warnings st' = warnings st
       \<and> (\<not> b \<longrightarrow> grid st' = grid st \<and> nextId st' = nextId st)
       \<and> (b \<longrightarrow> placedLab ts c st st')"
  using assms getRandomDay_weekday [of e "drawn st"]
  unfolding placedLab_def
  by (fastforce simp: labAttempt_def canScheduleLab_def Let_def entriesOf_def list_ex_iff
        dest!: slotTime_Some split: sum.splits prod.splits if_splits)

lemma placedTheory_cong:
  "grid st1 = grid st \<Longrightarrow> nextId st1 = nextId st \<Longrightarrow> placedTheory cons c st1 st' \<Longrightarrow> placedTheory cons c st st'"
  by (simp add: placedTheory_def)

lemma placedLab_cong:
  "grid st1 = grid st \<Longrightarrow> nextId st1 = nextId st \<Longrightarrow> placedLab ts c st1 st' \<Longrightarrow> placedLab ts c st st'"
  by (simp add: placedLab_def)

lemma theoryAttempts_result:
  "theoryAttempts e ts rms cons c k st = Inr (b, st') \<Longrightarrow>
     warnings st' = warnings st
     \<and> (\<not> b \<longrightarrow> grid st' = grid st \<and> nextId st' = nextId st)
     \<and> (b \<longrightarrow> placedTheory cons c st st')"
proof (induction e ts rms cons c k st rule: theoryAttempts.induct)
  case (1 e ts rms cons c k st)
  show ?case
  proof (cases "k < 100")
    case False
    with "1.prems" show ?thesis
      by (simp add: theoryAttempts.simps [of e ts rms cons c k st])
  next
    case True
    note unfold = theoryAttempts.simps [of e ts rms cons c k st]
    from True "1.prems" obtain ok st1 where a: "theoryAttempt e ts rms cons c st = Inr (ok, st1)"
      by (auto simp: unfold split: sum.splits)
    note r = theoryAttempt_result [OF a]
    show ?thesis
    proof (cases ok)
      case True
      with a \<open>k < 100\<close> "1.prems" r show ?thesis
        by (simp add: unfold)
    next
      case False
      with a \<open>k < 100\<close> "1.prems" have "theoryAttempts e ts rms cons c (Suc k) st1 = Inr (b, st')"
        by (simp add: unfold)
      from "1.IH" [OF \<open>k < 100\<close> a refl False this] r False show ?thesis
        by (auto intro: placedTheory_cong)
    qed
  qed
qed

lemma labAttempts_result:
  "labAttempts e ts rms cons c k st = Inr (b, st') \<Longrightarrow>
     warnings st' = warnings st
     \<and> (\<not> b \<longrightarrow> grid st' = grid st \<and> nextId st' = nextId st)
     \<and> (b \<longrightarrow> placedLab ts c st st')"
proof (induction e ts rms cons c k st rule: labAttempts.induct)
  case (1 e ts rms cons c k st)
  show ?case
  proof (cases "k < 50")
    case False
    with "1.prems" show ?thesis
      by (simp add: labAttempts.simps [of e ts rms cons c k st])
  next
    case True
    note unfold = labAttempts.simps [of e ts rms cons c k st]
    from True "1.prems" obtain ok st1 where a: "labAttempt e ts rms cons c st = Inr (ok, st1)"
      by (auto simp: unfold split: sum.splits)
    note r = labAttempt_result [OF a]
    show ?thesis
    proof (cases ok)
      case True
      with a \<open>k < 50\<close> "1.prems" r show ?thesis
        by (simp add: unfold)
    next
      case False
      with a \<open>k < 50\<close> "1.prems" have "labAttempts e ts rms cons c (Suc k) st1 = Inr (b, st')"
        by (simp add: unfold)
      from "1.IH" [OF \<open>k < 50\<close> a refl False this] r False show ?thesis
        by (auto intro: placedLab_cong)
    qed
  qed
qed

text \<open>
  An invariant of the grid and the object counter that every placement keeps holds after
  the whole loop over the courses.
\<close>

lemma theoryLoop_preserves:
  assumes "theoryLoop e ts rms cons cs st = Inr st'"
    and "P (grid st) (nextId st)"
    and step: "\<And>c s s'. c \<in> set cs \<Longrightarrow> P (grid s) (nextId s) \<Longrightarrow> placedTheory cons c s s'
                 \<Longrightarrow> P (grid s') (nextId s')"
  shows "P (grid st') (nextId st')"
  using assms
proof (induction cs arbitrary: st)
  case Nil
  then show ?case by simp
next
  case (Cons c cs)
  from Cons.prems(1) obtain b st1 where a: "theoryAttempts e ts rms cons c 0 st = Inr (b, st1)"
    by (auto split: sum.splits)
  let ?st2 = "if b then st1 else st1\<lparr>warnings := warnings st1 @ [theoryWarning c]\<rparr>"
  from Cons.prems(1) a have run: "theoryLoop e ts rms cons cs ?st2 = Inr st'"
    by simp
  have "P (grid st1) (nextId st1)"
  proof (cases b)
    case True
    with theoryAttempts_result [OF a] have "placedTheory cons c st st1"
      by simp
    with Cons.prems(2) show ?thesis
      by (intro Cons.prems(3) [of c st st1]) simp_all
  next
    case False
    with theoryAttempts_result [OF a] have "grid st1 = grid st" "nextId st1 = nextId st"
      by simp_all
    with Cons.prems(2) show ?thesis
      by simp
  qed
  then have inv2: "P (grid ?st2) (nextId ?st2)"
    by simp
  show ?case
  proof (rule Cons.IH [OF run inv2])
    fix c' s s'
    assume "c' \<in> set cs" "P (grid s) (nextId s)" "placedTheory cons c' s s'"
    then show "P (grid s') (nextId s')"
      by (intro Cons.prems(3) [of c' s s']) simp_all
  qed
qed

lemma labLoop_preserves:
  assumes "labLoop e ts rms cons cs st = Inr st'"
    and "P (grid st) (nextId st)"
    and step: "\<And>c s s'. c \<in> set cs \<Longrightarrow> P (grid s) (nextId s) \<Longrightarrow> placedLab ts c s s'
                 \<Longrightarrow> P (grid s') (nextId s')"
  shows "P (grid st') (nextId st')"
  using assms
proof (induction cs arbitrary: st)
  case Nil
  then show ?case by simp
next
  case (Cons c cs)
  from Cons.prems(1) obtain b st1 where a: "labAttempts e ts rms cons c 0 st = Inr (b, st1)"
    by (auto split: sum.splits)
  let ?st2 = "if b then st1 else st1\<lparr>warnings := warnings st1 @ [labWarning c]\<rparr>"
  from Cons.prems(1) a have run: "labLoop e ts rms cons cs ?st2 = Inr st'"
    by simp
  have "P (grid st1) (nextId st1)"
  proof (cases b)
    case True
    with labAttempts_result [OF a] have "placedLab ts c st st1"
      by simp
    with Cons.prems(2) show ?thesis
      by (intro Cons.prems(3) [of c st st1]) simp_all
  next
    case False
    with labAttempts_result [OF a] have "grid st1 = grid st" "nextId st1 = nextId st"
      by simp_all
    with Cons.prems(2) show ?thesis
      by simp
  qed
  then have inv2: "P (grid ?st2) (nextId ?st2)"
    by simp
  show ?case
  proof (rule Cons.IH [OF run inv2])
    fix c' s s'
    assume "c' \<in> set cs" "P (grid s) (nextId s)" "placedLab ts c' s s'"
    then show "P (grid s') (nextId s')"
      by (intro Cons.prems(3) [of c' s s']) simp_all
  qed
qed

text \<open>The same for the two calls of \<open>generateTimetable\<close>, from the empty grid.\<close>

lemma constructivePhase_preserves:
  assumes run: "constructivePhase e sd ov = Inr st"
    and init: "P initializeTimetable 0"
    and thy_step: "\<And>c s s'. P (grid s) (nextId s)
                   \<Longrightarrow> placedTheory (mergeConstraints defaultConstraints ov) c s s'
                   \<Longrightarrow> P (grid s') (nextId s')"
    and lab_step: "\<And>c s s'. P (grid s) (nextId s)
                   \<Longrightarrow> placedLab (filter (\<lambda>slot. sltype slot = ''lab'') (timeslots sd)) c s s'
                   \<Longrightarrow> P (grid s') (nextId s')"
  shows "P (grid st) (nextId st)"
proof -
  let ?cons = "mergeConstraints defaultConstraints ov"
  let ?ts = "filter (\<lambda>slot. sltype slot = ''theory'') (timeslots sd)"
  let ?ls = "filter (\<lambda>slot. sltype slot = ''lab'') (timeslots sd)"
  let ?tc = "filter (\<lambda>c. ctype c = ''theory'') (courses sd)"
  let ?lc = "filter (\<lambda>c. ctype c = ''lab'') (courses sd)"
  have unfolded: "constructivePhase e sd ov =
      (case theoryLoop e ?ts (rooms sd) ?cons ?tc initialState of
         Inl er \<Rightarrow> Inl er
       | Inr st1 \<Rightarrow> labLoop e ?ls (rooms sd) ?cons ?lc st1)"
    by (simp add: constructivePhase_def scheduleTheoryCourses_def scheduleLabCourses_def Let_def
          cong: sum.case_cong)
  from run obtain st1 where
    t: "theoryLoop e ?ts (rooms sd) ?cons ?tc initialState = Inr st1"
    and l: "labLoop e ?ls (rooms sd) ?cons ?lc st1 = Inr st"
    unfolding unfolded by (cases "theoryLoop e ?ts (rooms sd) ?cons ?tc initialState") simp_all
  have i: "P (grid initialState) (nextId initialState)"
    using init by (simp add: initialState_def)
  have "P (grid st1) (nextId st1)"
    using t i thy_step by (rule theoryLoop_preserves)
  with l show ?thesis
    using lab_step by (rule labLoop_preserves)
qed

section \<open>Saturday stays empty during construction\<close>

lemma weekDays_not_Saturday: "d \<in> set weekDays \<Longrightarrow> d \<noteq> Saturday"
  by (auto simp: weekDays_def)

lemma addBreaksAndLunchDay_frame:
  assumes "addBreaksAndLunchDay e d st = Inr st'"
  shows "(\<forall>d'. d' \<noteq> d \<longrightarrow> grid st' d' = grid st d') \<and> warnings st' = warnings st
       \<and> (grid st d = [] \<longrightarrow> grid st' d = [] \<and> nextId st' = nextId st)"
  using assms
  by (auto simp: addBreaksAndLunchDay_def sortBy_def addLunch_def hasClassDuringLunch_def
        split: sum.splits prod.splits if_splits option.splits)

lemma forEachDay_empty_day:
  assumes "forEachDay (addBreaksAndLunchDay e) ds st = Inr st'" and "grid st x = []"
  shows "grid st' x = []"
  using assms
proof (induction ds arbitrary: st)
  case Nil
  then show ?case by simp
next
  case (Cons d ds)
  from Cons.prems(1) obtain st1 where a: "addBreaksAndLunchDay e d st = Inr st1"
    and r: "forEachDay (addBreaksAndLunchDay e) ds st1 = Inr st'"
    by (auto split: sum.splits)
  have "grid st1 x = []"
    using addBreaksAndLunchDay_frame [OF a] Cons.prems(2) by (cases "x = d") auto
  from Cons.IH [OF r this] show ?case .
qed

text \<open>
  C10. After the theory and the lab placement of \<open>generateTimetable\<close>, before breaks are
  injected and before the repair passes run, Saturday's array is empty whatever the input
  and the random draws are: both loops draw the day from Monday to Friday. Injecting
  breaks and lunch leaves an empty day empty, so only \<open>optimizeTimetable\<close> can put an
  entry there.
\<close>

theorem saturday_empty_after_construction:
  assumes "constructivePhase e sd ov = Inr st"
  shows "grid st Saturday = []
       \<and> (\<forall>st'. addBreaksAndLunch e st = Inr st' \<longrightarrow> grid st' Saturday = [])"
proof -
  have sat: "grid st Saturday = []"
    by (rule constructivePhase_preserves [OF assms, where P = "\<lambda>g n. g Saturday = []"])
       (auto simp: initializeTimetable_def placedTheory_def placedLab_def pushSession_def
          dest: weekDays_not_Saturday)
  then show ?thesis
    using forEachDay_empty_day [of e allDays st _ Saturday]
    by (auto simp: addBreaksAndLunch_def)
qed

text \<open>
  In the running example both lectures land on Monday and the lab on Tuesday; Saturday is
  empty after construction and after the markers are added.
\<close>

theorem saturday_empty_after_construction_witness:
  "constructivePhase sampleEnv sampleSection noOverrides = Inr sampleBuilt
   \<and> length (grid sampleBuilt Monday) = 2 \<and> length (grid sampleBuilt Tuesday) = 1
   \<and> grid sampleBuilt Saturday = []
   \<and> addBreaksAndLunch sampleEnv sampleBuilt = Inr sampleMarked
   \<and> grid sampleMarked Saturday = []"
  using saturday_empty_after_construction [OF sample_built] sample_built sample_marked
  by (simp add: sampleBuilt_def)

section \<open>The empty catalogue\<close>

lemma const_upd: "(\<lambda>d. c)(x := c) = (\<lambda>d. c)"
  by auto

lemma initializeTimetable_day: "initializeTimetable d = []"
  by (simp add: initializeTimetable_def)

lemma addBreaksAndLunchDay_empty:
  "grid st = initializeTimetable \<Longrightarrow> addBreaksAndLunchDay e d st = Inr st"
  by (simp add: addBreaksAndLunchDay_def sortBy_def
      addLunch_def hasClassDuringLunch_def initializeTimetable_def const_upd)

lemma addBreaksAndLunch_empty:
  "grid st = initializeTimetable \<Longrightarrow> addBreaksAndLunch e st = Inr st"
  by (simp add: addBreaksAndLunch_def allDays_def addBreaksAndLunchDay_empty)

lemma resolveTeacher_empty: "resolveTeacherConflicts initializeTimetable = initializeTimetable"
  by (simp add: resolveTeacherConflicts_def allDays_def initializeTimetable_def)

lemma resolveRoom_empty: "resolveRoomConflicts initializeTimetable = initializeTimetable"
  by (simp add: resolveRoomConflicts_def allDays_def initializeTimetable_def const_upd)

lemma workload_empty: "dayWorkload initializeTimetable d = 0"
  by (simp add: dayWorkload_def initializeTimetable_def)

lemma avg_empty: "avgClasses initializeTimetable = 0"
  by (simp add: avgClasses_def allDays_def workload_empty)

lemma balance_empty: "balanceDailyWorkload initializeTimetable cons = initializeTimetable"
  by (simp add: balanceDailyWorkload_def allDays_def workload_empty avg_empty)

lemma optimize_empty: "optimizeTimetable initializeTimetable cons = initializeTimetable"
  by (simp add: optimizeTimetable_def resolveTeacher_empty resolveRoom_empty balance_empty)

lemma detect_empty: "detectConflicts initializeTimetable = []"
  by (simp add: detectConflicts_def allDays_def initializeTimetable_def)

lemma score_empty: "calculateTimetableScore initializeTimetable = 100"
  by (simp add: calculateTimetableScore_def detect_empty calculateBalanceScore_def
      allDays_def workload_empty)

text \<open>
  C9, amended. With no courses \<open>generateTimetable\<close> returns the grid of
  \<open>initializeTimetable\<close>: six empty days, with no course session and also no lunch or
  break marker, since a marker is only ever inserted next to an existing entry. Nothing
  is logged (the returned object has no list of unplaced courses and no score), and
  \<open>calculateTimetableScore\<close> of that grid is 100.
\<close>

theorem empty_catalogue:
  "generateTimetable e (sd\<lparr>courses := []\<rparr>) ov =
     Inr \<lparr>returned = \<lparr>days = initializeTimetable,
                      sectionId = department sd @ ''-'' @ semester sd @ ''-'' @ section' sd,
                      generatedAt = now e,
                      usedConstraints = mergeConstraints defaultConstraints ov\<rparr>,
          console = []\<rparr>
   \<and> entriesOf initializeTimetable = []
   \<and> calculateTimetableScore initializeTimetable = 100"
  by (simp add: generateTimetable_def scheduleTheoryCourses_def scheduleLabCourses_def
      addBreaksAndLunch_empty optimize_empty score_empty initialState_def entriesOf_def allDays_def
      initializeTimetable_day)


text \<open>
  C9, as stated, fails: the grid returned for an empty catalogue is not populated with
  lunch or break markers. With three rooms and three time slots but no course, the six
  days of the returned grid hold no entry at all.
\<close>

theorem empty_catalogue_has_no_markers:
  "(case generateTimetable (drawsEnv []) (mkSection [] threeRooms sampleSlots) noOverrides of
      Inl er \<Rightarrow> None
    | Inr out \<Rightarrow> Some (entriesOf (days (returned out)))) = Some []"
  by (simp add: generateTimetable_def scheduleTheoryCourses_def scheduleLabCourses_def
      addBreaksAndLunch_empty optimize_empty initialState_def entriesOf_def allDays_def
      initializeTimetable_day mkSection_def)

section \<open>Warnings and the markers\<close>

lemma addBreaksAndLunch_warnings:
  "forEachDay (addBreaksAndLunchDay e) ds st = Inr st' \<Longrightarrow> warnings st' = warnings st"
proof (induction ds arbitrary: st)
  case Nil
  then show ?case by simp
next
  case (Cons d ds)
  from Cons.prems obtain st1 where a: "addBreaksAndLunchDay e d st = Inr st1"
    and r: "forEachDay (addBreaksAndLunchDay e) ds st1 = Inr st'"
    by (auto split: sum.splits)
  from Cons.IH [OF r] addBreaksAndLunchDay_frame [OF a] show ?case
    by simp
qed

section \<open>The entries of the grid as a multiset\<close>

lemma perm_distinct_map: "mset xs = mset ys \<Longrightarrow> distinct (map f xs) = distinct (map f ys)"
  by (rule mset_eq_imp_distinct_iff) simp

lemma bag_upd: "mset (entriesOf (g(d := xs))) + mset (g d) = mset (entriesOf g) + mset xs"
  by (cases d) (simp_all add: entriesOf_def allDays_def)

lemma day_in_bag: "mset (g d) \<subseteq># mset (entriesOf g)"
  by (cases d) (simp_all add: entriesOf_def allDays_def)

lemma bag_push: "mset (entriesOf (pushSession g d s)) = mset (s # entriesOf g)"
  using bag_upd [of g d "g d @ [s]"] by (simp add: pushSession_def)

lemma idsBelow_perm:
  assumes "mset (entriesOf g') = mset xs"
  shows "idsBelow g' n \<longleftrightarrow> distinct (map oid xs) \<and> (\<forall>s \<in> set xs. oid s < n)"
  using perm_distinct_map [OF assms, of oid] mset_eq_setD [OF assms]
  by (simp add: idsBelow_def list_all_iff)

lemma idsBelow_push:
  assumes "idsBelow g n" and "oid s = n"
  shows "idsBelow (pushSession g d s) (Suc n)"
  using assms unfolding idsBelow_perm [OF bag_push]
  by (auto simp: idsBelow_def list_all_iff less_Suc_eq)

lemma insertBy_mset: "mset (insertBy cmp x xs) = add_mset x (mset xs)"
  by (induction xs) auto

lemma sortBy_mset: "mset (sortBy cmp xs) = mset xs"
  by (induction xs) (auto simp: sortBy_def insertBy_mset)

lemma addBreaks_mset:
  "addBreaks e i xs = Inr (r, i') \<Longrightarrow>
     \<exists>ms. mset r = mset xs + mset ms \<and> map oid ms = [i..<i'] \<and> i \<le> i'
          \<and> (\<forall>m \<in> set ms. stype m = Break)"
proof (induction e i xs arbitrary: r i' rule: addBreaks.induct)
  case (1 e i)
  then show ?case by auto
next
  case (2 e i x)
  then show ?case by auto
next
  case (3 e i x y rest)
  from "3.prems" obtain currentEnd where ce: "endOf (time x) = Some currentEnd"
    by (auto split: option.splits)
  let ?ns = "startOf (time y)"
  show ?case
  proof (cases "needsBreak e currentEnd ?ns")
    case True
    with "3.prems" ce obtain r1 where
      rec: "addBreaks e (Suc i) (y # rest) = Inr (r1, i')"
      and r: "r = x # breakMarker i currentEnd ?ns # r1"
      by (auto simp: Let_def split: sum.splits)
    from "3.IH"(1) [OF ce refl True rec] obtain ms where
      ms: "mset r1 = mset (y # rest) + mset ms" "map oid ms = [Suc i..<i']" "Suc i \<le> i'"
        "\<forall>m \<in> set ms. stype m = Break"
      by blast
    let ?ms = "breakMarker i currentEnd ?ns # ms"
    have "mset r = mset (x # y # rest) + mset ?ms"
      using r ms(1) by simp
    moreover have "map oid ?ms = [i..<i']"
      using ms(2,3) by (simp add: breakMarker_def upt_conv_Cons)
    moreover have "\<forall>m \<in> set ?ms. stype m = Break"
      using ms(4) by (simp add: breakMarker_def)
    ultimately show ?thesis
      using ms(3) by (intro exI [of _ ?ms]) simp
  next
    case False
    with "3.prems" ce obtain r1 where
      rec: "addBreaks e i (y # rest) = Inr (r1, i')"
      and r: "r = x # r1"
      by (auto simp: Let_def split: sum.splits)
    from "3.IH"(2) [OF ce refl False rec] obtain ms where
      ms: "mset r1 = mset (y # rest) + mset ms" "map oid ms = [i..<i']" "i \<le> i'"
        "\<forall>m \<in> set ms. stype m = Break"
      by blast
    then show ?thesis
      using r by (intro exI [of _ ms]) simp
  qed
qed

lemma addLunch_mset:
  "addLunch i xs = (r, i') \<Longrightarrow>
     \<exists>ms. mset r = mset xs + mset ms \<and> map oid ms = [i..<i'] \<and> i \<le> i'
          \<and> (\<forall>m \<in> set ms. stype m = Lunch)"
proof (cases "\<not> hasClassDuringLunch xs \<and> findIndex (\<lambda>cls. optGe (endOf (time cls)) ''12:00'') xs \<noteq> None")
  case True
  assume a: "addLunch i xs = (r, i')"
  from True obtain k where k: "findIndex (\<lambda>cls. optGe (endOf (time cls)) ''12:00'') xs = Some k"
    by auto
  with a True have r: "r = take (Suc k) xs @ [lunchMarker i] @ drop (Suc k) xs" and i': "i' = Suc i"
    by (auto simp: addLunch_def)
  have "mset (take (Suc k) xs) + mset (drop (Suc k) xs) = mset xs"
    by (metis append_take_drop_id mset_append)
  then have "mset r = mset xs + mset [lunchMarker i]"
    unfolding r by simp
  then show ?thesis
    using i' by (intro exI [of _ "[lunchMarker i]"]) (simp add: lunchMarker_def)
next
  case False
  assume a: "addLunch i xs = (r, i')"
  with False have "r = xs" "i' = i"
    by (auto simp: addLunch_def split: option.splits if_splits)
  then show ?thesis
    by (intro exI [of _ "[]"]) simp
qed

lemma upt_append: "i \<le> j \<Longrightarrow> j \<le> k \<Longrightarrow> [i..<j] @ [j..<k] = [i..<k]"
  using upt_add_eq_append [of i j "k - j"] by simp

lemma addBreaksAndLunchDay_bag:
  assumes "addBreaksAndLunchDay e d st = Inr st'"
  shows "\<exists>ms. mset (entriesOf (grid st')) = mset (entriesOf (grid st)) + mset ms
            \<and> map oid ms = [nextId st..<nextId st'] \<and> nextId st \<le> nextId st'
            \<and> (\<forall>m \<in> set ms. stype m = Break \<or> stype m = Lunch)"
proof -
  from assms obtain wb i us where
    b: "addBreaks e (nextId st) (sortBy (byStart e) (grid st d)) = Inr (wb, i)"
    and l: "addLunch i wb = (us, nextId st')"
    and g: "grid st' = (grid st)(d := us)"
    by (auto simp: addBreaksAndLunchDay_def split: sum.splits prod.splits)
  from addBreaks_mset [OF b] obtain m1 where
    m1: "mset wb = mset (grid st d) + mset m1" "map oid m1 = [nextId st..<i]" "nextId st \<le> i"
      "\<forall>m \<in> set m1. stype m = Break"
    by (auto simp: sortBy_mset)
  from addLunch_mset [OF l] obtain m2 where
    m2: "mset us = mset wb + mset m2" "map oid m2 = [i..<nextId st']" "i \<le> nextId st'"
      "\<forall>m \<in> set m2. stype m = Lunch"
    by blast
  have "mset (entriesOf (grid st')) + mset (grid st d)
          = mset (entriesOf (grid st)) + mset (m1 @ m2) + mset (grid st d)"
    unfolding g using bag_upd [of "grid st" d us] m1(1) m2(1) by simp
  then have "mset (entriesOf (grid st')) = mset (entriesOf (grid st)) + mset (m1 @ m2)"
    by simp
  moreover have "map oid (m1 @ m2) = [nextId st..<nextId st']"
    using m1(2,3) m2(2,3) by (simp add: upt_append)
  moreover have "\<forall>m \<in> set (m1 @ m2). stype m = Break \<or> stype m = Lunch"
    using m1(4) m2(4) by auto
  ultimately show ?thesis
    using m1(3) m2(3) by (intro exI [of _ "m1 @ m2"]) simp
qed

lemma forEachDay_bag:
  "forEachDay (addBreaksAndLunchDay e) ds st = Inr st' \<Longrightarrow>
     \<exists>ms. mset (entriesOf (grid st')) = mset (entriesOf (grid st)) + mset ms
          \<and> map oid ms = [nextId st..<nextId st'] \<and> nextId st \<le> nextId st'
          \<and> (\<forall>m \<in> set ms. stype m = Break \<or> stype m = Lunch)"
proof (induction ds arbitrary: st)
  case Nil
  then show ?case
    by (intro exI [of _ "[]"]) simp
next
  case (Cons d ds)
  from Cons.prems obtain st1 where a: "addBreaksAndLunchDay e d st = Inr st1"
    and r: "forEachDay (addBreaksAndLunchDay e) ds st1 = Inr st'"
    by (auto split: sum.splits)
  from addBreaksAndLunchDay_bag [OF a] obtain m1 where
    m1: "mset (entriesOf (grid st1)) = mset (entriesOf (grid st)) + mset m1"
      "map oid m1 = [nextId st..<nextId st1]" "nextId st \<le> nextId st1"
      "\<forall>m \<in> set m1. stype m = Break \<or> stype m = Lunch"
    by blast
  from Cons.IH [OF r] obtain m2 where
    m2: "mset (entriesOf (grid st')) = mset (entriesOf (grid st1)) + mset m2"
      "map oid m2 = [nextId st1..<nextId st']" "nextId st1 \<le> nextId st'"
      "\<forall>m \<in> set m2. stype m = Break \<or> stype m = Lunch"
    by blast
  have "mset (entriesOf (grid st')) = mset (entriesOf (grid st)) + mset (m1 @ m2)"
    using m1(1) m2(1) by simp
  moreover have "map oid (m1 @ m2) = [nextId st..<nextId st']"
    using m1(2,3) m2(2,3) by (simp add: upt_append)
  moreover have "\<forall>m \<in> set (m1 @ m2). stype m = Break \<or> stype m = Lunch"
    using m1(4) m2(4) by auto
  ultimately show ?case
    using m1(3) m2(3) by (intro exI [of _ "m1 @ m2"]) simp
qed

lemma addBreaksAndLunch_ids:
  assumes "addBreaksAndLunch e st = Inr st'" and "idsBelow (grid st) (nextId st)"
  shows "idsBelow (grid st') (nextId st')"
proof -
  from forEachDay_bag [OF assms(1) [unfolded addBreaksAndLunch_def]] obtain ms where
    ms: "mset (entriesOf (grid st')) = mset (entriesOf (grid st) @ ms)"
      "map oid ms = [nextId st..<nextId st']" "nextId st \<le> nextId st'"
    by auto
  have "distinct (map oid ms)"
    using ms(2) by simp
  moreover have "oid ` set ms = {nextId st..<nextId st'}"
    using ms(2) by (metis set_map set_upt)
  then have "\<forall>m \<in> set ms. nextId st \<le> oid m \<and> oid m < nextId st'"
    by auto
  ultimately have "distinct (map oid ms)" "\<forall>m \<in> set ms. nextId st \<le> oid m \<and> oid m < nextId st'"
    by simp_all
  with assms(2) ms(3) show ?thesis
    unfolding idsBelow_perm [OF ms(1)]
    by (fastforce simp: idsBelow_def list_all_iff)
qed

lemma addBreaksAndLunch_classes:
  assumes "addBreaksAndLunch e st = Inr st'"
  shows "mset (classesOf (grid st')) = mset (classesOf (grid st))"
proof -
  from forEachDay_bag [OF assms(1) [unfolded addBreaksAndLunch_def]] obtain ms where
    ms: "mset (entriesOf (grid st')) = mset (entriesOf (grid st)) + mset ms"
      "\<forall>m \<in> set ms. stype m = Break \<or> stype m = Lunch"
    by auto
  have "filter isClass ms = []"
    using ms(2) by (auto simp: isClass_def filter_empty_conv)
  then have "filter_mset isClass (mset ms) = {#}"
    by (metis mset_filter mset_zero_iff_right)
  with ms(1) show ?thesis
    by (simp add: classesOf_def)
qed

lemma day_distinct: "distinct (map f (entriesOf g)) \<Longrightarrow> distinct (map f (g d))"
  by (cases d) (simp_all add: entriesOf_def allDays_def)

lemma day_subset: "set (g d) \<subseteq> set (entriesOf g)"
  by (cases d) (auto simp: entriesOf_def allDays_def)

lemma filter_oid_remove1:
  assumes "distinct (map oid xs)" and "c \<in> set xs"
  shows "mset (filter (\<lambda>x. oid x \<noteq> oid c) xs) = mset xs - {#c#}"
proof -
  have inj: "inj_on oid (set xs)" and d: "distinct xs"
    using assms(1) by (simp_all add: distinct_map)
  have "filter (\<lambda>x. oid x \<noteq> oid c) xs = filter (\<lambda>x. x \<noteq> c) xs"
    using inj assms(2) by (intro filter_cong refl) (auto dest: inj_onD)
  also have "\<dots> = remove1 c xs"
    using d by (simp add: distinct_remove1_removeAll removeAll_filter_not_eq) metis
  finally show ?thesis
    by simp
qed

text \<open>Moving an entry of day d to another day keeps the entries of the grid.\<close>

lemma move_bag:
  assumes "t \<noteq> d" and "c \<in> set (g d)" and "distinct (map oid (entriesOf g))"
  shows "mset (entriesOf (g(t := g t @ [c], d := filter (\<lambda>x. oid x \<noteq> oid c) (g d))))
           = mset (entriesOf g)"
proof -
  let ?g1 = "g(t := g t @ [c])"
  let ?xs = "filter (\<lambda>x. oid x \<noteq> oid c) (g d)"
  have 1: "mset (entriesOf ?g1) = mset (entriesOf g) + {#c#}"
    using bag_upd [of g t "g t @ [c]"] by simp
  have "mset (entriesOf (?g1(d := ?xs))) + mset (?g1 d) = mset (entriesOf ?g1) + mset ?xs"
    by (rule bag_upd)
  moreover have "?g1 d = g d"
    using assms(1) by simp
  moreover have "mset ?xs = mset (g d) - {#c#}"
    using day_distinct [OF assms(3)] assms(2) by (rule filter_oid_remove1)
  ultimately have "mset (entriesOf (?g1(d := ?xs))) + mset (g d)
      = mset (entriesOf g) + {#c#} + (mset (g d) - {#c#})"
    using 1 by simp
  also have "\<dots> = mset (entriesOf g) + mset (g d)"
    using assms(2) by simp
  finally show ?thesis
    by simp
qed

lemma otherDaysOf_ne: "t \<in> set (otherDaysOf d) \<Longrightarrow> t \<noteq> d"
  by (simp add: otherDaysOf_def)

lemma find_Some_set: "find P xs = Some x \<Longrightarrow> x \<in> set xs \<and> P x"
  by (induction xs) (auto split: if_splits)

lemma moveClassToResolveConflict_bag:
  assumes "c \<in> set (g d)" and "distinct (map oid (entriesOf g))"
  shows "mset (entriesOf (moveClassToResolveConflict g d c)) = mset (entriesOf g)"
  using assms
  by (auto simp: moveClassToResolveConflict_def split: option.splits
        dest!: find_Some_set otherDaysOf_ne intro!: move_bag)

lemma moveClassToResolveConflict_day:
  "set (moveClassToResolveConflict g d c d) \<supseteq> {x \<in> set (g d). oid x \<noteq> oid c}"
  by (auto simp: moveClassToResolveConflict_def split: option.splits
        dest!: find_Some_set otherDaysOf_ne)

lemma teacherScan_bag:
  "distinct (map oid xs) \<Longrightarrow> set xs \<subseteq> set (g d) \<Longrightarrow> distinct (map oid (entriesOf g))
     \<Longrightarrow> mset (entriesOf (fst (teacherScan d xs (g, seen)))) = mset (entriesOf g)"
proof (induction xs arbitrary: g seen)
  case Nil
  then show ?case by simp
next
  case (Cons c xs)
  let ?g' = "moveClassToResolveConflict g d c"
  have c: "c \<in> set (g d)"
    using Cons.prems(2) by simp
  have bag': "mset (entriesOf ?g') = mset (entriesOf g)"
    using c Cons.prems(3) by (rule moveClassToResolveConflict_bag)
  have dist': "distinct (map oid (entriesOf ?g'))"
    using perm_distinct_map [OF bag', of oid] Cons.prems(3) by simp
  have sub': "set xs \<subseteq> set (?g' d)"
  proof
    fix x assume x: "x \<in> set xs"
    with Cons.prems(1) have "oid x \<noteq> oid c"
      by (metis distinct.simps(2) image_eqI list.simps(9) set_map)
    with x Cons.prems(2) show "x \<in> set (?g' d)"
      using moveClassToResolveConflict_day [of g d c] by auto
  qed
  have dx: "distinct (map oid xs)" and sub: "set xs \<subseteq> set (g d)"
    using Cons.prems(1,2) by simp_all
  show ?case
    using Cons.IH [OF dx sub Cons.prems(3)] Cons.IH [OF dx sub' dist'] bag'
    by (simp add: Let_def)
qed

lemma teacherFold_bag:
  "distinct (map oid (entriesOf g)) \<Longrightarrow>
     mset (entriesOf (fst (foldl (\<lambda>acc d. teacherScan d (fst acc d) acc) (g, seen) ds)))
       = mset (entriesOf g)"
proof (induction ds arbitrary: g seen)
  case Nil
  then show ?case by simp
next
  case (Cons d ds)
  obtain g' seen' where r: "teacherScan d (g d) (g, seen) = (g', seen')"
    by (cases "teacherScan d (g d) (g, seen)")
  have bag': "mset (entriesOf g') = mset (entriesOf g)"
    using teacherScan_bag [OF day_distinct [OF Cons.prems] subset_refl Cons.prems, of d seen] r
    by simp
  then have "distinct (map oid (entriesOf g'))"
    using perm_distinct_map [OF bag', of oid] Cons.prems by simp
  from Cons.IH [OF this, of seen'] bag' r show ?case
    by simp
qed

lemma resolveTeacherConflicts_bag:
  "distinct (map oid (entriesOf g)) \<Longrightarrow>
     mset (entriesOf (resolveTeacherConflicts g)) = mset (entriesOf g)"
  unfolding resolveTeacherConflicts_def by (rule teacherFold_bag)

text \<open>The room pass changes nothing but the \<open>room\<close> of some entries.\<close>

lemma roomScan_map:
  assumes "\<And>s r. f (s\<lparr>room := r\<rparr>) = f s"
  shows "roomScan d xs seen = (ys, seen') \<Longrightarrow> map f ys = map f xs"
  by (induction xs arbitrary: seen ys seen')
     (auto simp: Let_def assms split: prod.splits if_splits)

lemma roomFold_map:
  assumes "\<And>s r. f (s\<lparr>room := r\<rparr>) = f s"
  shows "map f (fst (foldl (\<lambda>acc d. case roomScan d (fst acc d) (snd acc) of
                           (classes, seen) \<Rightarrow> ((fst acc)(d := classes), seen)) (g, seen) ds) d')
           = map f (g d')"
proof (induction ds arbitrary: g seen)
  case Nil
  then show ?case by simp
next
  case (Cons d ds)
  let ?F = "\<lambda>acc d. case roomScan d (fst acc d) (snd acc) of
                           (classes, seen) \<Rightarrow> ((fst acc)(d := classes), seen)"
  obtain cl seen' where r: "roomScan d (g d) seen = (cl, seen')"
    by (cases "roomScan d (g d) seen")
  have "map f cl = map f (g d)"
    using r by (rule roomScan_map [OF assms])
  then have same: "map f ((g(d := cl)) d') = map f (g d')"
    by simp
  have s: "?F (g, seen) d = (g(d := cl), seen')"
    using r by simp
  have "foldl ?F (g, seen) (d # ds) = foldl ?F (g(d := cl), seen') ds"
    by (simp only: foldl_Cons s)
  with Cons.IH [of "g(d := cl)" seen'] same show ?case
    by (simp only:)
qed

lemma resolveRoomConflicts_map:
  assumes "\<And>s r. f (s\<lparr>room := r\<rparr>) = f s"
  shows "map f (resolveRoomConflicts g d) = map f (g d)"
  unfolding resolveRoomConflicts_def using assms by (rule roomFold_map)

lemma entriesOf_map: "(\<And>d. map f (g' d) = map f (g d)) \<Longrightarrow> map f (entriesOf g') = map f (entriesOf g)"
  by (simp add: entriesOf_def allDays_def)

text \<open>The balancing pass.\<close>

lemma targetDay_other: "targetDay g d = Some t \<Longrightarrow> t \<noteq> d"
  by (auto simp: targetDay_def nthOpt_def split: option.splits if_splits
        dest!: find_Some_set otherDaysOf_ne simp: otherDaysOf_def allDays_def)

lemma moveOne_bag:
  assumes "c \<in> set (g d)" and "distinct (map oid (entriesOf g))"
  shows "mset (entriesOf (moveOne d g c)) = mset (entriesOf g)"
  using assms
  by (auto simp: moveOne_def split: option.splits dest!: targetDay_other intro!: move_bag)

lemma moveOne_day: "set (moveOne d g c d) \<supseteq> {x \<in> set (g d). oid x \<noteq> oid c}"
  by (auto simp: moveOne_def split: option.splits dest!: targetDay_other)

lemma moveAll_bag:
  "distinct (map oid cs) \<Longrightarrow> set cs \<subseteq> set (g d) \<Longrightarrow> distinct (map oid (entriesOf g))
     \<Longrightarrow> mset (entriesOf (foldl (moveOne d) g cs)) = mset (entriesOf g)"
proof (induction cs arbitrary: g)
  case Nil
  then show ?case by simp
next
  case (Cons c cs)
  let ?g' = "moveOne d g c"
  have c: "c \<in> set (g d)"
    using Cons.prems(2) by simp
  have bag': "mset (entriesOf ?g') = mset (entriesOf g)"
    using c Cons.prems(3) by (rule moveOne_bag)
  have dist': "distinct (map oid (entriesOf ?g'))"
    using perm_distinct_map [OF bag', of oid] Cons.prems(3) by simp
  have sub': "set cs \<subseteq> set (?g' d)"
  proof
    fix x assume x: "x \<in> set cs"
    with Cons.prems(1) have "oid x \<noteq> oid c"
      by (metis distinct.simps(2) image_eqI list.simps(9) set_map)
    with x Cons.prems(2) show "x \<in> set (?g' d)"
      using moveOne_day [of g d c] by auto
  qed
  have dx: "distinct (map oid cs)"
    using Cons.prems(1) by simp
  show ?case
    using Cons.IH [OF dx sub' dist'] bag' by simp
qed

lemma slice0_sub: "set (slice0 n xs) \<subseteq> set xs"
  by (auto simp: slice0_def dest: in_set_takeD)

lemma slice0_distinct: "distinct (map f xs) \<Longrightarrow> distinct (map f (slice0 n xs))"
  by (simp add: slice0_def take_map [symmetric] distinct_take)

lemma redistributeClasses_bag:
  assumes "distinct (map oid (entriesOf g))"
  shows "mset (entriesOf (redistributeClasses g d n)) = mset (entriesOf g)"
  unfolding redistributeClasses_def
proof (rule moveAll_bag [OF _ _ assms])
  show "distinct (map oid (slice0 n (filter (\<lambda>cls. stype cls = Theory) (g d))))"
    using day_distinct [OF assms, of d] by (intro slice0_distinct) (simp add: distinct_map_filter)
  show "set (slice0 n (filter (\<lambda>cls. stype cls = Theory) (g d))) \<subseteq> set (g d)"
    using slice0_sub [of n "filter (\<lambda>cls. stype cls = Theory) (g d)"] by auto
qed

lemma balanceFold_bag:
  "distinct (map oid (entriesOf g)) \<Longrightarrow>
     mset (entriesOf (foldl (\<lambda>t d. if P d then redistributeClasses t d (n d) else t) g ds))
       = mset (entriesOf g)"
proof (induction ds arbitrary: g)
  case Nil
  then show ?case by simp
next
  case (Cons d ds)
  let ?g' = "if P d then redistributeClasses g d (n d) else g"
  have bag': "mset (entriesOf ?g') = mset (entriesOf g)"
    using redistributeClasses_bag [OF Cons.prems] by simp
  then have "distinct (map oid (entriesOf ?g'))"
    using perm_distinct_map [OF bag', of oid] Cons.prems by simp
  from Cons.IH [OF this] bag' show ?case
    by simp
qed

lemma balanceDailyWorkload_bag:
  "distinct (map oid (entriesOf g)) \<Longrightarrow>
     mset (entriesOf (balanceDailyWorkload g cons)) = mset (entriesOf g)"
  unfolding balanceDailyWorkload_def by (rule balanceFold_bag)

text \<open>All three passes: up to the rooms, the repaired grid has the entries it was given.\<close>

lemma optimizeTimetable_bag:
  assumes ids: "distinct (map oid (entriesOf g))" and f: "\<And>s r. f (s\<lparr>room := r\<rparr>) = f s"
  shows "mset (map f (entriesOf (optimizeTimetable g cons))) = mset (map f (entriesOf g))"
proof -
  let ?g1 = "resolveTeacherConflicts g"
  let ?g2 = "resolveRoomConflicts ?g1"
  have b1: "mset (entriesOf ?g1) = mset (entriesOf g)"
    using ids by (rule resolveTeacherConflicts_bag)
  have m2: "map h (entriesOf ?g2) = map h (entriesOf ?g1)" if "\<And>s r. h (s\<lparr>room := r\<rparr>) = h s" for h :: "session \<Rightarrow> 'b"
    using that by (intro entriesOf_map resolveRoomConflicts_map)
  have "distinct (map oid (entriesOf ?g1))"
    using perm_distinct_map [OF b1, of oid] ids by simp
  then have "distinct (map oid (entriesOf ?g2))"
    using m2 [of oid] by simp
  then have b3: "mset (entriesOf (balanceDailyWorkload ?g2 cons)) = mset (entriesOf ?g2)"
    by (rule balanceDailyWorkload_bag)
  have "mset (map f (entriesOf (optimizeTimetable g cons))) = image_mset f (mset (entriesOf ?g2))"
    unfolding optimizeTimetable_def using b3 by simp
  also have "\<dots> = mset (map f (entriesOf ?g1))"
    using m2 [of f, OF f] by (metis mset_map)
  also have "\<dots> = mset (map f (entriesOf g))"
    using b1 by (metis mset_map)
  finally show ?thesis .
qed

lemma count_perm: "mset xs = mset ys \<Longrightarrow> length (filter P xs) = length (filter P ys)"
  by (metis mset_filter size_mset)

lemma constructivePhase_ids:
  assumes "constructivePhase e sd ov = Inr st"
  shows "idsBelow (grid st) (nextId st)"
proof (rule constructivePhase_preserves [OF assms, where P = idsBelow])
  show "idsBelow initializeTimetable 0"
    by (simp add: idsBelow_def entriesOf_def allDays_def initializeTimetable_def)
next
  fix c s s'
  assume "idsBelow (grid s) (nextId s)" "placedTheory (mergeConstraints defaultConstraints ov) c s s'"
  then show "idsBelow (grid s') (nextId s')"
    by (auto simp: placedTheory_def theorySession_def intro!: idsBelow_push)
next
  fix c s s'
  assume "idsBelow (grid s) (nextId s)"
    "placedLab (filter (\<lambda>slot. sltype slot = ''lab'') (timeslots sd)) c s s'"
  then show "idsBelow (grid s') (nextId s')"
    by (auto simp: placedLab_def labSession_def intro!: idsBelow_push)
qed

text \<open>
  The entries of the returned grid are, up to order, distribution over the days and
  rooms, the sessions placed during construction together with break and lunch markers.
\<close>

lemma generateTimetable_entries:
  assumes "generateTimetable e sd ov = Inr out"
  obtains st ms where "constructivePhase e sd ov = Inr st"
    and "\<forall>m \<in> set ms. stype m = Break \<or> stype m = Lunch"
    and "mset (map withoutRoom (entriesOf (days (returned out))))
           = mset (map withoutRoom (entriesOf (grid st) @ ms))"
    and "console out = warnings st"
proof -
  from assms obtain st st3 where c: "constructivePhase e sd ov = Inr st"
    and b: "addBreaksAndLunch e st = Inr st3"
    and o: "days (returned out) = optimizeTimetable (grid st3) (mergeConstraints defaultConstraints ov)"
      "console out = warnings st3"
    by (auto simp: generateTimetable_phases split: sum.splits)
  from forEachDay_bag [OF b [unfolded addBreaksAndLunch_def]] obtain ms where
    ms: "mset (entriesOf (grid st3)) = mset (entriesOf (grid st) @ ms)"
      "\<forall>m \<in> set ms. stype m = Break \<or> stype m = Lunch"
    by auto
  have "idsBelow (grid st3) (nextId st3)"
    using b constructivePhase_ids [OF c] by (rule addBreaksAndLunch_ids)
  then have "distinct (map oid (entriesOf (grid st3)))"
    by (simp add: idsBelow_def)
  then have "mset (map withoutRoom (entriesOf (days (returned out))))
      = mset (map withoutRoom (entriesOf (grid st3)))"
    unfolding o(1) by (rule optimizeTimetable_bag) (simp add: withoutRoom_def)
  also have "\<dots> = mset (map withoutRoom (entriesOf (grid st) @ ms))"
    using ms(1) by (metis mset_map)
  finally have "mset (map withoutRoom (entriesOf (days (returned out))))
      = mset (map withoutRoom (entriesOf (grid st) @ ms))" .
  moreover have "console out = warnings st"
    using o(2) addBreaksAndLunch_warnings [OF b [unfolded addBreaksAndLunch_def]] by simp
  ultimately show thesis
    using c ms(2) that by blast
qed

section \<open>Courses that cannot be placed\<close>

lemma placedOf_Cons:
  "placedOf (c # cs) (b # bs) = (if b then c # placedOf cs bs else placedOf cs bs)"
  by (simp add: placedOf_def)

lemma unplacedOf_Cons:
  "unplacedOf (c # cs) (b # bs) = (if b then unplacedOf cs bs else c # unplacedOf cs bs)"
  by (simp add: unplacedOf_def)

lemma theoryLoop_outcomes:
  "theoryLoop e ts rms cons cs st = Inr st' \<Longrightarrow>
     \<exists>bs. length bs = length cs
        \<and> warnings st' = warnings st @ map theoryWarning (unplacedOf cs bs)
        \<and> mset (map describe (entriesOf (grid st')))
            = mset (map describe (entriesOf (grid st))) + mset (map lectureOf (placedOf cs bs))"
proof (induction cs arbitrary: st)
  case Nil
  then show ?case
    by (simp add: placedOf_def unplacedOf_def)
next
  case (Cons c cs)
  from Cons.prems obtain b st1 where a: "theoryAttempts e ts rms cons c 0 st = Inr (b, st1)"
    by (auto split: sum.splits)
  let ?st2 = "if b then st1 else st1\<lparr>warnings := warnings st1 @ [theoryWarning c]\<rparr>"
  from Cons.prems a have run: "theoryLoop e ts rms cons cs ?st2 = Inr st'"
    by simp
  from Cons.IH [OF run] obtain bs where bs: "length bs = length cs"
    "warnings st' = warnings ?st2 @ map theoryWarning (unplacedOf cs bs)"
    "mset (map describe (entriesOf (grid st')))
       = mset (map describe (entriesOf (grid ?st2))) + mset (map lectureOf (placedOf cs bs))"
    by blast
  have step: "warnings ?st2 = warnings st @ (if b then [] else [theoryWarning c])
      \<and> mset (map describe (entriesOf (grid ?st2)))
          = mset (map describe (entriesOf (grid st))) + (if b then {#lectureOf c#} else {#})"
  proof (cases b)
    case True
    with theoryAttempts_result [OF a] obtain d t rm where
      g: "grid st1 = pushSession (grid st) d (theorySession (nextId st) t c rm)"
      and w: "warnings st1 = warnings st"
      unfolding placedTheory_def by blast
    have "describe (theorySession (nextId st) t c rm) = lectureOf c"
      by (simp add: describe_def lectureOf_def theorySession_def)
    with True g w show ?thesis
      by (simp add: bag_push)
  next
    case False
    with theoryAttempts_result [OF a] show ?thesis
      by simp
  qed
  show ?case
  proof (intro exI [of _ "b # bs"] conjI)
    show "length (b # bs) = length (c # cs)"
      using bs(1) by simp
    show "warnings st' = warnings st @ map theoryWarning (unplacedOf (c # cs) (b # bs))"
      unfolding bs(2) using step by (simp add: unplacedOf_Cons)
    show "mset (map describe (entriesOf (grid st')))
        = mset (map describe (entriesOf (grid st)))
          + mset (map lectureOf (placedOf (c # cs) (b # bs)))"
      unfolding bs(3) using step by (simp add: placedOf_Cons)
  qed
qed

lemma labLoop_outcomes:
  "labLoop e ts rms cons cs st = Inr st' \<Longrightarrow>
     \<exists>bs. length bs = length cs
        \<and> warnings st' = warnings st @ map labWarning (unplacedOf cs bs)
        \<and> mset (map describe (entriesOf (grid st')))
            = mset (map describe (entriesOf (grid st))) + mset (map labOf (placedOf cs bs))"
proof (induction cs arbitrary: st)
  case Nil
  then show ?case
    by (simp add: placedOf_def unplacedOf_def)
next
  case (Cons c cs)
  from Cons.prems obtain b st1 where a: "labAttempts e ts rms cons c 0 st = Inr (b, st1)"
    by (auto split: sum.splits)
  let ?st2 = "if b then st1 else st1\<lparr>warnings := warnings st1 @ [labWarning c]\<rparr>"
  from Cons.prems a have run: "labLoop e ts rms cons cs ?st2 = Inr st'"
    by simp
  from Cons.IH [OF run] obtain bs where bs: "length bs = length cs"
    "warnings st' = warnings ?st2 @ map labWarning (unplacedOf cs bs)"
    "mset (map describe (entriesOf (grid st')))
       = mset (map describe (entriesOf (grid ?st2))) + mset (map labOf (placedOf cs bs))"
    by blast
  have step: "warnings ?st2 = warnings st @ (if b then [] else [labWarning c])
      \<and> mset (map describe (entriesOf (grid ?st2)))
          = mset (map describe (entriesOf (grid st))) + (if b then {#labOf c#} else {#})"
  proof (cases b)
    case True
    with labAttempts_result [OF a] obtain d t rm where
      g: "grid st1 = pushSession (grid st) d (labSession (nextId st) t c rm)"
      and w: "warnings st1 = warnings st"
      unfolding placedLab_def by blast
    have "describe (labSession (nextId st) t c rm) = labOf c"
      by (simp add: describe_def labOf_def labSession_def)
    with True g w show ?thesis
      by (simp add: bag_push)
  next
    case False
    with labAttempts_result [OF a] show ?thesis
      by simp
  qed
  show ?case
  proof (intro exI [of _ "b # bs"] conjI)
    show "length (b # bs) = length (c # cs)"
      using bs(1) by simp
    show "warnings st' = warnings st @ map labWarning (unplacedOf (c # cs) (b # bs))"
      unfolding bs(2) using step by (simp add: unplacedOf_Cons)
    show "mset (map describe (entriesOf (grid st')))
        = mset (map describe (entriesOf (grid st)))
          + mset (map labOf (placedOf (c # cs) (b # bs)))"
      unfolding bs(3) using step by (simp add: placedOf_Cons)
  qed
qed

lemma constructivePhase_outcomes:
  assumes "constructivePhase e sd ov = Inr st"
  shows "\<exists>bs ls.
      length bs = length (filter (\<lambda>c. ctype c = ''theory'') (courses sd))
      \<and> length ls = length (filter (\<lambda>c. ctype c = ''lab'') (courses sd))
      \<and> warnings st
          = map theoryWarning (unplacedOf (filter (\<lambda>c. ctype c = ''theory'') (courses sd)) bs)
            @ map labWarning (unplacedOf (filter (\<lambda>c. ctype c = ''lab'') (courses sd)) ls)
      \<and> mset (map describe (entriesOf (grid st)))
          = mset (map lectureOf (placedOf (filter (\<lambda>c. ctype c = ''theory'') (courses sd)) bs))
            + mset (map labOf (placedOf (filter (\<lambda>c. ctype c = ''lab'') (courses sd)) ls))"
proof -
  let ?cons = "mergeConstraints defaultConstraints ov"
  let ?ts = "filter (\<lambda>slot. sltype slot = ''theory'') (timeslots sd)"
  let ?ls = "filter (\<lambda>slot. sltype slot = ''lab'') (timeslots sd)"
  let ?tc = "filter (\<lambda>c. ctype c = ''theory'') (courses sd)"
  let ?lc = "filter (\<lambda>c. ctype c = ''lab'') (courses sd)"
  have unfolded: "constructivePhase e sd ov =
      (case theoryLoop e ?ts (rooms sd) ?cons ?tc initialState of
         Inl er \<Rightarrow> Inl er
       | Inr st1 \<Rightarrow> labLoop e ?ls (rooms sd) ?cons ?lc st1)"
    by (simp add: constructivePhase_def scheduleTheoryCourses_def scheduleLabCourses_def Let_def
          cong: sum.case_cong)
  from assms obtain st1 where
    t: "theoryLoop e ?ts (rooms sd) ?cons ?tc initialState = Inr st1"
    and l: "labLoop e ?ls (rooms sd) ?cons ?lc st1 = Inr st"
    unfolding unfolded by (cases "theoryLoop e ?ts (rooms sd) ?cons ?tc initialState") simp_all
  have init: "entriesOf (grid initialState) = []" "warnings initialState = []"
    by (simp_all add: initialState_def initializeTimetable_def entriesOf_def allDays_def)
  from theoryLoop_outcomes [OF t] obtain bs where bs: "length bs = length ?tc"
    "warnings st1 = map theoryWarning (unplacedOf ?tc bs)"
    "mset (map describe (entriesOf (grid st1))) = mset (map lectureOf (placedOf ?tc bs))"
    unfolding init by auto
  from labLoop_outcomes [OF l] obtain ls where ls: "length ls = length ?lc"
    "warnings st = warnings st1 @ map labWarning (unplacedOf ?lc ls)"
    "mset (map describe (entriesOf (grid st)))
       = mset (map describe (entriesOf (grid st1))) + mset (map labOf (placedOf ?lc ls))"
    by blast
  from bs ls show ?thesis
    by (intro exI [of _ bs] exI [of _ ls]) simp
qed

lemma describe_lessons:
  "mset (map describe (filter (\<lambda>s. stype s = Theory \<or> stype s = Lab) xs))
     = image_mset describe
         (filter_mset (\<lambda>s. stype s = Theory \<or> stype s = Lab) (mset (map withoutRoom xs)))"
  by (induction xs) (simp_all add: describe_def withoutRoom_def)

lemma lessons_of_run:
  assumes "generateTimetable e sd ov = Inr out"
  obtains st where "constructivePhase e sd ov = Inr st" and "console out = warnings st"
    and "mset (map describe (lessonsOf (days (returned out))))
           = mset (map describe (lessonsOf (grid st)))"
proof -
  from assms obtain st ms where c: "constructivePhase e sd ov = Inr st"
    and ms: "\<forall>m \<in> set ms. stype m = Break \<or> stype m = Lunch"
    and bag: "mset (map withoutRoom (entriesOf (days (returned out))))
           = mset (map withoutRoom (entriesOf (grid st) @ ms))"
    and w: "console out = warnings st"
    by (rule generateTimetable_entries)
  from ms have none: "filter (\<lambda>s. stype s = Theory \<or> stype s = Lab) ms = []"
    by (induction ms) auto
  have "mset (map describe (lessonsOf (days (returned out))))
      = mset (map describe
          (filter (\<lambda>s. stype s = Theory \<or> stype s = Lab) (entriesOf (grid st) @ ms)))"
    unfolding lessonsOf_def describe_lessons bag ..
  also have "\<dots> = mset (map describe (lessonsOf (grid st)))"
    by (simp add: lessonsOf_def none)
  finally show thesis
    using c w that by blast
qed

lemma built_lessons:
  assumes "mset (map describe xs) = mset (map lectureOf as) + mset (map labOf bs)"
  shows "filter (\<lambda>s. stype s = Theory \<or> stype s = Lab) xs = xs"
proof -
  have "stype s = Theory \<or> stype s = Lab" if "s \<in> set xs" for s
  proof -
    from that have "describe s \<in># mset (map describe xs)"
      by simp
    then have "describe s \<in> lectureOf ` set as \<union> labOf ` set bs"
      unfolding assms by auto
    then show ?thesis
      by (auto simp: describe_def lectureOf_def labOf_def)
  qed
  then show ?thesis
    by (simp add: filter_id_conv)
qed

lemma run_outcomes:
  assumes "generateTimetable e sd ov = Inr out"
  shows "\<exists>bs ls.
      length bs = length (filter (\<lambda>c. ctype c = ''theory'') (courses sd))
      \<and> length ls = length (filter (\<lambda>c. ctype c = ''lab'') (courses sd))
      \<and> console out
          = map theoryWarning (unplacedOf (filter (\<lambda>c. ctype c = ''theory'') (courses sd)) bs)
            @ map labWarning (unplacedOf (filter (\<lambda>c. ctype c = ''lab'') (courses sd)) ls)
      \<and> mset (map describe (lessonsOf (days (returned out))))
          = mset (map lectureOf (placedOf (filter (\<lambda>c. ctype c = ''theory'') (courses sd)) bs))
            + mset (map labOf (placedOf (filter (\<lambda>c. ctype c = ''lab'') (courses sd)) ls))"
proof -
  let ?tc = "filter (\<lambda>c. ctype c = ''theory'') (courses sd)"
  let ?lc = "filter (\<lambda>c. ctype c = ''lab'') (courses sd)"
  from assms obtain st where c: "constructivePhase e sd ov = Inr st"
    and w: "console out = warnings st"
    and same: "mset (map describe (lessonsOf (days (returned out))))
           = mset (map describe (lessonsOf (grid st)))"
    by (rule lessons_of_run)
  from constructivePhase_outcomes [OF c] obtain bs ls where o:
    "length bs = length ?tc" "length ls = length ?lc"
    "warnings st = map theoryWarning (unplacedOf ?tc bs) @ map labWarning (unplacedOf ?lc ls)"
    "mset (map describe (entriesOf (grid st)))
       = mset (map lectureOf (placedOf ?tc bs)) + mset (map labOf (placedOf ?lc ls))"
    by blast
  from built_lessons [OF o(4)] have "lessonsOf (grid st) = entriesOf (grid st)"
    by (simp add: lessonsOf_def)
  with same o(4) have "mset (map describe (lessonsOf (days (returned out))))
      = mset (map lectureOf (placedOf ?tc bs)) + mset (map labOf (placedOf ?lc ls))"
    by simp
  with o(1,2,3) w show ?thesis
    by (intro exI [of _ bs] exI [of _ ls]) simp
qed

lemma twoPhysics_built:
  "constructivePhase (drawsEnv []) twoPhysics noOverrides
     = Inr (afterPhysics\<lparr>drawn := 202, warnings := [theoryWarning mechanics]\<rparr>)"
  by (simp add: run_defs input_defs fun_eq_iff)

text \<open>
  C2, as stated, fails: the object \<open>generateTimetable\<close> returns has no list of unplaced
  courses. Mechanics has the teacher of Physics and there is one slot; with every draw
  \<open>0\<close> its hundred attempts all hit Monday at nine and fail. The run with Mechanics and
  the run without it return the same object; the only trace of the unplaced course is a
  line on the console.
\<close>

theorem unplaced_course_not_in_returned_value:
  "map_sum id returned (generateTimetable (drawsEnv []) twoPhysics noOverrides)
     = map_sum id returned (generateTimetable (drawsEnv []) onePhysics noOverrides)
   \<and> map_sum id console (generateTimetable (drawsEnv []) twoPhysics noOverrides)
       = Inr [''Could not schedule theory course: Mechanics'']
   \<and> map_sum id console (generateTimetable (drawsEnv []) onePhysics noOverrides) = Inr []"
  by (simp add: run_defs input_defs break_defs repair_defs)

text \<open>
  C2, amended. When the loop for a course ends with its budget used up (100 passes for a
  lecture, 50 for a lab), the grid is as it was, one line naming the course is written
  with \<open>console.warn\<close>, and the loop over the courses goes on with the next course:
  exhaustion raises no exception. When a pass succeeds, one session made from the course
  is pushed onto a weekday, nothing is logged, and the loop goes on with the next
  course. When a pass throws, the scheduling call throws: the run ends there, with
  neither a session nor a warning for that course nor for those after it. Whenever the
  run returns, every lecture and every lab course of the catalogue is in exactly one of
  two cases. Either it is placed, and the returned grid holds one session with its name,
  code and teacher (for a lab, the name followed by \<open>Lab\<close> and the code by \<open>L\<close>); or it
  is unplaced, and the console holds one warning naming it. The warnings come in the
  order of the catalogue, lectures before labs, and the returned grid holds no other
  lecture or lab session. The object returned to the caller holds the grid,
  \<open>sectionId\<close>, \<open>generatedAt\<close> and the constraints, and no record of the unplaced
  courses.
\<close>

theorem exhausted_course_is_logged_and_skipped:
  "(theoryAttempts e ts rms cons c 0 st = Inr (False, st') \<longrightarrow>
      grid st' = grid st
      \<and> theoryLoop e ts rms cons (c # cs) st
          = theoryLoop e ts rms cons cs (st'\<lparr>warnings := warnings st @ [theoryWarning c]\<rparr>))
   \<and> (labAttempts e ts rms cons c 0 st = Inr (False, st') \<longrightarrow>
        grid st' = grid st
        \<and> labLoop e ts rms cons (c # cs) st
            = labLoop e ts rms cons cs (st'\<lparr>warnings := warnings st @ [labWarning c]\<rparr>))
   \<and> (theoryAttempts e ts rms cons c 0 st = Inr (True, st') \<longrightarrow>
        warnings st' = warnings st
        \<and> (\<exists>d t rm. d \<in> set weekDays
              \<and> grid st' = pushSession (grid st) d (theorySession (nextId st) t c rm))
        \<and> theoryLoop e ts rms cons (c # cs) st = theoryLoop e ts rms cons cs st')
   \<and> (labAttempts e ts rms cons c 0 st = Inr (True, st') \<longrightarrow>
        warnings st' = warnings st
        \<and> (\<exists>d t rm. d \<in> set weekDays
              \<and> grid st' = pushSession (grid st) d (labSession (nextId st) t c rm))
        \<and> labLoop e ts rms cons (c # cs) st = labLoop e ts rms cons cs st')
   \<and> (theoryAttempts e ts rms cons c 0 st = Inl er \<longrightarrow>
        theoryLoop e ts rms cons (c # cs) st = Inl er)
   \<and> (labAttempts e ts rms cons c 0 st = Inl er \<longrightarrow>
        labLoop e ts rms cons (c # cs) st = Inl er)
   \<and> (constructivePhase e sd ov = Inr st2 \<longrightarrow>
        (\<exists>bs ls.
           length bs = length (filter (\<lambda>c. ctype c = ''theory'') (courses sd))
           \<and> length ls = length (filter (\<lambda>c. ctype c = ''lab'') (courses sd))
           \<and> warnings st2
               = map theoryWarning
                   (unplacedOf (filter (\<lambda>c. ctype c = ''theory'') (courses sd)) bs)
                 @ map labWarning
                     (unplacedOf (filter (\<lambda>c. ctype c = ''lab'') (courses sd)) ls)
           \<and> mset (map describe (entriesOf (grid st2)))
               = mset (map lectureOf
                         (placedOf (filter (\<lambda>c. ctype c = ''theory'') (courses sd)) bs))
                 + mset (map labOf
                           (placedOf (filter (\<lambda>c. ctype c = ''lab'') (courses sd)) ls))))
   \<and> (generateTimetable e sd ov = Inr out \<longrightarrow>
        (\<exists>bs ls.
           length bs = length (filter (\<lambda>c. ctype c = ''theory'') (courses sd))
           \<and> length ls = length (filter (\<lambda>c. ctype c = ''lab'') (courses sd))
           \<and> console out
               = map theoryWarning
                   (unplacedOf (filter (\<lambda>c. ctype c = ''theory'') (courses sd)) bs)
                 @ map labWarning
                     (unplacedOf (filter (\<lambda>c. ctype c = ''lab'') (courses sd)) ls)
           \<and> mset (map describe (lessonsOf (days (returned out))))
               = mset (map lectureOf
                         (placedOf (filter (\<lambda>c. ctype c = ''theory'') (courses sd)) bs))
                 + mset (map labOf
                           (placedOf (filter (\<lambda>c. ctype c = ''lab'') (courses sd)) ls))))
   \<and> (constructivePhase e sd ov = Inr st2 \<and> generateTimetable e sd ov = Inr out \<longrightarrow>
        console out = warnings st2)"
proof (intro conjI impI)
  assume a: "theoryAttempts e ts rms cons c 0 st = Inr (False, st')"
  from theoryAttempts_result [OF a] show "grid st' = grid st"
    by simp
  from theoryAttempts_result [OF a] a
  show "theoryLoop e ts rms cons (c # cs) st
          = theoryLoop e ts rms cons cs (st'\<lparr>warnings := warnings st @ [theoryWarning c]\<rparr>)"
    by simp
next
  assume a: "labAttempts e ts rms cons c 0 st = Inr (False, st')"
  from labAttempts_result [OF a] show "grid st' = grid st"
    by simp
  from labAttempts_result [OF a] a
  show "labLoop e ts rms cons (c # cs) st
          = labLoop e ts rms cons cs (st'\<lparr>warnings := warnings st @ [labWarning c]\<rparr>)"
    by simp
next
  assume a: "theoryAttempts e ts rms cons c 0 st = Inr (True, st')"
  from theoryAttempts_result [OF a] show "warnings st' = warnings st"
    by simp
  from theoryAttempts_result [OF a]
  show "\<exists>d t rm. d \<in> set weekDays
          \<and> grid st' = pushSession (grid st) d (theorySession (nextId st) t c rm)"
    unfolding placedTheory_def by blast
  from a show "theoryLoop e ts rms cons (c # cs) st = theoryLoop e ts rms cons cs st'"
    by simp
next
  assume a: "labAttempts e ts rms cons c 0 st = Inr (True, st')"
  from labAttempts_result [OF a] show "warnings st' = warnings st"
    by simp
  from labAttempts_result [OF a]
  show "\<exists>d t rm. d \<in> set weekDays
          \<and> grid st' = pushSession (grid st) d (labSession (nextId st) t c rm)"
    unfolding placedLab_def by blast
  from a show "labLoop e ts rms cons (c # cs) st = labLoop e ts rms cons cs st'"
    by simp
next
  assume "theoryAttempts e ts rms cons c 0 st = Inl er"
  then show "theoryLoop e ts rms cons (c # cs) st = Inl er"
    by simp
next
  assume "labAttempts e ts rms cons c 0 st = Inl er"
  then show "labLoop e ts rms cons (c # cs) st = Inl er"
    by simp
next
  assume "constructivePhase e sd ov = Inr st2"
  then show "\<exists>bs ls.
      length bs = length (filter (\<lambda>c. ctype c = ''theory'') (courses sd))
      \<and> length ls = length (filter (\<lambda>c. ctype c = ''lab'') (courses sd))
      \<and> warnings st2
          = map theoryWarning (unplacedOf (filter (\<lambda>c. ctype c = ''theory'') (courses sd)) bs)
            @ map labWarning (unplacedOf (filter (\<lambda>c. ctype c = ''lab'') (courses sd)) ls)
      \<and> mset (map describe (entriesOf (grid st2)))
          = mset (map lectureOf (placedOf (filter (\<lambda>c. ctype c = ''theory'') (courses sd)) bs))
            + mset (map labOf (placedOf (filter (\<lambda>c. ctype c = ''lab'') (courses sd)) ls))"
    by (rule constructivePhase_outcomes)
next
  assume "generateTimetable e sd ov = Inr out"
  then show "\<exists>bs ls.
      length bs = length (filter (\<lambda>c. ctype c = ''theory'') (courses sd))
      \<and> length ls = length (filter (\<lambda>c. ctype c = ''lab'') (courses sd))
      \<and> console out
          = map theoryWarning (unplacedOf (filter (\<lambda>c. ctype c = ''theory'') (courses sd)) bs)
            @ map labWarning (unplacedOf (filter (\<lambda>c. ctype c = ''lab'') (courses sd)) ls)
      \<and> mset (map describe (lessonsOf (days (returned out))))
          = mset (map lectureOf (placedOf (filter (\<lambda>c. ctype c = ''theory'') (courses sd)) bs))
            + mset (map labOf (placedOf (filter (\<lambda>c. ctype c = ''lab'') (courses sd)) ls))"
    by (rule run_outcomes)
next
  assume a: "constructivePhase e sd ov = Inr st2 \<and> generateTimetable e sd ov = Inr out"
  then obtain st3 where b: "addBreaksAndLunch e st2 = Inr st3" and o: "console out = warnings st3"
    by (auto simp: generateTimetable_phases split: sum.splits)
  from b have "warnings st3 = warnings st2"
    unfolding addBreaksAndLunch_def by (rule addBreaksAndLunch_warnings)
  with o show "console out = warnings st2"
    by simp
qed

text \<open>
  The hundred passes for Mechanics and the fifty for a lab of the same teacher, from the
  state in which Physics is placed; the passes that place Physics and a lab of another
  teacher; the first pass of a course whose catalogue has no slot, which throws; and the
  whole run with Physics and Mechanics, where Physics is placed and Mechanics is not.
\<close>

theorem exhausted_course_is_logged_and_skipped_witness:
  "theoryAttempts (drawsEnv []) [nineToTen] [] defaultConstraints mechanics 0 afterPhysics
       = Inr (False, afterPhysics\<lparr>drawn := 202\<rparr>)
   \<and> theoryLoop (drawsEnv []) [nineToTen] [] defaultConstraints [mechanics] afterPhysics
       = Inr (afterPhysics\<lparr>drawn := 202, warnings := [theoryWarning mechanics]\<rparr>)
   \<and> labAttempts (drawsEnv []) [mkSlot ''14:00'' ''16:00'' ''lab''] [] defaultConstraints
         opticsLab 0 afterPhysics
       = Inr (False, afterPhysics\<lparr>drawn := 102\<rparr>)
   \<and> labLoop (drawsEnv []) [mkSlot ''14:00'' ''16:00'' ''lab''] [] defaultConstraints
         [opticsLab] afterPhysics
       = Inr (afterPhysics\<lparr>drawn := 102, warnings := [labWarning opticsLab]\<rparr>)
   \<and> theoryAttempts (drawsEnv []) [nineToTen] [] defaultConstraints physics 0 initialState
       = Inr (True, afterPhysics)
   \<and> theoryLoop (drawsEnv []) [nineToTen] [] defaultConstraints [physics, mechanics] initialState
       = Inr (afterPhysics\<lparr>drawn := 202, warnings := [theoryWarning mechanics]\<rparr>)
   \<and> labAttempts (drawsEnv []) [mkSlot ''14:00'' ''16:00'' ''lab''] [] defaultConstraints
         chemistryLab 0 afterPhysics
       = Inr (True,
           afterPhysics
             \<lparr>grid := pushSession (grid afterPhysics) Monday
                        (labSession 1 ''14:00-16:00'' chemistryLab ''Lab 101''),
              drawn := 4, nextId := 2\<rparr>)
   \<and> labLoop (drawsEnv []) [mkSlot ''14:00'' ''16:00'' ''lab''] [] defaultConstraints
         [chemistryLab] afterPhysics
       = Inr (afterPhysics
                \<lparr>grid := pushSession (grid afterPhysics) Monday
                           (labSession 1 ''14:00-16:00'' chemistryLab ''Lab 101''),
                 drawn := 4, nextId := 2\<rparr>)
   \<and> theoryAttempts (drawsEnv []) [] [] defaultConstraints physics 0 initialState
       = Inl TypeError
   \<and> theoryLoop (drawsEnv []) [] [] defaultConstraints [physics, mechanics] initialState
       = Inl TypeError
   \<and> labAttempts (drawsEnv []) [] [] defaultConstraints opticsLab 0 initialState
       = Inl TypeError
   \<and> labLoop (drawsEnv []) [] [] defaultConstraints [opticsLab] initialState = Inl TypeError
   \<and> generateTimetable (drawsEnv []) (mkSection [physics] [] []) noOverrides = Inl TypeError
   \<and> constructivePhase (drawsEnv []) twoPhysics noOverrides
       = Inr (afterPhysics\<lparr>drawn := 202, warnings := [theoryWarning mechanics]\<rparr>)
   \<and> map_sum id console (generateTimetable (drawsEnv []) twoPhysics noOverrides)
       = Inr (map theoryWarning (unplacedOf [physics, mechanics] [True, False]))
   \<and> map_sum id (\<lambda>out. mset (map describe (lessonsOf (days (returned out)))))
         (generateTimetable (drawsEnv []) twoPhysics noOverrides)
       = Inr (mset (map lectureOf (placedOf [physics, mechanics] [True, False])))
   \<and> unplacedOf [physics, mechanics] [True, False] = [mechanics]
   \<and> placedOf [physics, mechanics] [True, False] = [physics]"
proof -
  let ?e = "drawsEnv []"
  let ?lab = "[mkSlot ''14:00'' ''16:00'' ''lab'']"
  let ?built = "afterPhysics\<lparr>drawn := 202, warnings := [theoryWarning mechanics]\<rparr>"
  let ?withLab = "afterPhysics
      \<lparr>grid := pushSession (grid afterPhysics) Monday
                 (labSession 1 ''14:00-16:00'' chemistryLab ''Lab 101''),
       drawn := 4, nextId := 2\<rparr>"
  have t: "theoryAttempts ?e [nineToTen] [] defaultConstraints mechanics 0 afterPhysics
             = Inr (False, afterPhysics\<lparr>drawn := 202\<rparr>)"
    by (simp add: run_defs input_defs)
  have l: "labAttempts ?e ?lab [] defaultConstraints opticsLab 0 afterPhysics
             = Inr (False, afterPhysics\<lparr>drawn := 102\<rparr>)"
    by (simp add: run_defs input_defs)
  have tp: "theoryAttempts ?e [nineToTen] [] defaultConstraints physics 0 initialState
             = Inr (True, afterPhysics)"
    by (simp add: run_defs input_defs fun_eq_iff)
  have lp: "labAttempts ?e ?lab [] defaultConstraints chemistryLab 0 afterPhysics
             = Inr (True, ?withLab)"
    by (simp add: run_defs input_defs fun_eq_iff)
  have te: "theoryAttempts ?e [] [] defaultConstraints physics 0 initialState = Inl TypeError"
    by (simp add: run_defs input_defs)
  have le: "labAttempts ?e [] [] defaultConstraints opticsLab 0 initialState = Inl TypeError"
    by (simp add: run_defs input_defs)
  have none: "generateTimetable ?e (mkSection [physics] [] []) noOverrides = Inl TypeError"
    by (simp add: run_defs input_defs)
  obtain out where g: "generateTimetable ?e twoPhysics noOverrides = Inr out"
    by (simp add: generateTimetable_phases twoPhysics_built)
       (simp add: run_defs input_defs break_defs)
  have cat: "filter (\<lambda>c. ctype c = ''theory'') (courses twoPhysics) = [physics, mechanics]"
    "filter (\<lambda>c. ctype c = ''lab'') (courses twoPhysics) = []"
    by (simp_all add: input_defs)
  have pl: "unplacedOf [physics, mechanics] [True, False] = [mechanics]"
    "placedOf [physics, mechanics] [True, False] = [physics]"
    by (simp_all add: unplacedOf_def placedOf_def)
  note atTheory = exhausted_course_is_logged_and_skipped
      [of ?e "[nineToTen]" "[]" defaultConstraints mechanics afterPhysics
          "afterPhysics\<lparr>drawn := 202\<rparr>" "[]" TypeError twoPhysics noOverrides ?built out]
  note atLab = exhausted_course_is_logged_and_skipped
      [of ?e ?lab "[]" defaultConstraints opticsLab afterPhysics
          "afterPhysics\<lparr>drawn := 102\<rparr>" "[]" TypeError twoPhysics noOverrides ?built out]
  note atPlaced = exhausted_course_is_logged_and_skipped
      [of ?e "[nineToTen]" "[]" defaultConstraints physics initialState
          afterPhysics "[mechanics]" TypeError twoPhysics noOverrides ?built out]
  note atPlacedLab = exhausted_course_is_logged_and_skipped
      [of ?e ?lab "[]" defaultConstraints chemistryLab afterPhysics
          ?withLab "[]" TypeError twoPhysics noOverrides ?built out]
  note atThrow = exhausted_course_is_logged_and_skipped
      [of ?e "[]" "[]" defaultConstraints physics initialState
          afterPhysics "[mechanics]" TypeError twoPhysics noOverrides ?built out]
  note atThrowLab = exhausted_course_is_logged_and_skipped
      [of ?e "[]" "[]" defaultConstraints opticsLab initialState
          afterPhysics "[]" TypeError twoPhysics noOverrides ?built out]
  from atTheory t
  have a: "theoryLoop ?e [nineToTen] [] defaultConstraints [mechanics] afterPhysics
             = Inr ?built"
    by (simp add: afterPhysics_def)
  from atTheory twoPhysics_built g have c: "console out = [theoryWarning mechanics]"
    by (simp add: afterPhysics_def)
  from atLab l
  have d: "labLoop ?e ?lab [] defaultConstraints [opticsLab] afterPhysics
             = Inr (afterPhysics\<lparr>drawn := 102, warnings := [labWarning opticsLab]\<rparr>)"
    by (simp add: afterPhysics_def)
  from atPlaced tp a
  have ap: "theoryLoop ?e [nineToTen] [] defaultConstraints [physics, mechanics] initialState
             = Inr ?built"
    by simp
  from atPlacedLab lp
  have dp: "labLoop ?e ?lab [] defaultConstraints [chemistryLab] afterPhysics = Inr ?withLab"
    by simp
  from atThrow te
  have ae: "theoryLoop ?e [] [] defaultConstraints [physics, mechanics] initialState
             = Inl TypeError"
    by simp
  from atThrowLab le
  have de: "labLoop ?e [] [] defaultConstraints [opticsLab] initialState = Inl TypeError"
    by simp
  from atTheory g obtain bs ls where o: "length bs = length [physics, mechanics]"
    "console out = map theoryWarning (unplacedOf [physics, mechanics] bs)
                     @ map labWarning (unplacedOf [] ls)"
    "mset (map describe (lessonsOf (days (returned out))))
       = mset (map lectureOf (placedOf [physics, mechanics] bs))
         + mset (map labOf (placedOf [] ls))"
    unfolding cat by blast
  from o(1) obtain b1 b2 where bs: "bs = [b1, b2]"
    by (cases bs; cases "tl bs") auto
  have "b1 \<and> \<not> b2"
    using o(2) c unfolding bs
    by (cases b1; cases b2)
       (simp_all add: unplacedOf_def theoryWarning_def physics_def mechanics_def mkCourse_def)
  then have bs': "bs = [True, False]"
    by (simp add: bs)
  from o(3) have les: "mset (map describe (lessonsOf (days (returned out))))
      = mset (map lectureOf (placedOf [physics, mechanics] [True, False]))"
    unfolding bs' by (simp add: placedOf_def)
  from c have con: "console out = map theoryWarning (unplacedOf [physics, mechanics] [True, False])"
    by (simp add: pl)
  from t a l d tp ap lp dp te ae le de none twoPhysics_built g con les pl show ?thesis
    by (simp del: mset_map)
qed
section \<open>One block per lab course\<close>

lemma count_via_withoutRoom:
  assumes "\<And>s. P (withoutRoom s) = P s"
    and "mset (map withoutRoom xs) = mset (map withoutRoom ys)"
  shows "length (filter P xs) = length (filter P ys)"
proof -
  have "length (filter P zs) = length (filter P (map withoutRoom zs))" for zs
    by (simp add: length_filter_map comp_def assms(1))
  with count_perm [OF assms(2), of P] show ?thesis
    by simp
qed

lemma all_via_withoutRoom:
  assumes "\<And>s. P (withoutRoom s) = P s"
    and "mset (map withoutRoom xs) = mset (map withoutRoom ys)"
    and "\<forall>s \<in> set ys. P s"
  shows "\<forall>s \<in> set xs. P s"
proof
  fix s assume "s \<in> set xs"
  then have "withoutRoom s \<in> set (map withoutRoom xs)"
    by simp
  also have "set (map withoutRoom xs) = set (map withoutRoom ys)"
    using assms(2) by (rule mset_eq_setD)
  finally obtain y where "y \<in> set ys" "withoutRoom y = withoutRoom s"
    by auto
  with assms(1) [of y] assms(1) [of s] assms(3) show "P s"
    by simp
qed

lemma constructivePhase_labs:
  assumes "constructivePhase e sd ov = Inr st"
  shows "(\<forall>k. length (labBlocks (grid st) k) \<le> 1)
       \<and> (\<forall>s \<in> set (entriesOf (grid st)). labFrom (timeslots sd) s)"
proof (rule constructivePhase_preserves [OF assms,
    where P = "\<lambda>g n. (\<forall>k. length (labBlocks g k) \<le> 1)
                    \<and> (\<forall>s \<in> set (entriesOf g). labFrom (timeslots sd) s)"])
  show "(\<forall>k. length (labBlocks initializeTimetable k) \<le> 1)
      \<and> (\<forall>s \<in> set (entriesOf initializeTimetable). labFrom (timeslots sd) s)"
    by (simp add: labBlocks_def entriesOf_def allDays_def initializeTimetable_def)
next
  fix c s s'
  assume inv: "(\<forall>k. length (labBlocks (grid s) k) \<le> 1)
      \<and> (\<forall>x \<in> set (entriesOf (grid s)). labFrom (timeslots sd) x)"
    and "placedTheory (mergeConstraints defaultConstraints ov) c s s'"
  then obtain d t rm where g: "grid s' = pushSession (grid s) d (theorySession (nextId s) t c rm)"
    by (auto simp: placedTheory_def)
  let ?x = "theorySession (nextId s) t c rm"
  have p: "mset (entriesOf (grid s')) = mset (?x # entriesOf (grid s))"
    unfolding g by (rule bag_push)
  have "length (labBlocks (grid s') k) = length (labBlocks (grid s) k)" for k
    unfolding labBlocks_def count_perm [OF p] by (simp add: theorySession_def)
  moreover have "set (entriesOf (grid s')) = insert ?x (set (entriesOf (grid s)))"
    using mset_eq_setD [OF p] by simp
  moreover have "labFrom (timeslots sd) ?x"
    by (simp add: labFrom_def theorySession_def)
  ultimately show "(\<forall>k. length (labBlocks (grid s') k) \<le> 1)
      \<and> (\<forall>x \<in> set (entriesOf (grid s')). labFrom (timeslots sd) x)"
    using inv by simp
next
  fix c s s'
  assume inv: "(\<forall>k. length (labBlocks (grid s) k) \<le> 1)
      \<and> (\<forall>x \<in> set (entriesOf (grid s)). labFrom (timeslots sd) x)"
    and "placedLab (filter (\<lambda>slot. sltype slot = ''lab'') (timeslots sd)) c s s'"
  then obtain d sl rm where
    sl: "sl \<in> set (timeslots sd)" "sltype sl = ''lab''"
    and g: "grid s' = pushSession (grid s) d
              (labSession (nextId s) (start sl @ ''-'' @ finish sl) c rm)"
    and fresh: "\<not> list_ex (\<lambda>sc. code sc = Some (ccode c @ ''L'')) (entriesOf (grid s))"
    by (auto simp: placedLab_def)
  let ?x = "labSession (nextId s) (start sl @ ''-'' @ finish sl) c rm"
  have p: "mset (entriesOf (grid s')) = mset (?x # entriesOf (grid s))"
    unfolding g by (rule bag_push)
  have none: "labBlocks (grid s) (ccode c @ ''L'') = []"
    using fresh by (auto simp: labBlocks_def filter_empty_conv list_ex_iff)
  have "length (labBlocks (grid s') k) \<le> 1" for k
  proof (cases "k = ccode c @ ''L''")
    case True
    then show ?thesis
      unfolding labBlocks_def count_perm [OF p] using none
      by (simp add: labBlocks_def labSession_def)
  next
    case False
    then have "length (labBlocks (grid s') k) = length (labBlocks (grid s) k)"
      unfolding labBlocks_def count_perm [OF p] by (simp add: labSession_def)
    with inv show ?thesis
      by simp
  qed
  moreover have "set (entriesOf (grid s')) = insert ?x (set (entriesOf (grid s)))"
    using mset_eq_setD [OF p] by simp
  moreover have "labFrom (timeslots sd) ?x"
    using sl by (auto simp: labFrom_def labSession_def)
  ultimately show "(\<forall>k. length (labBlocks (grid s') k) \<le> 1)
      \<and> (\<forall>x \<in> set (entriesOf (grid s')). labFrom (timeslots sd) x)"
    using inv by simp
qed

text \<open>
  C5. Whenever \<open>generateTimetable\<close> returns, the returned grid holds, for every code,
  at most one lab session with that code in the whole week; in particular at most one
  block for each lab course, whose sessions carry the course's code with \<open>L\<close> appended.
  Every lab session in the grid records the duration 2 and a single span, the start and
  end of one lab slot of the catalogue.
\<close>

theorem lab_blocks_unique:
  assumes "generateTimetable e sd ov = Inr out"
  shows "(\<forall>k. length (labBlocks (days (returned out)) k) \<le> 1)
       \<and> (\<forall>s \<in> set (entriesOf (days (returned out))). labFrom (timeslots sd) s)"
proof -
  from assms obtain st ms where c: "constructivePhase e sd ov = Inr st"
    and ms: "\<forall>m \<in> set ms. stype m = Break \<or> stype m = Lunch"
    and p: "mset (map withoutRoom (entriesOf (days (returned out))))
              = mset (map withoutRoom (entriesOf (grid st) @ ms))"
    by (rule generateTimetable_entries)
  note built = constructivePhase_labs [OF c]
  have "length (labBlocks (days (returned out)) k) \<le> 1" for k
  proof -
    have "length (labBlocks (days (returned out)) k)
        = length (filter (\<lambda>s. stype s = Lab \<and> code s = Some k) (entriesOf (grid st) @ ms))"
      unfolding labBlocks_def
      by (rule count_via_withoutRoom [OF _ p]) (simp add: withoutRoom_def)
    also have "\<dots> = length (labBlocks (grid st) k)"
      using ms by (auto simp: labBlocks_def filter_empty_conv)
    finally show ?thesis
      using built by simp
  qed
  moreover have "\<forall>s \<in> set (entriesOf (days (returned out))). labFrom (timeslots sd) s"
  proof (rule all_via_withoutRoom [OF _ p])
    show "labFrom (timeslots sd) (withoutRoom s) = labFrom (timeslots sd) s" for s
      by (simp add: labFrom_def withoutRoom_def)
    show "\<forall>s \<in> set (entriesOf (grid st) @ ms). labFrom (timeslots sd) s"
      using built ms by (auto simp: labFrom_def)
  qed
  ultimately show ?thesis
    by blast
qed

text \<open>
  In the running example the returned grid has the one block of the Chemistry lab, on
  Tuesday, and none under any other code.
\<close>

theorem lab_blocks_unique_witness:
  "map_sum id (days \<circ> returned) (generateTimetable sampleEnv sampleSection noOverrides)
     = Inr sampleFinal
   \<and> labBlocks sampleFinal ''CH1L'' = [labSession 2 ''14:00-16:00'' chemistryLab ''L1'']
   \<and> length (labBlocks sampleFinal ''PH1L'') \<le> 1
   \<and> labFrom (timeslots sampleSection) (labSession 2 ''14:00-16:00'' chemistryLab ''L1'')
   \<and> duration (labSession 2 ''14:00-16:00'' chemistryLab ''L1'') = Some 2"
  using lab_blocks_unique [OF sample_run] sample_run
  by (simp add: labBlocks_def entriesOf_def allDays_def input_defs initializeTimetable_def
      labSession_def theorySession_def breakMarker_def lunchMarker_def labFrom_def)

section \<open>The score\<close>

lemma dupsFrom_card: "dupsFrom S ks + card (set ks - S) = length ks"
proof (induction ks arbitrary: S)
  case Nil
  then show ?case by simp
next
  case (Cons k ks)
  show ?case
  proof (cases "k \<in> S")
    case True
    then have "insert k S = S" "set (k # ks) - S = set ks - S"
      by auto
    with Cons.IH [of S] True show ?thesis
      by simp
  next
    case False
    have "set (k # ks) - S = insert k (set ks - insert k S)"
      using False by auto
    moreover have "k \<notin> set ks - insert k S"
      by simp
    ultimately have "card (set (k # ks) - S) = Suc (card (set ks - insert k S))"
      by (simp del: Diff_insert)
    with Cons.IH [of "insert k S"] False show ?thesis
      by simp
  qed
qed

lemma dupsFrom_empty: "dupsFrom {} ks = duplicates ks"
  using dupsFrom_card [of "{}" ks] by (simp add: duplicates_def length_remdups_card_conv)

lemma dupsFrom_append: "dupsFrom S (ks @ ks') = dupsFrom S ks + dupsFrom (S \<union> set ks) ks'"
proof (induction ks arbitrary: S)
  case Nil
  then show ?case by simp
next
  case (Cons k ks)
  have "S \<union> set (k # ks) = insert k S \<union> set ks"
    by auto
  with Cons.IH [of "insert k S"] show ?case
    by simp
qed

lemma detect_inner:
  "foldl (detectStep d) (c, ts, rs) xs = (c', ts', rs') \<Longrightarrow>
     length c' = length c + dupsFrom (set ts) (tkeys d xs) + dupsFrom (set rs) (rkeys d xs)
     \<and> set ts' = set ts \<union> set (tkeys d xs) \<and> set rs' = set rs \<union> set (rkeys d xs)"
proof (induction xs arbitrary: c ts rs)
  case Nil
  then show ?case by (simp add: tkeys_def rkeys_def)
next
  case (Cons x xs)
  obtain c1 ts1 rs1 where s: "detectStep d (c, ts, rs) x = (c1, ts1, rs1)"
    by (cases "detectStep d (c, ts, rs) x")
  have one: "length c1 = length c + dupsFrom (set ts) (tkeys d [x]) + dupsFrom (set rs) (rkeys d [x])
      \<and> set ts1 = set ts \<union> set (tkeys d [x]) \<and> set rs1 = set rs \<union> set (rkeys d [x])"
    using s by (auto simp: detectStep_def Let_def tkeys_def rkeys_def bookable_def split: if_splits)
  from Cons.prems s have "foldl (detectStep d) (c1, ts1, rs1) xs = (c', ts', rs')"
    by simp
  from Cons.IH [OF this] one show ?case
    using dupsFrom_append [of "set ts" "tkeys d [x]" "tkeys d xs"]
          dupsFrom_append [of "set rs" "rkeys d [x]" "rkeys d xs"]
    by (auto simp: tkeys_def rkeys_def)
qed

lemma detect_outer:
  "foldl (\<lambda>acc d. foldl (detectStep d) acc (tt d)) (c, ts, rs) ds = (c', ts', rs') \<Longrightarrow>
     length c' = length c + dupsFrom (set ts) (concat (map (\<lambda>d. tkeys d (tt d)) ds))
                 + dupsFrom (set rs) (concat (map (\<lambda>d. rkeys d (tt d)) ds))
     \<and> set ts' = set ts \<union> set (concat (map (\<lambda>d. tkeys d (tt d)) ds))
     \<and> set rs' = set rs \<union> set (concat (map (\<lambda>d. rkeys d (tt d)) ds))"
proof (induction ds arbitrary: c ts rs)
  case Nil
  then show ?case by simp
next
  case (Cons d ds)
  obtain c1 ts1 rs1 where s: "foldl (detectStep d) (c, ts, rs) (tt d) = (c1, ts1, rs1)"
    by (cases "foldl (detectStep d) (c, ts, rs) (tt d)")
  from Cons.prems s have "foldl (\<lambda>acc d. foldl (detectStep d) acc (tt d)) (c1, ts1, rs1) ds = (c', ts', rs')"
    by simp
  from Cons.IH [OF this] detect_inner [OF s] show ?case
    by (simp add: dupsFrom_append Un_assoc)
qed

lemma detectConflicts_length:
  "length (detectConflicts tt) = duplicates (teacherKeys tt) + duplicates (roomKeys tt)"
proof -
  obtain c ts rs where
    s: "foldl (\<lambda>acc d. foldl (detectStep d) acc (tt d)) ([], [], []) allDays = (c, ts, rs)"
    by (cases "foldl (\<lambda>acc d. foldl (detectStep d) acc (tt d)) ([], [], []) allDays")
  from detect_outer [OF s] s show ?thesis
    by (simp add: detectConflicts_def dupsFrom_empty teacherKeys_def roomKeys_def tkeys_def rkeys_def)
qed

lemma foldl_max: "foldl max (a::int) (a # xs) = Max (set (a # xs))"
proof -
  have "foldl max a (a # xs) = fold max (a # xs) a"
    by (simp add: foldl_conv_fold max.commute)
  also have "\<dots> = fold max xs a"
    by simp
  finally show ?thesis
    using Max.set_eq_fold [of a xs] by simp
qed

lemma foldl_min: "foldl min (a::int) (a # xs) = Min (set (a # xs))"
proof -
  have "foldl min a (a # xs) = fold min (a # xs) a"
    by (simp add: foldl_conv_fold min.commute)
  also have "\<dots> = fold min xs a"
    by simp
  finally show ?thesis
    using Min.set_eq_fold [of a xs] by simp
qed

lemma dayWorkload_lessonCount: "dayWorkload tt d = lessonCount (tt d)"
  by (simp add: dayWorkload_def lessonCount_def isClass_def [abs_def])

lemma calculateBalanceScore_eq:
  "calculateBalanceScore tt = (Max (dailyCounts tt) - Min (dailyCounts tt)) * (- 5)"
  unfolding calculateBalanceScore_def dailyCounts_def allDays_def Let_def list.simps(9) nth_Cons_0
    foldl_max foldl_min dayWorkload_lessonCount
  by simp

lemma split_at_underscore:
  "CHR ''_'' \<notin> set a \<Longrightarrow> CHR ''_'' \<notin> set a' \<Longrightarrow> a @ CHR ''_'' # r = a' @ CHR ''_'' # r'
     \<Longrightarrow> a = a' \<and> r = r'"
proof (induction a arbitrary: a')
  case Nil
  then show ?case by (cases a') auto
next
  case (Cons x a)
  then show ?case by (cases a') auto
qed

lemma dayName_plain: "CHR ''_'' \<notin> set (dayName d)"
  by (cases d) simp_all

lemma dayName_inj: "dayName d = dayName d' \<Longrightarrow> d = d'"
  by (cases d; cases d') simp_all

lemma slotKey_inj:
  assumes "CHR ''_'' \<notin> set (time c)" and "CHR ''_'' \<notin> set (time c')"
    and "slotKey d c (Some v) = slotKey d' c' (Some v')"
  shows "d = d' \<and> time c = time c' \<and> v = v'"
proof -
  from assms(3) have
    "dayName d @ CHR ''_'' # (time c @ CHR ''_'' # v) = dayName d' @ CHR ''_'' # (time c' @ CHR ''_'' # v')"
    by (simp add: slotKey_def)
  from split_at_underscore [OF dayName_plain dayName_plain this]
  have d: "dayName d = dayName d'" and r: "time c @ CHR ''_'' # v = time c' @ CHR ''_'' # v'"
    by simp_all
  from split_at_underscore [OF assms(1,2) r] dayName_inj [OF d] show ?thesis
    by simp
qed

lemma duplicates_map_inj: "inj_on f (set xs) \<Longrightarrow> duplicates (map f xs) = duplicates xs"
  by (simp add: duplicates_def length_remdups_card_conv card_image)

lemma truthy_Some: "truthy v \<Longrightarrow> \<exists>s. v = Some s"
  by (cases v) (simp_all add: truthy_def)

lemma keys_of_triples:
  "teacherKeys tt = map keyOf (teacherTriples tt)" "roomKeys tt = map keyOf (roomTriples tt)"
  by (simp_all add: teacherKeys_def teacherTriples_def roomKeys_def roomTriples_def keyOf_def
        slotKey_def map_concat comp_def)

lemma triples_plain:
  assumes "\<forall>s \<in> set (entriesOf tt). CHR ''_'' \<notin> set (time s)"
  shows "\<forall>x \<in> set (teacherTriples tt) \<union> set (roomTriples tt).
           CHR ''_'' \<notin> set (fst (snd x)) \<and> (\<exists>s. snd (snd x) = Some s)"
  using assms
  by (auto simp: teacherTriples_def roomTriples_def entriesOf_def bookable_def dest: truthy_Some)

lemma keyOf_inj:
  assumes "\<forall>x \<in> A. CHR ''_'' \<notin> set (fst (snd x)) \<and> (\<exists>s. snd (snd x) = Some s)"
  shows "inj_on keyOf A"
proof (rule inj_onI)
  fix x y assume x: "x \<in> A" and y: "y \<in> A" and k: "keyOf x = keyOf y"
  obtain d ti v where xx: "x = (d, ti, Some v)" and tx: "CHR ''_'' \<notin> set ti"
    using assms x by (cases x) auto
  obtain d' ti' v' where yy: "y = (d', ti', Some v')" and ty: "CHR ''_'' \<notin> set ti'"
    using assms y by (cases y) auto
  from k have "dayName d @ CHR ''_'' # (ti @ CHR ''_'' # v) = dayName d' @ CHR ''_'' # (ti' @ CHR ''_'' # v')"
    by (simp add: keyOf_def xx yy)
  from split_at_underscore [OF dayName_plain dayName_plain this]
  have d: "dayName d = dayName d'" and r: "ti @ CHR ''_'' # v = ti' @ CHR ''_'' # v'"
    by simp_all
  from split_at_underscore [OF tx ty r] dayName_inj [OF d] show "x = y"
    by (simp add: xx yy)
qed

lemma duplicates_triples:
  assumes "\<forall>s \<in> set (entriesOf tt). CHR ''_'' \<notin> set (time s)"
  shows "duplicates (teacherKeys tt) = duplicates (teacherTriples tt)"
    and "duplicates (roomKeys tt) = duplicates (roomTriples tt)"
proof -
  note plain = triples_plain [OF assms]
  have "inj_on keyOf (set (teacherTriples tt))" "inj_on keyOf (set (roomTriples tt))"
    using plain by (auto intro!: keyOf_inj)
  then show "duplicates (teacherKeys tt) = duplicates (teacherTriples tt)"
    and "duplicates (roomKeys tt) = duplicates (roomTriples tt)"
    by (simp_all add: keys_of_triples duplicates_map_inj)
qed

text \<open>
  C3, as stated, fails on the word "triples": the scorer files an entry under the string
  \<open>day_time_teacher\<close>. The two Monday entries of this grid differ in time and in
  teacher, and no (day, time, teacher) or (day, time, room) triple occurs twice, so the
  formula of the statement gives 100 - 0 - 5 * 2 = 90; but both teacher keys are
  \<open>Monday_9-10_x_y\<close>, one conflict is detected, and the score is 80.
\<close>

theorem score_counts_keys_not_triples:
  "calculateTimetableScore underscoreGrid = 80
   \<and> max 0 (100 - 10 * int (duplicates (teacherTriples underscoreGrid)
                              + duplicates (roomTriples underscoreGrid))
              + (- 5) * (Max (dailyCounts underscoreGrid) - Min (dailyCounts underscoreGrid))) = 90"
proof -
  have "length (detectConflicts underscoreGrid) = 1"
    by (simp add: detectConflicts_def detectStep_def allDays_def underscoreGrid_def
          initializeTimetable_def theorySession_def mkCourse_def truthy_def slotKey_def)
  moreover have "calculateBalanceScore underscoreGrid = - 10"
    by (simp add: calculateBalanceScore_def allDays_def dayWorkload_def isClass_def
          underscoreGrid_def initializeTimetable_def theorySession_def)
  ultimately have code: "calculateTimetableScore underscoreGrid = 80"
    by (simp add: calculateTimetableScore_def)
  have "duplicates (teacherTriples underscoreGrid) = 0"
    and "duplicates (roomTriples underscoreGrid) = 0"
    by (simp_all add: duplicates_def teacherTriples_def roomTriples_def allDays_def
          underscoreGrid_def initializeTimetable_def theorySession_def mkCourse_def
          bookable_def truthy_def)
  moreover have "Max (dailyCounts underscoreGrid) = 2 \<and> Min (dailyCounts underscoreGrid) = 0"
    by (simp add: dailyCounts_def allDays_def lessonCount_def underscoreGrid_def
          initializeTimetable_def theorySession_def)
  ultimately show ?thesis
    using code by simp
qed

text \<open>
  C3, amended. For every grid the score is 100, minus 10 for each entry, among those
  that have both a teacher and a room, whose key string \<open>day_time_teacher\<close> repeats
  that of an earlier such entry, and for each whose key string \<open>day_time_room\<close> does,
  minus 5 times the difference between the largest and the smallest daily number of
  theory and lab sessions (markers not counted), and never below 0. When no entry's time
  contains an underscore, two key strings are equal exactly when the triples are, and the
  count is that of the repeated (day, time, teacher) and (day, time, room) triples.
\<close>

theorem score_formula:
  "calculateTimetableScore tt =
     max 0 (100 - 10 * int (duplicates (map keyOf (teacherTriples tt))
                              + duplicates (map keyOf (roomTriples tt)))
              + (- 5) * (Max (dailyCounts tt) - Min (dailyCounts tt)))
   \<and> ((\<forall>s \<in> set (entriesOf tt). CHR ''_'' \<notin> set (time s)) \<longrightarrow>
        calculateTimetableScore tt =
          max 0 (100 - 10 * int (duplicates (teacherTriples tt) + duplicates (roomTriples tt))
                   + (- 5) * (Max (dailyCounts tt) - Min (dailyCounts tt))))"
proof (intro conjI impI)
  have keys: "calculateTimetableScore tt =
     max 0 (100 - 10 * int (duplicates (teacherKeys tt) + duplicates (roomKeys tt))
              + (- 5) * (Max (dailyCounts tt) - Min (dailyCounts tt)))"
    by (simp add: calculateTimetableScore_def detectConflicts_length calculateBalanceScore_eq)
  then show "calculateTimetableScore tt =
     max 0 (100 - 10 * int (duplicates (map keyOf (teacherTriples tt))
                              + duplicates (map keyOf (roomTriples tt)))
              + (- 5) * (Max (dailyCounts tt) - Min (dailyCounts tt)))"
    by (simp only: keys_of_triples)
  assume "\<forall>s \<in> set (entriesOf tt). CHR ''_'' \<notin> set (time s)"
  from duplicates_triples [OF this] keys
  show "calculateTimetableScore tt =
     max 0 (100 - 10 * int (duplicates (teacherTriples tt) + duplicates (roomTriples tt))
              + (- 5) * (Max (dailyCounts tt) - Min (dailyCounts tt)))"
    by simp
qed

text \<open>
  The grid with the double booking: Monday has four entries, two of them markers, so
  its count is 2, as Tuesday's with a lecture and a lab; one teacher triple and one room
  triple are repeated; hence 100 - 20 - 5 * (2 - 0) = 70. The grid of the
  counterexample, by key strings: 100 - 10 - 10 = 80.
\<close>

theorem score_formula_witness:
  "list_all (\<lambda>s. CHR ''_'' \<notin> set (time s)) (entriesOf clashGrid)
   \<and> length (clashGrid Monday) = 4
   \<and> duplicates (teacherTriples clashGrid) = 1
   \<and> duplicates (roomTriples clashGrid) = 1
   \<and> Max (dailyCounts clashGrid) = 2 \<and> Min (dailyCounts clashGrid) = 0
   \<and> calculateTimetableScore clashGrid = 70
   \<and> duplicates (map keyOf (teacherTriples underscoreGrid)) = 1
   \<and> duplicates (map keyOf (roomTriples underscoreGrid)) = 0
   \<and> calculateTimetableScore underscoreGrid = 80"
proof -
  have plain: "\<forall>s \<in> set (entriesOf clashGrid). CHR ''_'' \<notin> set (time s)"
    by (simp add: clashGrid_def entriesOf_def allDays_def initializeTimetable_def theorySession_def
          labSession_def breakMarker_def lunchMarker_def lunchTime_def)
  have len: "length (clashGrid Monday) = 4"
    by (simp add: clashGrid_def)
  have t: "duplicates (teacherTriples clashGrid) = 1"
    and r: "duplicates (roomTriples clashGrid) = 1"
    by (simp_all add: duplicates_def teacherTriples_def roomTriples_def clashGrid_def allDays_def
          initializeTimetable_def theorySession_def labSession_def breakMarker_def lunchMarker_def
          bookable_def truthy_def input_defs)
  have m: "Max (dailyCounts clashGrid) = 2 \<and> Min (dailyCounts clashGrid) = 0"
    by (simp add: dailyCounts_def allDays_def lessonCount_def clashGrid_def
          initializeTimetable_def theorySession_def labSession_def breakMarker_def lunchMarker_def)
  have ut: "duplicates (map keyOf (teacherTriples underscoreGrid)) = 1"
    and ur: "duplicates (map keyOf (roomTriples underscoreGrid)) = 0"
    by (simp_all add: duplicates_def keyOf_def teacherTriples_def roomTriples_def allDays_def
          underscoreGrid_def initializeTimetable_def theorySession_def mkCourse_def
          bookable_def truthy_def)
  have um: "Max (dailyCounts underscoreGrid) = 2 \<and> Min (dailyCounts underscoreGrid) = 0"
    by (simp add: dailyCounts_def allDays_def lessonCount_def underscoreGrid_def
          initializeTimetable_def theorySession_def)
  from score_formula [of clashGrid] score_formula [of underscoreGrid] plain len t r m ut ur um
  show ?thesis
    by (simp add: list_all_iff)
qed

section \<open>The per-day ceiling and the break threshold\<close>

text \<open>
  C1 at a failing input. \<open>canScheduleCourse\<close> checks \<open>MAX_CLASSES_PER_DAY\<close>, but
  \<open>canScheduleLab\<close> has no such check (and the repair passes move sessions without
  one). Seven lab courses with seven teachers and seven lab rooms, all drawn onto
  Monday: the run logs nothing, the constraints it returns have the ceiling 6, and
  Monday of the returned grid holds 7 sessions that are not markers.
\<close>

theorem seven_labs_exceed_ceiling:
  "map_sum id (\<lambda>out. (dayWorkload (days (returned out)) Monday,
                        MAX_CLASSES_PER_DAY (usedConstraints (returned out)), console out))
     (generateTimetable sevenEnv sevenLabs noOverrides) = Inr (7, 6, [])"
  by (simp add: run_defs input_defs break_defs repair_defs)

lemma long_built: "constructivePhase sampleEnv sampleSection longBreaks = Inr sampleBuilt"
  by (simp add: run_defs input_defs fun_eq_iff)

text \<open>
  C8 at a failing input. The caller asks for a minimum break of 30 minutes; the
  constraints the run returns say 30. The two Monday lectures are 15 minutes apart, and
  \<open>addBreaksAndLunch\<close>, which reads the threshold from \<open>this.constraints\<close> (10) and
  not from the merged constraints, inserts a break marker between them: the returned
  grid is the one of the run without override.
\<close>

theorem min_break_override_ignored:
  "map_sum id returned (generateTimetable sampleEnv sampleSection longBreaks)
     = Inr \<lparr>days = sampleFinal, sectionId = ''CSE-3-A'',
            generatedAt = ''2024-01-01T00:00:00.000Z'',
            usedConstraints = defaultConstraints\<lparr>MIN_BREAK_BETWEEN_CLASSES := 30\<rparr>\<rparr>
   \<and> getTimeDifference sampleEnv ''10:00'' ''10:15'' = Some 15
   \<and> sampleFinal Monday
       = [breakMarker 3 ''10:00'' ''10:15'', theorySession 1 ''10:15-11:15'' algebra ''R1'']
   \<and> map_sum id (days \<circ> returned) (generateTimetable sampleEnv sampleSection noOverrides)
       = Inr sampleFinal"
proof -
  have "generateTimetable sampleEnv sampleSection longBreaks =
     Inr \<lparr>returned = \<lparr>days = sampleFinal, sectionId = ''CSE-3-A'',
                      generatedAt = ''2024-01-01T00:00:00.000Z'',
                      usedConstraints = defaultConstraints\<lparr>MIN_BREAK_BETWEEN_CLASSES := 30\<rparr>\<rparr>,
          console = []\<rparr>"
    by (simp add: generateTimetable_phases long_built sample_marked sample_final)
       (simp add: sampleSection_def mkSection_def sampleEnv_def drawsEnv_def sampleMarked_def
          mergeConstraints_def noOverrides_def defaultConstraints_def longBreaks_def)
  moreover have "getTimeDifference sampleEnv ''10:00'' ''10:15'' = Some 15"
    by (simp add: getTimeDifference_def input_defs nthOpt_def)
  moreover have "sampleFinal Monday
      = [breakMarker 3 ''10:00'' ''10:15'', theorySession 1 ''10:15-11:15'' algebra ''R1'']"
    by (simp add: sampleFinal_def)
  ultimately show ?thesis
    by (simp add: sample_run)
qed

section \<open>The balancing pass\<close>

lemma balance_unchanged:
  assumes "\<forall>d. \<not> real (dayWorkload tt d) > avgClasses tt + 1"
  shows "balanceDailyWorkload tt cons = tt"
  using assms by (simp add: balanceDailyWorkload_def allDays_def)

lemma find_None_iff': "find P xs = None \<longleftrightarrow> (\<forall>x \<in> set xs. \<not> P x)"
  by (induction xs) auto

lemma find_first:
  "find P xs = Some t \<Longrightarrow> t \<in> set xs \<and> P t \<and> (\<forall>x \<in> set (takeWhile (\<lambda>x. x \<noteq> t) xs). \<not> P x)"
  by (induction xs) (auto split: if_splits)

lemma otherDaysOf_nonempty: "\<exists>t. nthOpt (otherDaysOf d) 0 = Some t \<and> t \<in> set (otherDaysOf d)"
  by (cases d) (simp_all add: otherDaysOf_def allDays_def nthOpt_def)

lemma targetDay_first_fit:
  "\<exists>t. targetDay g d = Some t \<and> t \<in> set (otherDaysOf d)
      \<and> (if \<exists>x \<in> set (otherDaysOf d). length (g x) < length (g d)
          then length (g t) < length (g d)
               \<and> (\<forall>x \<in> set (takeWhile (\<lambda>x. x \<noteq> t) (otherDaysOf d)). \<not> length (g x) < length (g d))
          else nthOpt (otherDaysOf d) 0 = Some t)"
proof (cases "find (\<lambda>x. length (g x) < length (g d)) (otherDaysOf d)")
  case None
  then have "\<forall>x \<in> set (otherDaysOf d). \<not> length (g x) < length (g d)"
    by (simp add: find_None_iff')
  with None otherDaysOf_nonempty [of d] show ?thesis
    by (auto simp: targetDay_def)
next
  case (Some t)
  from find_first [OF Some] Some show ?thesis
    by (auto simp: targetDay_def)
qed

lemma moveOne_eq:
  "targetDay g d = Some t \<Longrightarrow>
     moveOne d g c = g(t := g t @ [c], d := filter (\<lambda>x. oid x \<noteq> oid c) (g d))"
  by (simp add: moveOne_def)

lemma moveAll_source:
  "foldl (moveOne d) g cs d = filter (\<lambda>x. oid x \<notin> oid ` set cs) (g d)"
proof (induction cs arbitrary: g)
  case Nil
  then show ?case by simp
next
  case (Cons c cs)
  obtain t where t: "targetDay g d = Some t" "t \<in> set (otherDaysOf d)"
    using targetDay_first_fit [of g d] by blast
  then have "t \<noteq> d"
    by (simp add: otherDaysOf_ne)
  then have "moveOne d g c d = filter (\<lambda>x. oid x \<noteq> oid c) (g d)"
    using t(1) by (simp add: moveOne_eq)
  with Cons.IH [of "moveOne d g c"] show ?case
    by (auto intro: filter_cong)
qed

lemma avgClasses_sum: "avgClasses tt = real (sum_list (map (dayWorkload tt) allDays)) / 6"
  by (simp add: avgClasses_def allDays_def)

lemma balance_single:
  assumes "real (dayWorkload tt d) > avgClasses tt + 1"
    and "\<forall>d'. d' \<noteq> d \<longrightarrow> \<not> real (dayWorkload tt d') > avgClasses tt + 1"
  shows "balanceDailyWorkload tt cons
           = redistributeClasses tt d \<lfloor>real (dayWorkload tt d) - avgClasses tt\<rfloor>"
  using assms by (cases d) (simp_all add: balanceDailyWorkload_def allDays_def)

lemma moveOne_others:
  assumes "stype c = Theory" and "c \<in> set (g d)" and "distinct (map oid (entriesOf g))"
  shows "filter (\<lambda>s. stype s \<noteq> Theory) (moveOne d g c x) = filter (\<lambda>s. stype s \<noteq> Theory) (g x)"
proof -
  obtain t where t: "targetDay g d = Some t" "t \<in> set (otherDaysOf d)"
    using targetDay_first_fit [of g d] by blast
  then have ne: "t \<noteq> d"
    by (simp add: otherDaysOf_ne)
  have inj: "inj_on oid (set (g d))"
    using day_distinct [OF assms(3), of d] by (simp add: distinct_map)
  have "filter (\<lambda>s. stype s \<noteq> Theory) (filter (\<lambda>y. oid y \<noteq> oid c) (g d))
      = filter (\<lambda>s. stype s \<noteq> Theory) (g d)"
    unfolding filter_filter using inj assms(1,2)
    by (intro filter_cong refl) (auto dest: inj_onD)
  then show ?thesis
    using ne assms(1) by (simp add: moveOne_eq [OF t(1)])
qed

lemma moveAll_others:
  "distinct (map oid cs) \<Longrightarrow> set cs \<subseteq> set (g d) \<Longrightarrow> distinct (map oid (entriesOf g))
     \<Longrightarrow> \<forall>c \<in> set cs. stype c = Theory
     \<Longrightarrow> filter (\<lambda>s. stype s \<noteq> Theory) (foldl (moveOne d) g cs x)
           = filter (\<lambda>s. stype s \<noteq> Theory) (g x)"
proof (induction cs arbitrary: g)
  case Nil
  then show ?case by simp
next
  case (Cons c cs)
  let ?g' = "moveOne d g c"
  have c: "c \<in> set (g d)" "stype c = Theory"
    using Cons.prems(2,4) by simp_all
  have bag': "mset (entriesOf ?g') = mset (entriesOf g)"
    using c(1) Cons.prems(3) by (rule moveOne_bag)
  have dist': "distinct (map oid (entriesOf ?g'))"
    using perm_distinct_map [OF bag', of oid] Cons.prems(3) by simp
  have sub': "set cs \<subseteq> set (?g' d)"
  proof
    fix y assume y: "y \<in> set cs"
    with Cons.prems(1) have "oid y \<noteq> oid c"
      by (metis distinct.simps(2) image_eqI list.simps(9) set_map)
    with y Cons.prems(2) show "y \<in> set (?g' d)"
      using moveOne_day [of g d c] by auto
  qed
  have dx: "distinct (map oid cs)" and th: "\<forall>c \<in> set cs. stype c = Theory"
    using Cons.prems(1,4) by simp_all
  from Cons.IH [OF dx sub' dist' th] moveOne_others [OF c(2) c(1) Cons.prems(3), of x]
  show ?case
    by simp
qed

lemma redistributeClasses_others:
  assumes "distinct (map oid (entriesOf g))"
  shows "filter (\<lambda>s. stype s \<noteq> Theory) (redistributeClasses g d n x)
           = filter (\<lambda>s. stype s \<noteq> Theory) (g x)"
  unfolding redistributeClasses_def
proof (rule moveAll_others [OF _ _ assms])
  let ?cs = "slice0 n (filter (\<lambda>cls. stype cls = Theory) (g d))"
  show "distinct (map oid ?cs)"
    using day_distinct [OF assms, of d] by (intro slice0_distinct) (simp add: distinct_map_filter)
  show "set ?cs \<subseteq> set (g d)"
    using slice0_sub [of n "filter (\<lambda>cls. stype cls = Theory) (g d)"] by auto
  show "\<forall>c \<in> set ?cs. stype c = Theory"
    using slice0_sub [of n "filter (\<lambda>cls. stype cls = Theory) (g d)"] by auto
qed

lemma balanceFold_others:
  "distinct (map oid (entriesOf g)) \<Longrightarrow>
     filter (\<lambda>s. stype s \<noteq> Theory)
        (foldl (\<lambda>t d. if P d then redistributeClasses t d (n d) else t) g ds x)
       = filter (\<lambda>s. stype s \<noteq> Theory) (g x)"
proof (induction ds arbitrary: g)
  case Nil
  then show ?case by simp
next
  case (Cons d ds)
  let ?g' = "if P d then redistributeClasses g d (n d) else g"
  have bag': "mset (entriesOf ?g') = mset (entriesOf g)"
    using redistributeClasses_bag [OF Cons.prems] by simp
  then have "distinct (map oid (entriesOf ?g'))"
    using perm_distinct_map [OF bag', of oid] Cons.prems by simp
  from Cons.IH [OF this] redistributeClasses_others [OF Cons.prems, of d "n d" x] show ?case
    by simp
qed

lemma balanceDailyWorkload_others:
  "distinct (map oid (entriesOf g)) \<Longrightarrow>
     filter (\<lambda>s. stype s \<noteq> Theory) (balanceDailyWorkload g cons x)
       = filter (\<lambda>s. stype s \<noteq> Theory) (g x)"
  unfolding balanceDailyWorkload_def by (rule balanceFold_others)

lemma balance_example: "balanceDailyWorkload balanceGrid cons = balancedGrid"
  by (simp add: repair_defs input_defs allDays_def initializeTimetable_def theorySession_def nthOpt_def fun_eq_iff)

lemma avgClasses_total: "avgClasses tt = real (lessonTotal tt) / 6"
  by (simp add: avgClasses_def lessonTotal_def allDays_def dayWorkload_lessonCount)

lemma overfull_real:
  "overfull tt d = (real (lessonTotal tt) / 6 + 1 < real (lessonCount (tt d)))"
proof -
  let ?c = "lessonCount (tt d)" and ?T = "lessonTotal tt"
  have "(real ?T / 6 + 1 < real ?c) = (real (?T + 6) < real (6 * ?c))"
    by (simp add: field_simps)
  also have "\<dots> = (?T + 6 < 6 * ?c)"
    by (rule of_nat_less_iff)
  finally show ?thesis
    by (simp add: overfull_def)
qed

lemma overfull_iff: "(avgClasses tt + 1 < real (dayWorkload tt d)) = overfull tt d"
  by (simp add: overfull_real avgClasses_total dayWorkload_lessonCount)

lemma quota_real:
  assumes "overfull tt d"
  shows "\<lfloor>real (lessonCount (tt d)) - real (lessonTotal tt) / 6\<rfloor> = int (quota tt d)"
proof -
  let ?c = "lessonCount (tt d)" and ?T = "lessonTotal tt"
  from assms have le: "?T \<le> 6 * ?c"
    by (simp add: overfull_def)
  have "real ?c - real ?T / 6 = of_int (int (6 * ?c - ?T)) / of_int 6"
    using le by (simp add: field_simps of_nat_diff)
  then have "\<lfloor>real ?c - real ?T / 6\<rfloor> = int (6 * ?c - ?T) div 6"
    by (simp only: floor_divide_of_int_eq)
  also have "\<dots> = int ((6 * ?c - ?T) div 6)"
    by (simp add: zdiv_int)
  finally show ?thesis
    by (simp add: quota_def)
qed

lemma quota_floor:
  "overfull tt d \<Longrightarrow> \<lfloor>real (dayWorkload tt d) - avgClasses tt\<rfloor> = int (quota tt d)"
  by (simp add: quota_real avgClasses_total dayWorkload_lessonCount)

lemma slice0_nat: "slice0 (int n) xs = take n xs"
  by (simp add: slice0_def)

lemma find_filter: "find P xs = (case filter P xs of [] \<Rightarrow> None | x # ys \<Rightarrow> Some x)"
  by (induction xs) auto

lemma targetDay_firstShorter: "targetDay g d = Some (firstShorter g d)"
proof -
  have f: "filter (\<lambda>x. x \<noteq> d \<and> length (g x) < length (g d)) allDays
      = filter (\<lambda>x. length (g x) < length (g d)) (otherDaysOf d)"
    by (simp add: otherDaysOf_def conj_commute)
  have h: "nthOpt (otherDaysOf d) 0 = Some (if d = Monday then Tuesday else Monday)"
    by (cases d) (simp_all add: otherDaysOf_def allDays_def nthOpt_def)
  show ?thesis
    unfolding targetDay_def firstShorter_def f find_filter [of _ "otherDaysOf d"] h
    by (simp split: list.splits)
qed

lemma moveOne_relocate: "moveOne d g c = relocate d g c"
  by (simp add: moveOne_def relocate_def targetDay_firstShorter)

lemma redistribute_relocate:
  "redistributeClasses g d (int n) = foldl (relocate d) g (firstLectures n (g d))"
proof -
  have "moveOne d = relocate d"
    by (simp add: fun_eq_iff moveOne_relocate)
  then show ?thesis
    by (simp add: redistributeClasses_def slice0_nat firstLectures_def)
qed

lemma foldl_if_filter:
  "foldl (\<lambda>g d. if P d then f g d else g) g ds = foldl f g (filter P ds)"
  by (induction ds arbitrary: g) simp_all

lemma foldl_agree:
  "(\<And>g d. d \<in> set ds \<Longrightarrow> f g d = h g d) \<Longrightarrow> foldl f g ds = foldl h g ds"
  by (induction ds arbitrary: g) simp_all

lemma balance_by_rule: "balanceDailyWorkload tt cons = balanceByRule tt"
proof -
  have "balanceDailyWorkload tt cons
      = foldl (\<lambda>t d. redistributeClasses t d \<lfloor>real (dayWorkload tt d) - avgClasses tt\<rfloor>) tt
          (filter (overfull tt) allDays)"
    unfolding balanceDailyWorkload_def overfull_iff by (rule foldl_if_filter)
  also have "\<dots> = balanceByRule tt"
    unfolding balanceByRule_def
    by (rule foldl_agree) (simp add: quota_floor redistribute_relocate)
  finally show ?thesis .
qed

lemma heavy_by_rule: "balanceByRule heavyGrid = heavyBalanced"
  by (simp add: rule_defs input_defs allDays_def initializeTimetable_def theorySession_def fun_eq_iff)

lemma padded_by_rule: "balanceByRule paddedGrid = paddedBalanced"
  by (simp add: rule_defs input_defs allDays_def initializeTimetable_def theorySession_def
        labSession_def breakMarker_def lunchMarker_def lunchTime_def fun_eq_iff)

text \<open>
  C6, as stated, fails at the choice of the target day. Monday has three lectures,
  Tuesday one, the other days none; the mean is 4/6 and Monday is to lose 2 lectures.
  The first goes to Tuesday, the first other day whose array is shorter than Monday's,
  although Wednesday has fewer sessions than Tuesday.
\<close>

theorem balancing_target_not_least_loaded:
  "targetDay balanceGrid Monday = Some Tuesday
   \<and> dayWorkload balanceGrid Wednesday < dayWorkload balanceGrid Tuesday
   \<and> balanceDailyWorkload balanceGrid defaultConstraints Tuesday
       = [theorySession 3 ''09:00-10:00'' algebra ''R1'',
          theorySession 0 ''09:00-10:00'' physics ''R1'']"
  by (simp add: balance_example)
     (simp add: targetDay_def otherDaysOf_def allDays_def dayWorkload_def isClass_def
        balanceGrid_def balancedGrid_def initializeTimetable_def theorySession_def)

text \<open>
  C6, amended. The pass counts, for each of the six days, the entries of type theory or
  lab (break and lunch markers are not counted) and takes the mean of the six counts,
  once, from the grid it is given. Every day whose count exceeds that mean by more than
  1 is treated, in the order Monday to Saturday, and gives up \<open>floor (count - mean)\<close>
  lectures, count and mean being those computed at the start: the first so many lecture
  entries of the day's array as it is when the day's turn comes (all of them when there
  are fewer), moved one after the other. Each goes to the end of the first other day, in
  the order Monday to Saturday, whose array (markers included) is at that moment shorter
  than the source day's array, and to the first other day when none is shorter. A grid
  with no such day is returned as it is. With sound object identities the pass neither
  loses nor duplicates an entry, and labs and markers stay in their day and order.
\<close>

theorem balancing_pass:
  "balanceDailyWorkload tt cons = balanceByRule tt
   \<and> dayWorkload tt d = lessonCount (tt d)
   \<and> avgClasses tt = real (lessonTotal tt) / 6
   \<and> overfull tt d = (real (lessonTotal tt) / 6 + 1 < real (lessonCount (tt d)))
   \<and> (overfull tt d \<longrightarrow>
        \<lfloor>real (lessonCount (tt d)) - real (lessonTotal tt) / 6\<rfloor> = int (quota tt d))
   \<and> ((\<forall>x. \<not> overfull tt x) \<longrightarrow> balanceDailyWorkload tt cons = tt)
   \<and> redistributeClasses g d (int n) = foldl (relocate d) g (firstLectures n (g d))
   \<and> redistributeClasses g d (int n) d
       = filter (\<lambda>x. oid x \<notin> oid ` set (firstLectures n (g d))) (g d)
   \<and> targetDay g d = Some (firstShorter g d)
   \<and> firstShorter g d \<noteq> d
   \<and> moveOne d g c = relocate d g c
   \<and> (if \<exists>x \<in> set (otherDaysOf d). length (g x) < length (g d)
       then length (g (firstShorter g d)) < length (g d)
            \<and> (\<forall>x \<in> set (takeWhile (\<lambda>x. x \<noteq> firstShorter g d) (otherDaysOf d)).
                  \<not> length (g x) < length (g d))
       else nthOpt (otherDaysOf d) 0 = Some (firstShorter g d))
   \<and> (distinct (map oid (entriesOf tt)) \<longrightarrow>
        mset (entriesOf (balanceDailyWorkload tt cons)) = mset (entriesOf tt)
        \<and> (\<forall>x. filter (\<lambda>s. stype s \<noteq> Theory) (balanceDailyWorkload tt cons x)
                 = filter (\<lambda>s. stype s \<noteq> Theory) (tt x)))"
proof (intro conjI impI allI)
  show "balanceDailyWorkload tt cons = balanceByRule tt"
    by (rule balance_by_rule)
next
  show "dayWorkload tt d = lessonCount (tt d)"
    by (rule dayWorkload_lessonCount)
next
  show "avgClasses tt = real (lessonTotal tt) / 6"
    by (rule avgClasses_total)
next
  show "overfull tt d = (real (lessonTotal tt) / 6 + 1 < real (lessonCount (tt d)))"
    by (rule overfull_real)
next
  assume "overfull tt d"
  then show "\<lfloor>real (lessonCount (tt d)) - real (lessonTotal tt) / 6\<rfloor> = int (quota tt d)"
    by (rule quota_real)
next
  assume "\<forall>x. \<not> overfull tt x"
  then show "balanceDailyWorkload tt cons = tt"
    by (simp add: balance_by_rule balanceByRule_def)
next
  show eq: "redistributeClasses g d (int n) = foldl (relocate d) g (firstLectures n (g d))"
    by (rule redistribute_relocate)
  have "redistributeClasses g d (int n) = foldl (moveOne d) g (firstLectures n (g d))"
    by (simp add: redistributeClasses_def slice0_nat firstLectures_def)
  then show "redistributeClasses g d (int n) d
      = filter (\<lambda>x. oid x \<notin> oid ` set (firstLectures n (g d))) (g d)"
    by (simp only: moveAll_source)
next
  show "targetDay g d = Some (firstShorter g d)"
    by (rule targetDay_firstShorter)
next
  obtain t where t: "targetDay g d = Some t" "t \<in> set (otherDaysOf d)"
    and fit: "if \<exists>x \<in> set (otherDaysOf d). length (g x) < length (g d)
          then length (g t) < length (g d)
               \<and> (\<forall>x \<in> set (takeWhile (\<lambda>x. x \<noteq> t) (otherDaysOf d)). \<not> length (g x) < length (g d))
          else nthOpt (otherDaysOf d) 0 = Some t"
    using targetDay_first_fit [of g d] by blast
  from t(1) have same: "t = firstShorter g d"
    by (simp add: targetDay_firstShorter)
  from t(2) show "firstShorter g d \<noteq> d"
    unfolding same by (rule otherDaysOf_ne)
  from fit show "if \<exists>x \<in> set (otherDaysOf d). length (g x) < length (g d)
       then length (g (firstShorter g d)) < length (g d)
            \<and> (\<forall>x \<in> set (takeWhile (\<lambda>x. x \<noteq> firstShorter g d) (otherDaysOf d)).
                  \<not> length (g x) < length (g d))
       else nthOpt (otherDaysOf d) 0 = Some (firstShorter g d)"
    unfolding same .
next
  show "moveOne d g c = relocate d g c"
    by (rule moveOne_relocate)
next
  assume "distinct (map oid (entriesOf tt))"
  then show "mset (entriesOf (balanceDailyWorkload tt cons)) = mset (entriesOf tt)"
    by (rule balanceDailyWorkload_bag)
next
  fix x
  assume "distinct (map oid (entriesOf tt))"
  then show "filter (\<lambda>s. stype s \<noteq> Theory) (balanceDailyWorkload tt cons x)
      = filter (\<lambda>s. stype s \<noteq> Theory) (tt x)"
    by (rule balanceDailyWorkload_others)
qed

text \<open>
  With five lectures on Monday and five on Tuesday the mean is 10/6, both days are
  overloaded and each gives up \<open>floor (5 - 10/6) = 3\<close> lectures: Monday's go to
  Wednesday; of Tuesday's, two go to Monday and the third to Thursday. On the padded
  Monday, 4 of the 6 entries count, the quota is 2, and the lab and both markers stay.
  A grid with a single lecture has no overloaded day and is left as it is.
\<close>

theorem balancing_pass_witness:
  "lessonTotal heavyGrid = 10
   \<and> filter (overfull heavyGrid) allDays = [Monday, Tuesday]
   \<and> \<lfloor>real (lessonCount (heavyGrid Monday)) - real (lessonTotal heavyGrid) / 6\<rfloor> = 3
   \<and> quota heavyGrid Tuesday = 3
   \<and> balanceDailyWorkload heavyGrid defaultConstraints = heavyBalanced
   \<and> distinct (map oid (entriesOf heavyGrid))
   \<and> mset (entriesOf heavyBalanced) = mset (entriesOf heavyGrid)
   \<and> length (paddedGrid Monday) = 6
   \<and> dayWorkload paddedGrid Monday = 4
   \<and> quota paddedGrid Monday = 2
   \<and> filter (overfull paddedGrid) allDays = [Monday]
   \<and> balanceDailyWorkload paddedGrid defaultConstraints = paddedBalanced
   \<and> filter (overfull (grid afterPhysics)) allDays = []
   \<and> balanceDailyWorkload (grid afterPhysics) defaultConstraints = grid afterPhysics
   \<and> redistributeClasses balanceGrid Monday 2 = balancedGrid
   \<and> firstShorter balanceGrid Monday = Tuesday
   \<and> length (balanceGrid Tuesday) < length (balanceGrid Monday)"
proof -
  note onHeavy = balancing_pass [of heavyGrid defaultConstraints Monday balanceGrid 2
      "theorySession 0 ''09:00-10:00'' physics ''R1''"]
  note onPadded = balancing_pass [of paddedGrid defaultConstraints Monday balanceGrid 2
      "theorySession 0 ''09:00-10:00'' physics ''R1''"]
  note onSingle = balancing_pass [of "grid afterPhysics" defaultConstraints Monday balanceGrid 2
      "theorySession 0 ''09:00-10:00'' physics ''R1''"]
  have total: "lessonTotal heavyGrid = 10"
    by (simp add: rule_defs input_defs allDays_def initializeTimetable_def theorySession_def)
  have over: "filter (overfull heavyGrid) allDays = [Monday, Tuesday]"
    by (simp add: rule_defs input_defs allDays_def initializeTimetable_def theorySession_def)
  then have mon: "overfull heavyGrid Monday"
    by (simp add: allDays_def split: if_splits)
  have q: "quota heavyGrid Monday = 3" "quota heavyGrid Tuesday = 3"
    by (simp_all add: rule_defs input_defs allDays_def initializeTimetable_def theorySession_def)
  from onHeavy mon q(1)
  have fl: "\<lfloor>real (lessonCount (heavyGrid Monday)) - real (lessonTotal heavyGrid) / 6\<rfloor> = 3"
    by simp
  from onHeavy have heavy: "balanceDailyWorkload heavyGrid defaultConstraints = heavyBalanced"
    by (simp add: heavy_by_rule)
  have ids: "distinct (map oid (entriesOf heavyGrid))"
    by (simp add: entriesOf_def allDays_def input_defs initializeTimetable_def theorySession_def)
  with onHeavy have bag: "mset (entriesOf heavyBalanced) = mset (entriesOf heavyGrid)"
    unfolding heavy by simp
  have len: "length (paddedGrid Monday) = 6"
    by (simp add: paddedGrid_def initializeTimetable_def)
  have "lessonCount (paddedGrid Monday) = 4"
    by (simp add: rule_defs input_defs initializeTimetable_def theorySession_def labSession_def
          breakMarker_def lunchMarker_def)
  with onPadded have work: "dayWorkload paddedGrid Monday = 4"
    by simp
  have pq: "quota paddedGrid Monday = 2"
    and pover: "filter (overfull paddedGrid) allDays = [Monday]"
    by (simp_all add: rule_defs input_defs allDays_def initializeTimetable_def theorySession_def
          labSession_def breakMarker_def lunchMarker_def)
  from onPadded have padded: "balanceDailyWorkload paddedGrid defaultConstraints = paddedBalanced"
    by (simp add: padded_by_rule)
  have none: "filter (overfull (grid afterPhysics)) allDays = []"
    by (simp add: rule_defs input_defs allDays_def initializeTimetable_def theorySession_def)
  have "\<not> overfull (grid afterPhysics) x" for x
    using none by (cases x) (simp_all add: allDays_def split: if_splits)
  moreover from onSingle have "(\<forall>x. \<not> overfull (grid afterPhysics) x) \<longrightarrow>
      balanceDailyWorkload (grid afterPhysics) defaultConstraints = grid afterPhysics"
    by (elim conjE)
  ultimately
  have same: "balanceDailyWorkload (grid afterPhysics) defaultConstraints = grid afterPhysics"
    by simp
  have "foldl (relocate Monday) balanceGrid (firstLectures 2 (balanceGrid Monday)) = balancedGrid"
    by (simp add: rule_defs input_defs allDays_def initializeTimetable_def theorySession_def
          fun_eq_iff)
  with onHeavy have moved: "redistributeClasses balanceGrid Monday 2 = balancedGrid"
    by simp
  have tgt: "firstShorter balanceGrid Monday = Tuesday"
    and shorter: "length (balanceGrid Tuesday) < length (balanceGrid Monday)"
    by (simp_all add: firstShorter_def allDays_def balanceGrid_def initializeTimetable_def)
  from total over fl q(2) heavy ids bag len work pq pover padded none same moved tgt shorter
  show ?thesis
    by (intro conjI)
qed
end
